theory Spec2Isabelle
  imports Complex_Main "HOL-Library.Sublist" "HOL-Library.AList"
begin

section \<open>Python values, texts, exceptions and dictionaries\<close>

text \<open>
  The server of \<^verbatim>\<open>cursor_agent_mcp_server.py\<close> handles decoded JSON bodies and tool
  arguments as untyped Python values: \<open>json\<close> is that universe. A float is kept by its
  value, a dictionary is the list of its items in insertion order.
\<close>

datatype json =
    JNone
  | JBool bool
  | JInt int
  | JFloat rat
  | JStr string
  | JList "json list"
  | JDict "(string \<times> json) list"

text \<open>
  A \<open>pytext\<close> is a Python string the server builds, as the pieces of its f-string: the
  string is the concatenation of \<^verbatim>\<open>str(v)\<close> for the pieces \<open>v\<close>. The characters that
  \<^verbatim>\<open>str\<close> gives a number, a list or a dictionary are not modelled.
\<close>

type_synonym pytext = "json list"

text \<open>An exception is kept by its class and its \<^verbatim>\<open>str(e)\<close>.\<close>

datatype exn =
    Exception pytext
  | ValueError pytext
  | KeyError pytext
  | AttributeError pytext
  | TypeError pytext
  | RuntimeError pytext
  | ClientError pytext
  | OtherError pytext

fun str_exn :: "exn \<Rightarrow> pytext" where
  "str_exn (Exception m) = m"
| "str_exn (ValueError m) = m"
| "str_exn (KeyError m) = m"
| "str_exn (AttributeError m) = m"
| "str_exn (TypeError m) = m"
| "str_exn (RuntimeError m) = m"
| "str_exn (ClientError m) = m"
| "str_exn (OtherError m) = m"

text \<open>\<^verbatim>\<open>except aiohttp.ClientError\<close> catches this class only.\<close>

fun is_client_error :: "exn \<Rightarrow> bool" where
  "is_client_error (ClientError m) = True"
| "is_client_error e = False"

text \<open>
  A result envelope is a dictionary whose values are JSON values or texts. The
  attribute \<^verbatim>\<open>_models_cache\<close> holds \<^verbatim>\<open>None\<close> or such a dictionary.
\<close>

datatype field = Val json | Txt pytext

type_synonym envelope = "(string \<times> field) list"

text \<open>Truth value of a Python object, as \<^verbatim>\<open>if x:\<close> and \<^verbatim>\<open>x and y\<close> test it.\<close>

fun truthy :: "json \<Rightarrow> bool" where
  "truthy JNone = False"
| "truthy (JBool b) = b"
| "truthy (JInt n) = (n \<noteq> 0)"
| "truthy (JFloat x) = (x \<noteq> 0)"
| "truthy (JStr s) = (s \<noteq> [])"
| "truthy (JList vs) = (vs \<noteq> [])"
| "truthy (JDict d) = (d \<noteq> [])"

text \<open>The dictionary in a cache attribute when the attribute is truthy: neither
  \<^verbatim>\<open>None\<close> nor empty.\<close>

fun truthy_cache :: "envelope option \<Rightarrow> envelope option" where
  "truthy_cache None = None"
| "truthy_cache (Some d) = (if d \<noteq> [] then Some d else None)"

fun type_name :: "json \<Rightarrow> string" where
  "type_name JNone = ''NoneType''"
| "type_name (JBool b) = ''bool''"
| "type_name (JInt n) = ''int''"
| "type_name (JFloat x) = ''float''"
| "type_name (JStr s) = ''str''"
| "type_name (JList vs) = ''list''"
| "type_name (JDict d) = ''dict''"

text \<open>A name between single quotes, as Python's messages quote it.\<close>

definition sq :: "string \<Rightarrow> string" where
  "sq s = CHR 0x27 # s @ [CHR 0x27]"

definition no_attribute :: "string \<Rightarrow> string \<Rightarrow> exn" where
  "no_attribute ty attr =
     AttributeError [JStr (sq ty @ '' object has no attribute '' @ sq attr)]"

text \<open>\<^verbatim>\<open>d.get(k, default)\<close> and \<^verbatim>\<open>d[k]\<close> on a dictionary.\<close>

definition dict_get :: "(string \<times> json) list \<Rightarrow> string \<Rightarrow> json \<Rightarrow> json" where
  "dict_get d k dflt = (case map_of d k of Some v \<Rightarrow> v | None \<Rightarrow> dflt)"

definition dict_item :: "(string \<times> json) list \<Rightarrow> string \<Rightarrow> exn + json" where
  "dict_item d k = (case map_of d k of Some v \<Rightarrow> Inr v | None \<Rightarrow> Inl (KeyError [JStr (sq k)]))"

text \<open>\<^verbatim>\<open>x.get(k, default)\<close> on any value: only a dictionary has the method.\<close>

fun py_get :: "json \<Rightarrow> string \<Rightarrow> json \<Rightarrow> exn + json" where
  "py_get (JDict d) k dflt = Inr (dict_get d k dflt)"
| "py_get v k dflt = Inl (no_attribute (type_name v) ''get'')"

text \<open>\<^verbatim>\<open>len(x)\<close>: a TypeError on a value without a length.\<close>

fun py_len :: "json \<Rightarrow> exn + nat" where
  "py_len (JStr s) = Inr (length s)"
| "py_len (JList vs) = Inr (length vs)"
| "py_len (JDict d) = Inr (length d)"
| "py_len v = Inl (TypeError [JStr (''object of type '' @ sq (type_name v) @ '' has no len()'')])"

text \<open>\<^verbatim>\<open>x[0]\<close>; the source evaluates it only on a truthy \<open>x\<close> whose \<^verbatim>\<open>len\<close> exists.\<close>

fun py_first :: "json \<Rightarrow> exn + json" where
  "py_first (JList (v # vs)) = Inr v"
| "py_first (JList []) = Inl (OtherError [JStr ''list index out of range''])"
| "py_first (JStr (c # s)) = Inr (JStr [c])"
| "py_first (JStr []) = Inl (OtherError [JStr ''string index out of range''])"
| "py_first (JDict d) = Inl (KeyError [JStr ''0''])"
| "py_first v = Inl (TypeError [JStr (sq (type_name v) @ '' object is not subscriptable'')])"

text \<open>\<^verbatim>\<open>branch["name"]\<close> on one element of the decoded branch list.\<close>

fun branch_name :: "json \<Rightarrow> exn + json" where
  "branch_name (JDict d) = dict_item d ''name''"
| "branch_name (JStr s) = Inl (TypeError [JStr ''string indices must be integers'']) "
| "branch_name (JList vs) = Inl (TypeError [JStr ''list indices must be integers or slices, not str''])"
| "branch_name v = Inl (TypeError [JStr (sq (type_name v) @ '' object is not subscriptable'')])"

fun branch_names_of :: "json list \<Rightarrow> exn + json list" where
  "branch_names_of [] = Inr []"
| "branch_names_of (v # vs) =
     (case branch_name v of
        Inl ex \<Rightarrow> Inl ex
      | Inr b \<Rightarrow> (case branch_names_of vs of Inl ex \<Rightarrow> Inl ex | Inr bs \<Rightarrow> Inr (b # bs)))"

text \<open>
  \<^verbatim>\<open>[branch["name"] for branch in branches_data]\<close>: a list gives its elements, a
  dictionary its keys and a string its characters; nothing else can be iterated.
\<close>

fun branch_names :: "json \<Rightarrow> exn + json list" where
  "branch_names (JList vs) = branch_names_of vs"
| "branch_names (JDict d) = branch_names_of (map (\<lambda>kv. JStr (fst kv)) d)"
| "branch_names (JStr s) = branch_names_of (map (\<lambda>c. JStr [c]) s)"
| "branch_names v = Inl (TypeError [JStr (sq (type_name v) @ '' object is not iterable'')])"

text \<open>
  Keys of \<^verbatim>\<open>self.agents\<close>: lists and dictionaries are unhashable; \<^verbatim>\<open>True\<close>,
  \<^verbatim>\<open>False\<close> are the keys \<open>1\<close>, \<open>0\<close>, and a float with an integral value is the key of
  that integer.
\<close>

fun hashable :: "json \<Rightarrow> bool" where
  "hashable (JList vs) = False"
| "hashable (JDict d) = False"
| "hashable v = True"

fun key_of :: "json \<Rightarrow> json" where
  "key_of (JBool b) = JInt (if b then 1 else 0)"
| "key_of (JFloat x) = (if of_int \<lfloor>x\<rfloor> = x then JInt \<lfloor>x\<rfloor> else JFloat x)"
| "key_of v = v"

definition unhashable :: "json \<Rightarrow> exn" where
  "unhashable v = TypeError [JStr (''unhashable type: '' @ sq (type_name v))]"

section \<open>Repository URL parsing\<close>

text \<open>
  A URL is a list of bytes, the UTF-8 encoding of the Python string; the patterns of the
  parser are ASCII, and an ASCII byte never lies inside the encoding of another
  character, so searching and splitting bytes is searching and splitting characters.

  \<^verbatim>\<open>s.replace(pat, "")\<close>: delete the occurrences of \<open>pat\<close>, leftmost first and without
  overlap. The counter is the number of characters of a found occurrence still to skip.
\<close>

fun delete_occ :: "string \<Rightarrow> nat \<Rightarrow> string \<Rightarrow> string" where
  "delete_occ pat k [] = []"
| "delete_occ pat k (c # cs) =
     (if 0 < k then delete_occ pat (k - 1) cs
      else if pat \<noteq> [] \<and> prefix pat (c # cs) then delete_occ pat (length pat - 1) cs
      else c # delete_occ pat 0 cs)"

definition replace_empty :: "string \<Rightarrow> string \<Rightarrow> string" where
  "replace_empty s pat = delete_occ pat 0 s"

text \<open>\<^verbatim>\<open>s.rstrip("/")\<close> removes every trailing slash.\<close>

definition rstrip_slash :: "string \<Rightarrow> string" where
  "rstrip_slash s = rev (dropWhile (\<lambda>c. c = CHR ''/'') (rev s))"

text \<open>\<^verbatim>\<open>pat in s\<close> on strings.\<close>

fun contains :: "string \<Rightarrow> string \<Rightarrow> bool" where
  "contains [] pat = (pat = [])"
| "contains (c # cs) pat = (prefix pat (c # cs) \<or> contains cs pat)"

text \<open>\<^verbatim>\<open>parts.split("/", 1)\<close> on a string that holds a slash: the text before the first
  slash and the text after it.\<close>

definition split_first_slash :: "string \<Rightarrow> string \<times> string" where
  "split_first_slash s =
     (takeWhile (\<lambda>c. c \<noteq> CHR ''/'') s, drop 1 (dropWhile (\<lambda>c. c \<noteq> CHR ''/'') s))"

text \<open>
  \<^verbatim>\<open>_extract_repo_info\<close>. The ValueError raised inside the \<^verbatim>\<open>try\<close> is caught by its
  own \<^verbatim>\<open>except Exception\<close> and raised again as \<^verbatim>\<open>Invalid repository URL\<close>, so every
  failure carries that message.
\<close>

definition extract_repo_info :: "string \<Rightarrow> exn + (string \<times> string)" where
  "extract_repo_info repository_url =
     (let invalid = Inl (ValueError [JStr (''Invalid repository URL: '' @ repository_url)]) in
      if contains repository_url ''github.com'' then
        (let parts = rstrip_slash
               (replace_empty (replace_empty repository_url ''https://github.com/'')
                  ''http://github.com/'')
         in if contains parts ''/'' then Inr (split_first_slash parts) else invalid)
      else invalid)"

section \<open>Configuration, session, registry and caches\<close>

record cursor_api_config =
  api_key :: string
  base_url :: string
  timeout :: int
  max_retries :: int

definition default_config :: "string \<Rightarrow> cursor_api_config" where
  "default_config key =
     \<lparr>api_key = key, base_url = ''https://api.cursor.com'', timeout = 30, max_retries = 3\<rparr>"

text \<open>The dataclass \<^verbatim>\<open>BackgroundAgent\<close>; Python checks no field type, so each field holds
  whatever value the code puts there.\<close>

record background_agent =
  agent_id :: json
  status :: json
  repository_url :: json
  prompt :: json
  branch :: json
  model :: json
  created_at :: json
  updated_at :: json
  progress :: json

text \<open>
  An \<^verbatim>\<open>aiohttp.ClientSession\<close>, by what the server can observe of it: the arguments it was
  built with and whether \<^verbatim>\<open>close()\<close> has been called on it. A closed session refuses
  every request with \<^verbatim>\<open>RuntimeError("Session is closed")\<close>, and closing it again does
  nothing.
\<close>

record client_session =
  closed :: bool
  session_timeout :: int
  session_headers :: "(string \<times> string) list"

record request =
  http_method :: string
  url :: pytext
  req_headers :: "(string \<times> string) list"
  json_body :: json

text \<open>
  What one request gives. \<open>Response st body txt\<close> is a response of status \<open>st\<close> whose
  \<^verbatim>\<open>response.text()\<close> is \<open>txt\<close> and whose \<^verbatim>\<open>response.json()\<close> returns \<open>d\<close> when \<open>body\<close>
  is \<open>Inr d\<close> and raises \<open>ex\<close> when \<open>body\<close> is \<open>Inl ex\<close>: aiohttp raises its
  \<^verbatim>\<open>ContentTypeError\<close>, an \<^verbatim>\<open>aiohttp.ClientError\<close>, on a body whose content type is not
  JSON, and the decoder raises \<^verbatim>\<open>JSONDecodeError\<close>, a \<^verbatim>\<open>ValueError\<close>, on a malformed one.
  \<open>Raises ex\<close> is an exception raised by the request itself, before any response.
\<close>

datatype outcome = Response nat "exn + json" string | Raises exn

text \<open>
  The world outside the process. The \<open>i\<close>-th request sent gets \<open>transport i\<close>, and the
  \<open>i\<close>-th reading of a clock gets \<open>clock i\<close> from \<^verbatim>\<open>time.time()\<close>, \<open>utcnow_iso i\<close> from
  \<^verbatim>\<open>datetime.utcnow().isoformat()\<close> and \<open>utcnow_timestamp i\<close> as the text of
  \<^verbatim>\<open>datetime.utcnow().timestamp()\<close>. A reading of \<^verbatim>\<open>time.time()\<close> is a Python float, kept
  by its value.
\<close>

record env =
  transport :: "nat \<Rightarrow> request \<Rightarrow> outcome"
  clock :: "nat \<Rightarrow> real"
  utcnow_iso :: "nat \<Rightarrow> string"
  utcnow_timestamp :: "nat \<Rightarrow> string"
  github_token :: "string option"

text \<open>
  The attributes of \<^verbatim>\<open>CursorAgentMCPServer\<close>, followed by the trace of its effects:
  the number of requests sent, the number of calls of \<^verbatim>\<open>_make_api_request\<close>, the
  arguments of \<^verbatim>\<open>asyncio.sleep\<close> in order, and the number of clock readings.
\<close>

record server =
  config :: cursor_api_config
  session :: "client_session option"
  agents :: "(json \<times> background_agent) list"
  models_cache :: "envelope option"
  repositories_cache :: "envelope option"
  branches_cache :: "string \<rightharpoonup> envelope"
  models_cache_timestamp :: "real option"
  repositories_cache_timestamp :: "real option"
  branches_cache_timestamp :: "string \<rightharpoonup> real"
  requests :: nat
  api_calls :: nat
  sleeps :: "nat list"
  clock_reads :: nat

text \<open>\<^verbatim>\<open>__init__\<close>. It also sets \<^verbatim>\<open>self._cache_duration = 300\<close>, which nothing writes
  afterwards.\<close>

definition cache_duration :: real where
  "cache_duration = 300"

definition init :: "cursor_api_config \<Rightarrow> server" where
  "init cfg =
     \<lparr>config = cfg, session = None, agents = [],
      models_cache = None, repositories_cache = None, branches_cache = Map.empty,
      models_cache_timestamp = None, repositories_cache_timestamp = None,
      branches_cache_timestamp = Map.empty,
      requests = 0, api_calls = 0, sleeps = [], clock_reads = 0\<rparr>"

definition time_time :: "env \<Rightarrow> server \<Rightarrow> real \<times> server" where
  "time_time e s = (clock e (clock_reads s), s\<lparr>clock_reads := Suc (clock_reads s)\<rparr>)"

definition utcnow_isoformat :: "env \<Rightarrow> server \<Rightarrow> string \<times> server" where
  "utcnow_isoformat e s = (utcnow_iso e (clock_reads s), s\<lparr>clock_reads := Suc (clock_reads s)\<rparr>)"

definition utcnow_ts :: "env \<Rightarrow> server \<Rightarrow> string \<times> server" where
  "utcnow_ts e s =
     (utcnow_timestamp e (clock_reads s), s\<lparr>clock_reads := Suc (clock_reads s)\<rparr>)"

text \<open>
  Subtraction of Python floats. A float is an IEEE 754 binary64 number, and \<^verbatim>\<open>x - y\<close> is
  the exact difference rounded to the nearest number of 53 significant bits, a tie going
  to the one whose last bit is zero. \<open>ilog2 x\<close> is the exponent \<open>k\<close> with
  \<open>2 ^ k \<le> x < 2 ^ (k + 1)\<close> of a positive \<open>x\<close>, and \<open>round_double\<close> rounds to 53 bits at
  that exponent. The range of the exponent is not modelled, which no comparison with a
  float can see: an exact difference of two floats that is too small for a normal
  number is itself a float, and where the float difference overflows to an infinity the
  value here lies beyond every float on the same side. The readings of \<^verbatim>\<open>time.time()\<close>
  are finite.
\<close>

fun bit_length :: "nat \<Rightarrow> nat" where
  "bit_length n = (if n = 0 then 0 else Suc (bit_length (n div 2)))"

declare bit_length.simps [simp del]

definition ilog2 :: "real \<Rightarrow> int" where
  "ilog2 x = (if 1 \<le> x then int (bit_length (nat \<lfloor>x\<rfloor>)) - 1
              else - int (bit_length (nat (\<lceil>1 / x\<rceil> - 1))))"

definition pow2 :: "int \<Rightarrow> real" where
  "pow2 k = (if 0 \<le> k then 2 ^ nat k else 1 / 2 ^ nat (- k))"

definition round_half_even :: "real \<Rightarrow> int" where
  "round_half_even x =
     (let f = \<lfloor>x\<rfloor>; r = x - of_int f
      in if r < 1 / 2 then f else if 1 / 2 < r then f + 1 else if even f then f else f + 1)"

definition round_double :: "real \<Rightarrow> real" where
  "round_double x =
     (if x = 0 then 0
      else let k = ilog2 \<bar>x\<bar> - 52
           in sgn x * of_int (round_half_even (\<bar>x\<bar> / pow2 k)) * pow2 k)"

definition float_sub :: "real \<Rightarrow> real \<Rightarrow> real" where
  "float_sub x y = round_double (x - y)"

text \<open>\<^verbatim>\<open>_is_cache_valid\<close>: the clock is read only when a timestamp exists, and the age
  of the entry is a difference of floats.\<close>

definition is_cache_valid :: "env \<Rightarrow> real option \<Rightarrow> server \<Rightarrow> bool \<times> server" where
  "is_cache_valid e cache_timestamp s =
     (case cache_timestamp of
        None \<Rightarrow> (False, s)
      | Some t \<Rightarrow>
          (case time_time e s of (now, s1) \<Rightarrow> (float_sub now t < cache_duration, s1)))"

text \<open>
  The test \<^verbatim>\<open>not force_refresh and self._is_cache_valid(timestamp) and cached\<close> that
  opens the three caching handlers; it stops at its first false operand, so the clock is
  not read under \<^verbatim>\<open>force_refresh\<close>. The value is the cached dictionary to serve, if any.
\<close>

definition cache_check ::
  "env \<Rightarrow> bool \<Rightarrow> real option \<Rightarrow> envelope option \<Rightarrow> server \<Rightarrow> envelope option \<times> server" where
  "cache_check e force_refresh cache_timestamp cached s =
     (if force_refresh then (None, s)
      else case is_cache_valid e cache_timestamp s of
             (valid, s1) \<Rightarrow> (if valid then cached else None, s1))"

definition clear_cache :: "server \<Rightarrow> server" where
  "clear_cache s =
     s\<lparr>models_cache := None, repositories_cache := None, branches_cache := Map.empty,
       models_cache_timestamp := None, repositories_cache_timestamp := None,
       branches_cache_timestamp := Map.empty\<rparr>"

section \<open>Transport session\<close>

text \<open>\<^verbatim>\<open>_ensure_session\<close>: a session is built only when the attribute is \<^verbatim>\<open>None\<close>.\<close>

definition ensure_session :: "server \<Rightarrow> server" where
  "ensure_session s =
     (case session s of
        None \<Rightarrow>
          s\<lparr>session := Some
              \<lparr>closed = False, session_timeout = timeout (config s),
               session_headers =
                 [(''Authorization'', ''Bearer '' @ api_key (config s)),
                  (''Content-Type'', ''application/json''),
                  (''User-Agent'', ''Cursor-Agent-MCP-Server/1.0.0'')]\<rparr>\<rparr>
      | Some cs \<Rightarrow> s)"

text \<open>\<^verbatim>\<open>initialize\<close>.\<close>

definition initialize :: "server \<Rightarrow> server" where
  "initialize s = ensure_session s"

text \<open>\<^verbatim>\<open>cleanup\<close>: the session object is closed and stays in the attribute.\<close>

definition cleanup :: "server \<Rightarrow> server" where
  "cleanup s =
     (case session s of
        None \<Rightarrow> s
      | Some cs \<Rightarrow> s\<lparr>session := Some (cs\<lparr>closed := True\<rparr>)\<rparr>)"

text \<open>The attribute holds a session that is open; the attribute holds no closed
  session.\<close>

definition session_live :: "server \<Rightarrow> bool" where
  "session_live s = (case session s of None \<Rightarrow> False | Some cs \<Rightarrow> \<not> closed cs)"

definition not_closed :: "server \<Rightarrow> bool" where
  "not_closed s = (case session s of None \<Rightarrow> True | Some cs \<Rightarrow> \<not> closed cs)"

text \<open>One request over \<^verbatim>\<open>self.session\<close>, by the method named \<open>attr\<close>.\<close>

definition session_request :: "env \<Rightarrow> string \<Rightarrow> request \<Rightarrow> server \<Rightarrow> outcome \<times> server" where
  "session_request e attr rq s =
     (case session s of
        None \<Rightarrow>
          (Raises (no_attribute ''NoneType'' attr), s)
      | Some cs \<Rightarrow>
          if closed cs then (Raises (RuntimeError [JStr ''Session is closed'']), s)
          else (transport e (requests s) rq, s\<lparr>requests := Suc (requests s)\<rparr>))"

section \<open>Retrying request executor\<close>

text \<open>
  The body of \<^verbatim>\<open>for attempt in range(self.config.max_retries)\<close> in
  \<^verbatim>\<open>_make_api_request\<close>, over the attempts still to make; \<open>n\<close> is
  \<^verbatim>\<open>self.config.max_retries\<close>. The body of the response is decoded before its status is
  looked at, so an exception of the decoding is handled like one of the request: an
  exception raised inside the \<^verbatim>\<open>try\<close> leaves the loop unless it is an
  \<^verbatim>\<open>aiohttp.ClientError\<close>.
\<close>

definition retries_exhausted :: "int \<Rightarrow> exn" where
  "retries_exhausted n =
     Exception [JStr ''Failed to complete request after '', JInt n, JStr '' attempts'']"

text \<open>\<^verbatim>\<open>self.session.request(method, url, json=data)\<close> followed by
  \<^verbatim>\<open>await response.json()\<close>: the status and the decoded body, or the exception raised by
  either.\<close>

fun decoded :: "outcome \<Rightarrow> exn + nat \<times> json" where
  "decoded (Raises ex) = Inl ex"
| "decoded (Response st (Inl ex) txt) = Inl ex"
| "decoded (Response st (Inr response_data) txt) = Inr (st, response_data)"

definition request_json ::
  "env \<Rightarrow> request \<Rightarrow> server \<Rightarrow> (exn + nat \<times> json) \<times> server" where
  "request_json e rq s =
     (case session_request e ''request'' rq s of (out, s1) \<Rightarrow> (decoded out, s1))"

fun attempts :: "env \<Rightarrow> request \<Rightarrow> int \<Rightarrow> nat list \<Rightarrow> server \<Rightarrow> (exn + json) \<times> server" where
  "attempts e rq n [] s = (Inl (retries_exhausted n), s)"
| "attempts e rq n (attempt # rest) s =
     (case request_json e rq s of
        (Inr (st, response_data), s1) \<Rightarrow>
          if st = 200 \<or> st = 201 then (Inr response_data, s1)
          else if st = 401 then
            (Inl (Exception [JStr ''Authentication failed. Check your Cursor API key.'']), s1)
          else if st = 429 then
            attempts e rq n rest (s1\<lparr>sleeps := sleeps s1 @ [2 ^ attempt]\<rparr>)
          else
            (Inl (Exception [JStr ''API request failed: '', JInt (int st), JStr '' - '',
                             response_data]), s1)
      | (Inl ex, s1) \<Rightarrow>
          if is_client_error ex then
            if int attempt = n - 1 then
              (Inl (Exception ([JStr ''Network error after '', JInt n,
                                JStr '' attempts: ''] @ str_exn ex)), s1)
            else attempts e rq n rest (s1\<lparr>sleeps := sleeps s1 @ [2 ^ attempt]\<rparr>)
          else (Inl ex, s1))"

text \<open>\<^verbatim>\<open>_make_api_request\<close>.\<close>

definition api_request :: "server \<Rightarrow> string \<Rightarrow> pytext \<Rightarrow> json \<Rightarrow> request" where
  "api_request s meth endpoint data =
     \<lparr>http_method = meth, url = JStr (base_url (config s)) # endpoint, req_headers = [],
      json_body = data\<rparr>"

definition make_api_request ::
  "env \<Rightarrow> string \<Rightarrow> pytext \<Rightarrow> json \<Rightarrow> server \<Rightarrow> (exn + json) \<times> server" where
  "make_api_request e meth endpoint data s0 =
     (let s = ensure_session (s0\<lparr>api_calls := Suc (api_calls s0)\<rparr>);
          n = max_retries (config s)
      in attempts e (api_request s meth endpoint data) n [0 ..< nat n] s)"

section \<open>Operation handlers\<close>

text \<open>
  Each handler is a \<^verbatim>\<open>try\<close> block, written as a function that returns \<open>Inl\<close> the
  exception it raises or \<open>Inr\<close> its value, with the state reached either way, and the
  \<^verbatim>\<open>except Exception\<close> clause around it.
\<close>

subsection \<open>create and get-status\<close>

text \<open>
  The \<^verbatim>\<open>try\<close> block of \<^verbatim>\<open>_create_background_agent\<close>. The configuration class has no
  attribute \<^verbatim>\<open>webhook_url\<close>, so no webhook is added to the payload.
\<close>

definition create_try :: "env \<Rightarrow> (string \<times> json) list \<Rightarrow> server \<Rightarrow> (exn + envelope) \<times> server" where
  "create_try e args s =
     (case dict_item args ''prompt'' of
        Inl ex \<Rightarrow> (Inl ex, s)
      | Inr prompt_text \<Rightarrow>
     (case dict_item args ''repository_url'' of
        Inl ex \<Rightarrow> (Inl ex, s)
      | Inr repo_url \<Rightarrow>
     (let payload = JDict
            [(''prompt'', JDict [(''text'', prompt_text)]),
             (''source'', JDict [(''repository'', repo_url),
                                 (''ref'', dict_get args ''branch'' (JStr ''main''))]),
             (''model'', dict_get args ''model'' (JStr ''claude-3-5-sonnet'')),
             (''target'', JDict [(''autoCreatePr'', JBool True)])]
      in case make_api_request e ''POST'' [JStr ''/v0/agents''] payload s of
        (Inl ex, s1) \<Rightarrow> (Inl ex, s1)
      | (Inr response, s1) \<Rightarrow>
     (case response of
        JDict d \<Rightarrow>
          (case utcnow_ts e s1 of (t1, s2) \<Rightarrow>
           case utcnow_isoformat e s2 of (t2, s3) \<Rightarrow>
           let agent =
                 \<lparr>agent_id = dict_get d ''id'' (JStr (''agent-'' @ t1)),
                  status = dict_get d ''status'' (JStr ''CREATING''),
                  repository_url = repo_url,
                  prompt = prompt_text,
                  branch = dict_get args ''branch'' (JStr ''main''),
                  model = dict_get args ''model'' (JStr ''claude-3-5-sonnet''),
                  created_at = dict_get d ''createdAt'' (JStr t2),
                  updated_at = JNone,
                  progress = JNone\<rparr>
           in if hashable (agent_id agent) then
                (Inr [(''success'', Val (JBool True)),
                      (''agent_id'', Val (agent_id agent)),
                      (''status'', Val (status agent)),
                      (''repository_url'', Val (repository_url agent)),
                      (''branch'', Val (branch agent)),
                      (''model'', Val (model agent)),
                      (''created_at'', Val (created_at agent)),
                      (''message'', Txt
                         [JStr ''Background agent created successfully. Agent will work autonomously on '',
                          JStr [CHR 0x27], prompt_text, JStr [CHR 0x27]])],
                 s3\<lparr>agents := AList.update (key_of (agent_id agent)) agent (agents s3)\<rparr>)
              else (Inl (unhashable (agent_id agent)), s3))
      | _ \<Rightarrow> (Inl (no_attribute (type_name response) ''get''), s1)))))"

definition create_background_agent ::
  "env \<Rightarrow> (string \<times> json) list \<Rightarrow> server \<Rightarrow> envelope \<times> server" where
  "create_background_agent e args s =
     (case create_try e args s of
        (Inr result, s1) \<Rightarrow> (result, s1)
      | (Inl ex, s1) \<Rightarrow>
          ([(''success'', Val (JBool False)),
            (''error'', Txt (str_exn ex)),
            (''message'', Txt
               [JStr ''Failed to create background agent. Check your API key and repository access.''])],
           s1))"

text \<open>The \<^verbatim>\<open>try\<close> block of \<^verbatim>\<open>_get_agent_status\<close>.\<close>

definition get_status_try :: "env \<Rightarrow> (string \<times> json) list \<Rightarrow> server \<Rightarrow> (exn + envelope) \<times> server" where
  "get_status_try e args s =
     (case dict_item args ''agent_id'' of
        Inl ex \<Rightarrow> (Inl ex, s)
      | Inr aid \<Rightarrow>
     (case make_api_request e ''GET'' [JStr ''/v0/agents/'', aid] JNone s of
        (Inl ex, s1) \<Rightarrow> (Inl ex, s1)
      | (Inr response, s1) \<Rightarrow>
          if \<not> hashable aid then (Inl (unhashable aid), s1)
          else
     (case response of
        JDict d \<Rightarrow>
          (let s3 =
                 (case map_of (agents s1) (key_of aid) of
                    None \<Rightarrow> s1
                  | Some agent \<Rightarrow>
                      (case utcnow_isoformat e s1 of (t, s2) \<Rightarrow>
                         s2\<lparr>agents := AList.update (key_of aid)
                              (agent\<lparr>status := dict_get d ''status'' (status agent),
                                     progress := dict_get d ''progress'' (progress agent),
                                     updated_at := JStr t\<rparr>)
                              (agents s2)\<rparr>))
           in (Inr [(''success'', Val (JBool True)),
                    (''agent_id'', Val aid),
                    (''status'', Val (dict_get d ''status'' (JStr ''unknown''))),
                    (''progress'', Val (dict_get d ''progress'' (JDict []))),
                    (''repository_url'', Val (dict_get d ''repository_url'' JNone)),
                    (''branch'', Val (dict_get d ''branch'' JNone)),
                    (''created_at'', Val (dict_get d ''created_at'' JNone)),
                    (''updated_at'', Val (dict_get d ''updated_at'' JNone)),
                    (''logs'', Val (dict_get d ''logs'' (JList [])))],
               s3))
      | _ \<Rightarrow> (Inl (no_attribute (type_name response) ''get''), s1))))"

definition get_agent_status ::
  "env \<Rightarrow> (string \<times> json) list \<Rightarrow> server \<Rightarrow> envelope \<times> server" where
  "get_agent_status e args s =
     (case get_status_try e args s of
        (Inr result, s1) \<Rightarrow> (result, s1)
      | (Inl ex, s1) \<Rightarrow>
          ([(''success'', Val (JBool False)),
            (''error'', Txt (str_exn ex)),
            (''message'', Txt [JStr ''Failed to get status for agent '',
                               dict_get args ''agent_id'' JNone])],
           s1))"

subsection \<open>follow-up, stop and list-agents\<close>

text \<open>The \<^verbatim>\<open>try\<close> block of \<^verbatim>\<open>_add_followup_instruction\<close>.\<close>

definition followup_try ::
  "env \<Rightarrow> (string \<times> json) list \<Rightarrow> server \<Rightarrow> (exn + envelope) \<times> server" where
  "followup_try e args s =
     (case dict_item args ''agent_id'' of
        Inl ex \<Rightarrow> (Inl ex, s)
      | Inr aid \<Rightarrow>
     (case dict_item args ''instruction'' of
        Inl ex \<Rightarrow> (Inl ex, s)
      | Inr instruction \<Rightarrow>
     (case make_api_request e ''POST'' [JStr ''/v0/agents/'', aid, JStr ''/followup'']
             (JDict [(''instruction'', instruction)]) s of
        (Inl ex, s1) \<Rightarrow> (Inl ex, s1)
      | (Inr response, s1) \<Rightarrow>
     (case py_get response ''status'' (JStr ''updated'') of
        Inl ex \<Rightarrow> (Inl ex, s1)
      | Inr st \<Rightarrow>
          (Inr [(''success'', Val (JBool True)),
                (''agent_id'', Val aid),
                (''instruction_added'', Val instruction),
                (''status'', Val st),
                (''message'', Txt [JStr ''Follow-up instruction added successfully''])],
           s1)))))"

text \<open>\<^verbatim>\<open>_add_followup_instruction\<close>.\<close>

definition add_followup_instruction ::
  "env \<Rightarrow> (string \<times> json) list \<Rightarrow> server \<Rightarrow> envelope \<times> server" where
  "add_followup_instruction e args s =
     (case followup_try e args s of
        (Inr result, s1) \<Rightarrow> (result, s1)
      | (Inl ex, s1) \<Rightarrow>
          ([(''success'', Val (JBool False)),
            (''error'', Txt (str_exn ex)),
            (''message'', Txt [JStr ''Failed to add instruction to agent '',
                               dict_get args ''agent_id'' JNone])],
           s1))"

text \<open>The \<^verbatim>\<open>try\<close> block of \<^verbatim>\<open>_stop_background_agent\<close>: the record of the agent, when
  the registry has one, is marked as stopped.\<close>

definition stop_try ::
  "env \<Rightarrow> (string \<times> json) list \<Rightarrow> server \<Rightarrow> (exn + envelope) \<times> server" where
  "stop_try e args s =
     (case dict_item args ''agent_id'' of
        Inl ex \<Rightarrow> (Inl ex, s)
      | Inr aid \<Rightarrow>
     (case make_api_request e ''DELETE'' [JStr ''/v0/agents/'', aid] JNone s of
        (Inl ex, s1) \<Rightarrow> (Inl ex, s1)
      | (Inr response, s1) \<Rightarrow>
          if \<not> hashable aid then (Inl (unhashable aid), s1)
          else
            (let s3 =
                   (case map_of (agents s1) (key_of aid) of
                      None \<Rightarrow> s1
                    | Some agent \<Rightarrow>
                        (case utcnow_isoformat e s1 of (t, s2) \<Rightarrow>
                           s2\<lparr>agents := AList.update (key_of aid)
                                (agent\<lparr>status := JStr ''stopped'', updated_at := JStr t\<rparr>)
                                (agents s2)\<rparr>))
             in (Inr [(''success'', Val (JBool True)),
                      (''agent_id'', Val aid),
                      (''status'', Val (JStr ''stopped'')),
                      (''message'', Txt [JStr ''Background agent stopped successfully''])],
                 s3))))"

text \<open>\<^verbatim>\<open>_stop_background_agent\<close>.\<close>

definition stop_background_agent ::
  "env \<Rightarrow> (string \<times> json) list \<Rightarrow> server \<Rightarrow> envelope \<times> server" where
  "stop_background_agent e args s =
     (case stop_try e args s of
        (Inr result, s1) \<Rightarrow> (result, s1)
      | (Inl ex, s1) \<Rightarrow>
          ([(''success'', Val (JBool False)),
            (''error'', Txt (str_exn ex)),
            (''message'', Txt [JStr ''Failed to stop agent '',
                               dict_get args ''agent_id'' JNone])],
           s1))"

text \<open>
  The endpoint of \<^verbatim>\<open>_list_background_agents\<close>: \<^verbatim>\<open>limit\<close> and \<^verbatim>\<open>cursor\<close> go into the
  query string when they are truthy, joined by \<^verbatim>\<open>&\<close>. The dictionary \<^verbatim>\<open>params\<close> that the
  handler fills from the two filters is never read.
\<close>

fun join_amp :: "pytext list \<Rightarrow> pytext" where
  "join_amp [] = []"
| "join_amp [p] = p"
| "join_amp (p # q # ps) = p @ [JStr ''&''] @ join_amp (q # ps)"

definition agents_endpoint :: "(string \<times> json) list \<Rightarrow> pytext" where
  "agents_endpoint args =
     (let query_params =
            (if truthy (dict_get args ''limit'' JNone)
             then [[JStr ''limit='', dict_get args ''limit'' JNone]] else [])
            @ (if truthy (dict_get args ''cursor'' JNone)
               then [[JStr ''cursor='', dict_get args ''cursor'' JNone]] else [])
      in if query_params \<noteq> [] then JStr ''/v0/agents?'' # join_amp query_params
         else [JStr ''/v0/agents''])"

text \<open>What \<^verbatim>\<open>for x in v\<close> runs over: the elements of a list, the keys of a dictionary,
  the characters of a string; nothing else can be iterated.\<close>

fun py_iter :: "json \<Rightarrow> exn + json list" where
  "py_iter (JList vs) = Inr vs"
| "py_iter (JDict d) = Inr (map (\<lambda>kv. JStr (fst kv)) d)"
| "py_iter (JStr s) = Inr (map (\<lambda>c. JStr [c]) s)"
| "py_iter v = Inl (TypeError [JStr (sq (type_name v) @ '' object is not iterable'')])"

text \<open>
  The loop \<^verbatim>\<open>for agent_data in agents\<close> of \<^verbatim>\<open>_list_background_agents\<close>, over the items
  still to visit: an item with a truthy \<^verbatim>\<open>agent_id\<close> updates the record of that agent or
  adds one. The value is the exception that ended the loop, if any; the records written
  before it stay written.
\<close>

fun sync_agents :: "env \<Rightarrow> json list \<Rightarrow> server \<Rightarrow> exn option \<times> server" where
  "sync_agents e [] s = (None, s)"
| "sync_agents e (JDict d # rest) s =
     (let aid = dict_get d ''agent_id'' JNone in
      if \<not> truthy aid then sync_agents e rest s
      else if \<not> hashable aid then (Some (unhashable aid), s)
      else
        (case map_of (agents s) (key_of aid) of
           Some agent \<Rightarrow>
             (case utcnow_isoformat e s of (t, s1) \<Rightarrow>
                sync_agents e rest
                  (s1\<lparr>agents := AList.update (key_of aid)
                        (agent\<lparr>status := dict_get d ''status'' (status agent),
                               updated_at := JStr t\<rparr>)
                        (agents s1)\<rparr>))
         | None \<Rightarrow>
             sync_agents e rest
               (s\<lparr>agents := AList.update (key_of aid)
                     \<lparr>agent_id = aid,
                      status = dict_get d ''status'' (JStr ''unknown''),
                      repository_url = dict_get d ''repository_url'' (JStr []),
                      prompt = dict_get d ''prompt'' (JStr []),
                      branch = dict_get d ''branch'' JNone,
                      model = dict_get d ''model'' JNone,
                      created_at = dict_get d ''created_at'' JNone,
                      updated_at = JNone,
                      progress = JNone\<rparr>
                     (agents s)\<rparr>)))"
| "sync_agents e (v # rest) s = (Some (no_attribute (type_name v) ''get''), s)"

text \<open>The \<^verbatim>\<open>try\<close> block of \<^verbatim>\<open>_list_background_agents\<close>.\<close>

definition list_agents_try ::
  "env \<Rightarrow> (string \<times> json) list \<Rightarrow> server \<Rightarrow> (exn + envelope) \<times> server" where
  "list_agents_try e args s =
     (case make_api_request e ''GET'' (agents_endpoint args) JNone s of
        (Inl ex, s1) \<Rightarrow> (Inl ex, s1)
      | (Inr response, s1) \<Rightarrow>
     (case py_get response ''agents'' (JList []) of
        Inl ex \<Rightarrow> (Inl ex, s1)
      | Inr agent_list \<Rightarrow>
     (case py_iter agent_list of
        Inl ex \<Rightarrow> (Inl ex, s1)
      | Inr items \<Rightarrow>
     (case sync_agents e items s1 of
        (Some ex, s2) \<Rightarrow> (Inl ex, s2)
      | (None, s2) \<Rightarrow>
     (case py_len agent_list of
        Inl ex \<Rightarrow> (Inl ex, s2)
      | Inr n \<Rightarrow>
          (Inr [(''success'', Val (JBool True)),
                (''total_agents'', Val (JInt (int n))),
                (''agents'', Val agent_list),
                (''filters_applied'', Val (JDict
                   [(''status'', dict_get args ''status_filter'' JNone),
                    (''repository'', dict_get args ''repository_filter'' JNone)]))],
           s2))))))"

text \<open>\<^verbatim>\<open>_list_background_agents\<close>.\<close>

definition list_background_agents ::
  "env \<Rightarrow> (string \<times> json) list \<Rightarrow> server \<Rightarrow> envelope \<times> server" where
  "list_background_agents e args s =
     (case list_agents_try e args s of
        (Inr result, s1) \<Rightarrow> (result, s1)
      | (Inl ex, s1) \<Rightarrow>
          ([(''success'', Val (JBool False)),
            (''error'', Txt (str_exn ex)),
            (''message'', Txt [JStr ''Failed to list background agents''])],
           s1))"

subsection \<open>usage\<close>

definition usage_try :: "env \<Rightarrow> server \<Rightarrow> (exn + envelope) \<times> server" where
  "usage_try e s =
     (case make_api_request e ''GET'' [JStr ''/v0/api-key-info''] JNone s of
        (Inl ex, s1) \<Rightarrow> (Inl ex, s1)
      | (Inr response, s1) \<Rightarrow>
     (case response of
        JDict d \<Rightarrow>
          (Inr [(''success'', Val (JBool True)),
                (''usage'', Val (dict_get d ''usage'' (JDict []))),
                (''limits'', Val (dict_get d ''limits'' (JDict []))),
                (''billing_period'', Val (dict_get d ''billing_period'' (JDict []))),
                (''remaining_quota'', Val (dict_get d ''remaining_quota'' (JDict []))),
                (''reset_date'', Val (dict_get d ''reset_date'' JNone))],
           s1)
      | _ \<Rightarrow> (Inl (no_attribute (type_name response) ''get''), s1)))"

text \<open>\<^verbatim>\<open>_get_api_usage\<close>: on failure the usage is counted from the local registry.\<close>

definition get_api_usage :: "env \<Rightarrow> server \<Rightarrow> envelope \<times> server" where
  "get_api_usage e s =
     (case usage_try e s of
        (Inr result, s1) \<Rightarrow> (result, s1)
      | (Inl ex, s1) \<Rightarrow>
          ([(''success'', Val (JBool False)),
            (''error'', Txt (str_exn ex)),
            (''message'', Txt [JStr ''Failed to get API usage information'']),
            (''usage'', Val (JDict
               [(''active_agents'',
                 JInt (int (length (filter (\<lambda>a. status a = JStr ''running'')
                                      (map snd (agents s1)))))),
                (''total_agents_created'', JInt (int (length (agents s1))))]))],
           s1))"

subsection \<open>list-models and list-repositories\<close>

text \<open>The dictionary that \<^verbatim>\<open>_list_available_models\<close> builds from a response.\<close>

definition models_result :: "json \<Rightarrow> exn + envelope" where
  "models_result response =
     (case py_get response ''models'' (JList []) of
        Inl ex \<Rightarrow> Inl ex
      | Inr models \<Rightarrow>
     (case py_len models of
        Inl ex \<Rightarrow> Inl ex
      | Inr n \<Rightarrow>
     (case (if truthy models then py_first models else Inr JNone) of
        Inl ex \<Rightarrow> Inl ex
      | Inr recommended \<Rightarrow>
          Inr [(''success'', Val (JBool True)),
               (''models'', Val models),
               (''total_models'', Val (JInt (int n))),
               (''recommended'', Val recommended),
               (''message'', Txt [JStr ''Retrieved '', JInt (int n),
                                  JStr '' available models''])])))"

text \<open>The \<^verbatim>\<open>try\<close> block of \<^verbatim>\<open>_list_available_models\<close>.\<close>

definition models_try :: "env \<Rightarrow> server \<Rightarrow> (exn + envelope) \<times> server" where
  "models_try e s =
     (case make_api_request e ''GET'' [JStr ''/v0/models''] JNone s of
        (Inl ex, s1) \<Rightarrow> (Inl ex, s1)
      | (Inr response, s1) \<Rightarrow>
     (case models_result response of
        Inl ex \<Rightarrow> (Inl ex, s1)
      | Inr result \<Rightarrow>
          (case time_time e (s1\<lparr>models_cache := Some result\<rparr>) of (now, s2) \<Rightarrow>
             (Inr result, s2\<lparr>models_cache_timestamp := Some now\<rparr>))))"

definition models_fallback :: "exn \<Rightarrow> envelope" where
  "models_fallback ex =
     [(''success'', Val (JBool False)),
      (''error'', Txt (str_exn ex)),
      (''message'', Txt [JStr ''Failed to get available models'']),
      (''models'', Val (JList [JStr ''claude-4-sonnet-thinking'', JStr ''o3'',
                               JStr ''claude-4-opus-thinking'']))]"

text \<open>\<^verbatim>\<open>_list_available_models\<close>.\<close>

definition list_available_models :: "env \<Rightarrow> bool \<Rightarrow> server \<Rightarrow> envelope \<times> server" where
  "list_available_models e force_refresh s =
     (case cache_check e force_refresh (models_cache_timestamp s)
             (truthy_cache (models_cache s)) s of
        (Some cached, s1) \<Rightarrow> (cached, s1)
      | (None, s1) \<Rightarrow>
     (case models_try e s1 of
        (Inr result, s2) \<Rightarrow> (result, s2)
      | (Inl ex, s2) \<Rightarrow>
          (case truthy_cache (models_cache s2) of
             Some cached \<Rightarrow> (cached, s2)
           | None \<Rightarrow> (models_fallback ex, s2))))"

text \<open>The dictionary that \<^verbatim>\<open>_list_repositories\<close> builds from a response.\<close>

definition repositories_result :: "json \<Rightarrow> exn + envelope" where
  "repositories_result response =
     (case py_get response ''repositories'' (JList []) of
        Inl ex \<Rightarrow> Inl ex
      | Inr repositories \<Rightarrow>
     (case py_len repositories of
        Inl ex \<Rightarrow> Inl ex
      | Inr n \<Rightarrow>
          Inr [(''success'', Val (JBool True)),
               (''repositories'', Val repositories),
               (''total_repositories'', Val (JInt (int n))),
               (''message'', Txt [JStr ''Retrieved '', JInt (int n),
                                  JStr '' accessible repositories''])]))"

definition repositories_try :: "env \<Rightarrow> server \<Rightarrow> (exn + envelope) \<times> server" where
  "repositories_try e s =
     (case make_api_request e ''GET'' [JStr ''/v0/repositories''] JNone s of
        (Inl ex, s1) \<Rightarrow> (Inl ex, s1)
      | (Inr response, s1) \<Rightarrow>
     (case repositories_result response of
        Inl ex \<Rightarrow> (Inl ex, s1)
      | Inr result \<Rightarrow>
          (case time_time e (s1\<lparr>repositories_cache := Some result\<rparr>) of (now, s2) \<Rightarrow>
             (Inr result, s2\<lparr>repositories_cache_timestamp := Some now\<rparr>))))"

definition repositories_fallback :: "exn \<Rightarrow> envelope" where
  "repositories_fallback ex =
     [(''success'', Val (JBool False)),
      (''error'', Txt (str_exn ex)),
      (''message'', Txt [JStr ''Failed to get accessible repositories'']),
      (''repositories'', Val (JList []))]"

text \<open>\<^verbatim>\<open>_list_repositories\<close>.\<close>

definition list_repositories :: "env \<Rightarrow> bool \<Rightarrow> server \<Rightarrow> envelope \<times> server" where
  "list_repositories e force_refresh s =
     (case cache_check e force_refresh (repositories_cache_timestamp s)
             (truthy_cache (repositories_cache s)) s of
        (Some cached, s1) \<Rightarrow> (cached, s1)
      | (None, s1) \<Rightarrow>
     (case repositories_try e s1 of
        (Inr result, s2) \<Rightarrow> (result, s2)
      | (Inl ex, s2) \<Rightarrow>
          (case truthy_cache (repositories_cache s2) of
             Some cached \<Rightarrow> (cached, s2)
           | None \<Rightarrow> (repositories_fallback ex, s2))))"

subsection \<open>list-branches\<close>

text \<open>The request \<^verbatim>\<open>_list_repository_branches\<close> sends to the GitHub API; the token of
  the environment is added when it is set and not empty.\<close>

definition github_request :: "env \<Rightarrow> string \<Rightarrow> string \<Rightarrow> request" where
  "github_request e owner repo =
     \<lparr>http_method = ''GET'',
      url = [JStr (''https://api.github.com/repos/'' @ owner @ ''/'' @ repo @ ''/branches'')],
      req_headers =
        [(''Accept'', ''application/vnd.github.v3+json''), (''User-Agent'', ''Cursor-MCP-Server'')]
        @ (case github_token e of
             None \<Rightarrow> []
           | Some tok \<Rightarrow> if tok \<noteq> [] then [(''Authorization'', ''token '' @ tok)] else []),
      json_body = JNone\<rparr>"

text \<open>
  The \<^verbatim>\<open>try\<close> block of \<^verbatim>\<open>_list_repository_branches\<close>. The body of a response is
  decoded only under status 200, and an exception of the request or of the decoding
  leaves the block.
\<close>

definition branches_try ::
  "env \<Rightarrow> string \<Rightarrow> bool \<Rightarrow> server \<Rightarrow> (exn + envelope) \<times> server" where
  "branches_try e repo_url force_refresh s =
     (case extract_repo_info repo_url of
        Inl ex \<Rightarrow> (Inl ex, s)
      | Inr (owner, repo) \<Rightarrow>
     (let cache_key = owner @ ''/'' @ repo in
      case cache_check e force_refresh (branches_cache_timestamp s cache_key)
             (branches_cache s cache_key) s of
        (Some cached, s1) \<Rightarrow> (Inr cached, s1)
      | (None, s1) \<Rightarrow>
     (case session_request e ''get'' (github_request e owner repo) s1 of
        (Raises ex, s2) \<Rightarrow> (Inl ex, s2)
      | (Response st body error_text, s2) \<Rightarrow>
          if st = 200 then
            (case body of
               Inl ex \<Rightarrow> (Inl ex, s2)
             | Inr branches_data \<Rightarrow>
            (case branch_names branches_data of
               Inl ex \<Rightarrow> (Inl ex, s2)
             | Inr branches \<Rightarrow>
                 (let result =
                        [(''success'', Val (JBool True)),
                         (''repository'', Val (JStr repo_url)),
                         (''owner'', Val (JStr owner)),
                         (''repo'', Val (JStr repo)),
                         (''branches'', Val (JList branches)),
                         (''total_branches'', Val (JInt (int (length branches)))),
                         (''message'', Txt [JStr ''Retrieved '', JInt (int (length branches)),
                                            JStr ('' branches for '' @ owner @ ''/'' @ repo)])]
                  in case time_time e
                            (s2\<lparr>branches_cache := (branches_cache s2)(cache_key \<mapsto> result)\<rparr>) of
                       (now, s3) \<Rightarrow>
                         (Inr result,
                          s3\<lparr>branches_cache_timestamp :=
                               (branches_cache_timestamp s3)(cache_key \<mapsto> now)\<rparr>))))
          else if st = 404 then
            (Inr [(''success'', Val (JBool False)),
                  (''error'', Txt [JStr ''Repository not found or not accessible'']),
                  (''repository'', Val (JStr repo_url)),
                  (''branches'', Val (JList [JStr ''main'', JStr ''master'', JStr ''develop''])),
                  (''message'', Txt
                     [JStr (''Repository '' @ owner @ ''/'' @ repo
                            @ '' not found or not accessible. Using common branch names.'')])],
             s2)
          else if st = 401 then
            (Inr [(''success'', Val (JBool False)),
                  (''error'', Txt [JStr ''Authentication required for private repository'']),
                  (''repository'', Val (JStr repo_url)),
                  (''branches'', Val (JList [JStr ''main'', JStr ''master'', JStr ''develop'',
                                             JStr ''feature/new-feature''])),
                  (''message'', Txt
                     [JStr (''Private repository '' @ owner @ ''/'' @ repo
                            @ '' requires GitHub token. Using common branch names.'')])],
             s2)
          else
            (Inr [(''success'', Val (JBool False)),
                  (''error'', Txt [JStr ''GitHub API error: '', JInt (int st)]),
                  (''repository'', Val (JStr repo_url)),
                  (''branches'', Val (JList [JStr ''main'', JStr ''master'', JStr ''develop'',
                                             JStr ''feature/new-feature''])),
                  (''message'', Txt
                     [JStr (''Failed to fetch branches: '' @ error_text
                            @ ''. Using common branch names.'')])],
             s2))))"

definition branches_fallback :: "string \<Rightarrow> exn \<Rightarrow> envelope" where
  "branches_fallback repo_url ex =
     [(''success'', Val (JBool False)),
      (''error'', Txt (str_exn ex)),
      (''repository'', Val (JStr repo_url)),
      (''branches'', Val (JList [JStr ''main'', JStr ''master'', JStr ''develop''])),
      (''message'', Txt (JStr ''Failed to fetch branches: '' # str_exn ex))]"

text \<open>
  \<^verbatim>\<open>_list_repository_branches\<close>. Its \<^verbatim>\<open>except\<close> clause parses the URL again and
  serves the entry of the cache when there is one, whatever its age.
\<close>

definition list_repository_branches ::
  "env \<Rightarrow> string \<Rightarrow> bool \<Rightarrow> server \<Rightarrow> envelope \<times> server" where
  "list_repository_branches e repo_url force_refresh s =
     (case branches_try e repo_url force_refresh s of
        (Inr result, s1) \<Rightarrow> (result, s1)
      | (Inl ex, s1) \<Rightarrow>
          (case (case extract_repo_info repo_url of
                   Inl ex2 \<Rightarrow> None
                 | Inr (owner, repo) \<Rightarrow> branches_cache s1 (owner @ ''/'' @ repo)) of
             Some cached \<Rightarrow> (cached, s1)
           | None \<Rightarrow> (branches_fallback repo_url ex, s1)))"

section \<open>Operations and the cache invariant\<close>

text \<open>The value under \<^verbatim>\<open>"success"\<close> of an envelope is \<^verbatim>\<open>True\<close>; it is \<^verbatim>\<open>False\<close>.\<close>

definition is_success :: "envelope \<Rightarrow> bool" where
  "is_success r = (map_of r ''success'' = Some (Val (JBool True)))"

definition is_failure :: "envelope \<Rightarrow> bool" where
  "is_failure r = (map_of r ''success'' = Some (Val (JBool False)))"

text \<open>Every dictionary held in a cache slot is a success envelope.\<close>

definition cache_inv :: "server \<Rightarrow> bool" where
  "cache_inv s =
     ((case models_cache s of None \<Rightarrow> True | Some r \<Rightarrow> is_success r) \<and>
      (case repositories_cache s of None \<Rightarrow> True | Some r \<Rightarrow> is_success r) \<and>
      (\<forall>r \<in> ran (branches_cache s). is_success r))"

text \<open>
  The operations of the server: its nine tool handlers, \<^verbatim>\<open>clear_cache\<close>, \<^verbatim>\<open>initialize\<close>
  and \<^verbatim>\<open>cleanup\<close>; and the state after one of them and after a sequence of them. The
  resource and prompt handlers write no attribute of the server; the one of them that
  sends a request, the resource \<^verbatim>\<open>usage-metrics\<close>, does it by calling \<^verbatim>\<open>_get_api_usage\<close>.
\<close>

datatype operation =
    Create "(string \<times> json) list"
  | GetStatus "(string \<times> json) list"
  | AddFollowup "(string \<times> json) list"
  | StopAgent "(string \<times> json) list"
  | ListAgents "(string \<times> json) list"
  | GetUsage
  | ListModels bool
  | ListRepositories bool
  | ListBranches string bool
  | ClearCache
  | Initialize
  | Cleanup

fun step :: "env \<Rightarrow> server \<Rightarrow> operation \<Rightarrow> server" where
  "step e s (Create args) = snd (create_background_agent e args s)"
| "step e s (GetStatus args) = snd (get_agent_status e args s)"
| "step e s (AddFollowup args) = snd (add_followup_instruction e args s)"
| "step e s (StopAgent args) = snd (stop_background_agent e args s)"
| "step e s (ListAgents args) = snd (list_background_agents e args s)"
| "step e s GetUsage = snd (get_api_usage e s)"
| "step e s (ListModels force_refresh) = snd (list_available_models e force_refresh s)"
| "step e s (ListRepositories force_refresh) = snd (list_repositories e force_refresh s)"
| "step e s (ListBranches repo_url force_refresh) =
     snd (list_repository_branches e repo_url force_refresh s)"
| "step e s ClearCache = clear_cache s"
| "step e s Initialize = initialize s"
| "step e s Cleanup = cleanup s"

definition run :: "env \<Rightarrow> operation list \<Rightarrow> server \<Rightarrow> server" where
  "run e ops s = foldl (step e) s ops"

section \<open>A scripted world\<close>

text \<open>
  A world for concrete runs: the requests are answered from a list, in order, and by
  \<open>final\<close> once the list is used up; the clock is given.
\<close>

definition scripted :: "outcome list \<Rightarrow> outcome \<Rightarrow> (nat \<Rightarrow> real) \<Rightarrow> env" where
  "scripted rs final ck =
     \<lparr>transport = (\<lambda>i rq. if i < length rs then rs ! i else final),
      clock = ck,
      utcnow_iso = (\<lambda>i. ''2024-01-01T00:00:00''),
      utcnow_timestamp = (\<lambda>i. ''1704067200.0''),
      github_token = None\<rparr>"

definition demo_server :: server where
  "demo_server = initialize (init (default_config ''key''))"

definition demo_world :: env where
  "demo_world =
     scripted
       [Response 200 (Inr (JDict [(''models'', JList [JStr ''o3''])])) [],
        Response 200 (Inr (JDict [(''repositories'', JList [])])) [],
        Response 200 (Inr (JList [JDict [(''name'', JStr ''main'')]])) []]
       (Raises (ClientError [JStr ''connection reset'']))
       (\<lambda>i. if i < 3 then 1000 else 1100)"

text \<open>A run of the three caching handlers in the scripted world, from a server whose
  session is open.\<close>

definition demo_models :: envelope where
  "demo_models =
     [(''success'', Val (JBool True)), (''models'', Val (JList [JStr ''o3''])),
      (''total_models'', Val (JInt 1)), (''recommended'', Val (JStr ''o3'')),
      (''message'', Txt [JStr ''Retrieved '', JInt 1, JStr '' available models''])]"

definition demo_repositories :: envelope where
  "demo_repositories =
     [(''success'', Val (JBool True)), (''repositories'', Val (JList [])),
      (''total_repositories'', Val (JInt 0)),
      (''message'', Txt [JStr ''Retrieved '', JInt 0, JStr '' accessible repositories''])]"

definition demo_branches :: envelope where
  "demo_branches =
     [(''success'', Val (JBool True)),
      (''repository'', Val (JStr ''https://github.com/acme/widgets'')),
      (''owner'', Val (JStr ''acme'')), (''repo'', Val (JStr ''widgets'')),
      (''branches'', Val (JList [JStr ''main''])), (''total_branches'', Val (JInt 1)),
      (''message'', Txt [JStr ''Retrieved '', JInt 1, JStr '' branches for acme/widgets''])]"

definition demo_after_models :: server where
  "demo_after_models = snd (list_available_models demo_world False demo_server)"

definition demo_after_repositories :: server where
  "demo_after_repositories = snd (list_repositories demo_world False demo_after_models)"

definition demo_after_branches :: server where
  "demo_after_branches =
     snd (list_repository_branches demo_world ''https://github.com/acme/widgets'' False
            demo_after_repositories)"

text \<open>A run of create and get-status in a scripted world.\<close>

definition demo_agent_world :: env where
  "demo_agent_world =
     scripted
       [Response 200 (Inr (JDict [(''id'', JStr ''a1''), (''status'', JStr ''CREATING'')])) [],
        Response 200 (Inr (JDict [(''status'', JStr ''running''),
                                  (''progress'', JDict [(''step'', JInt 1)])])) []]
       (Raises (ClientError [JStr ''connection reset'']))
       (\<lambda>i. 0)"

definition demo_create_args :: "(string \<times> json) list" where
  "demo_create_args =
     [(''repository_url'', JStr ''https://github.com/acme/widgets''),
      (''prompt'', JStr ''Fix the bug'')]"

definition demo_agent :: background_agent where
  "demo_agent =
     \<lparr>agent_id = JStr ''a1'', status = JStr ''CREATING'',
      repository_url = JStr ''https://github.com/acme/widgets'', prompt = JStr ''Fix the bug'',
      branch = JStr ''main'', model = JStr ''claude-3-5-sonnet'',
      created_at = JStr ''2024-01-01T00:00:00'', updated_at = JNone, progress = JNone\<rparr>"

definition demo_after_create :: server where
  "demo_after_create = snd (create_background_agent demo_agent_world demo_create_args demo_server)"

section \<open>Properties of the repository URL parser\<close>

lemma delete_occ_absent: "\<not> contains s pat \<Longrightarrow> delete_occ pat 0 s = s"
  by (induction s) auto

lemma contains_single: "contains s [c] = (c \<in> set s)"
  by (induction s) auto

lemma rstrip_slash_tail:
  assumes "rest \<noteq> []" and "last rest \<noteq> CHR ''/''"
  shows "rstrip_slash (xs @ rest @ replicate k (CHR ''/'')) = xs @ rest"
proof -
  obtain c cs where r: "rev rest = c # cs" and c: "c \<noteq> CHR ''/''"
    using assms by (cases "rev rest") (auto simp: last_rev[symmetric] hd_rev)
  have "dropWhile (\<lambda>c. c = CHR ''/'') (replicate k (CHR ''/'') @ rev rest @ rev xs)
        = dropWhile (\<lambda>c. c = CHR ''/'') (rev rest @ rev xs)"
    by (rule dropWhile_append2) simp
  also have "\<dots> = rev rest @ rev xs"
    using r c by simp
  finally show ?thesis
    by (simp add: rstrip_slash_def)
qed

lemma split_first_slash_owner:
  "CHR ''/'' \<notin> set owner \<Longrightarrow> split_first_slash (owner @ ''/'' @ rest) = (owner, rest)"
  by (induction owner) (auto simp: split_first_slash_def)

lemma split_first_slash_parts:
  assumes "contains parts ''/''" and "split_first_slash parts = (owner, repo)"
  shows "parts = owner @ ''/'' @ repo \<and> CHR ''/'' \<notin> set owner"
proof -
  let ?P = "\<lambda>c. c \<noteq> CHR ''/''"
  have mem: "CHR ''/'' \<in> set parts"
    using assms(1) by (simp add: contains_single)
  then have "dropWhile ?P parts \<noteq> []"
    by (auto simp: dropWhile_eq_Nil_conv)
  then obtain d ds where d: "dropWhile ?P parts = d # ds"
    by (cases "dropWhile ?P parts") auto
  have "\<not> ?P (hd (dropWhile ?P parts))"
    using \<open>dropWhile ?P parts \<noteq> []\<close> by (rule hd_dropWhile)
  then have dslash: "d = CHR ''/''"
    using d by simp
  have own: "owner = takeWhile ?P parts" and rep: "repo = ds"
    using assms(2) d by (simp_all add: split_first_slash_def)
  have "parts = takeWhile ?P parts @ dropWhile ?P parts"
    by simp
  then have "parts = owner @ ''/'' @ repo"
    using own rep d dslash by simp
  moreover have "CHR ''/'' \<notin> set owner"
    using own by (auto dest: set_takeWhileD)
  ultimately show ?thesis by simp
qed

lemma strip_https:
  "\<not> contains s ''https://github.com/'' \<Longrightarrow>
   replace_empty (''https://github.com/'' @ s) ''https://github.com/'' = s"
  by (simp add: replace_empty_def delete_occ_absent)

lemma strip_http:
  "\<not> contains s ''http://github.com/'' \<Longrightarrow>
   replace_empty (''http://github.com/'' @ s) ''http://github.com/'' = s"
  by (simp add: replace_empty_def delete_occ_absent)

lemma keep_http:
  "\<not> contains s ''https://github.com/'' \<Longrightarrow>
   replace_empty (''http://github.com/'' @ s) ''https://github.com/'' = ''http://github.com/'' @ s"
  by (simp add: replace_empty_def delete_occ_absent)

lemma extract_wellformed:
  assumes "CHR ''/'' \<notin> set owner" and "rest \<noteq> []" and "last rest \<noteq> CHR ''/''"
    and "\<not> contains (owner @ ''/'' @ rest @ replicate k (CHR ''/'')) ''https://github.com/''"
    and "\<not> contains (owner @ ''/'' @ rest @ replicate k (CHR ''/'')) ''http://github.com/''"
  shows "extract_repo_info (''https://github.com/'' @ owner @ ''/'' @ rest @ replicate k (CHR ''/''))
           = Inr (owner, rest)"
    and "extract_repo_info (''http://github.com/'' @ owner @ ''/'' @ rest @ replicate k (CHR ''/''))
           = Inr (owner, rest)"
proof -
  let ?s = "owner @ ''/'' @ rest @ replicate k (CHR ''/'')"
  have strip: "rstrip_slash ?s = owner @ ''/'' @ rest"
    using rstrip_slash_tail[OF assms(2,3), of "owner @ ''/''" k] by simp
  have c1: "contains (''https://github.com/'' @ ?s) ''github.com''" by simp
  have c2: "contains (''http://github.com/'' @ ?s) ''github.com''" by simp
  have r1: "replace_empty (replace_empty (''https://github.com/'' @ ?s) ''https://github.com/'')
              ''http://github.com/'' = ?s"
  proof -
    have "replace_empty (''https://github.com/'' @ ?s) ''https://github.com/'' = ?s"
      using assms(4) by (rule strip_https)
    moreover have "replace_empty ?s ''http://github.com/'' = ?s"
      using assms(5) by (simp add: replace_empty_def delete_occ_absent)
    ultimately show ?thesis by (simp only:)
  qed
  have r2: "replace_empty (replace_empty (''http://github.com/'' @ ?s) ''https://github.com/'')
              ''http://github.com/'' = ?s"
  proof -
    have "replace_empty (''http://github.com/'' @ ?s) ''https://github.com/''
            = ''http://github.com/'' @ ?s"
      using assms(4) by (rule keep_http)
    moreover have "replace_empty (''http://github.com/'' @ ?s) ''http://github.com/'' = ?s"
      using assms(5) by (rule strip_http)
    ultimately show ?thesis by (simp only:)
  qed
  have sl: "contains (owner @ ''/'' @ rest) ''/''"
    by (simp add: contains_single)
  show "extract_repo_info (''https://github.com/'' @ ?s) = Inr (owner, rest)"
    unfolding extract_repo_info_def Let_def
    using c1 r1 strip sl split_first_slash_owner[OF assms(1)] by (simp only: if_True)
  show "extract_repo_info (''http://github.com/'' @ ?s) = Inr (owner, rest)"
    unfolding extract_repo_info_def Let_def
    using c2 r2 strip sl split_first_slash_owner[OF assms(1)] by (simp only: if_True)
qed

lemma extract_failure:
  "extract_repo_info u = Inl ex \<Longrightarrow> ex = ValueError [JStr (''Invalid repository URL: '' @ u)]"
  by (auto simp: extract_repo_info_def Let_def split: if_splits)

lemma extract_success:
  assumes "extract_repo_info u = Inr (owner, repo)"
  shows "contains u ''github.com'' \<and> CHR ''/'' \<notin> set owner \<and>
         rstrip_slash (replace_empty (replace_empty u ''https://github.com/'')
                         ''http://github.com/'') = owner @ ''/'' @ repo"
proof -
  let ?parts = "rstrip_slash (replace_empty (replace_empty u ''https://github.com/'')
                                ''http://github.com/'')"
  from assms have g: "contains u ''github.com''" and sl: "contains ?parts ''/''"
    and sp: "split_first_slash ?parts = (owner, repo)"
    by (auto simp: extract_repo_info_def Let_def split: if_splits)
  from split_first_slash_parts[OF sl sp] g show ?thesis by simp
qed

lemma contains_iff: "contains s pat = (\<exists>a b. s = a @ pat @ b)"
proof (induction s)
  case Nil
  show ?case by auto
next
  case (Cons c cs)
  show ?case
  proof
    assume "contains (c # cs) pat"
    then consider "prefix pat (c # cs)" | "contains cs pat" by auto
    then show "\<exists>a b. c # cs = a @ pat @ b"
    proof cases
      case 1
      then obtain b where "c # cs = pat @ b" by (auto simp: prefix_def)
      then have "c # cs = [] @ pat @ b" by simp
      then show ?thesis by blast
    next
      case 2
      then obtain a b where "cs = a @ pat @ b" using Cons.IH by auto
      then have "c # cs = (c # a) @ pat @ b" by simp
      then show ?thesis by blast
    qed
  next
    assume "\<exists>a b. c # cs = a @ pat @ b"
    then obtain a b where ab: "c # cs = a @ pat @ b" by blast
    show "contains (c # cs) pat"
    proof (cases a)
      case Nil
      then have "prefix pat (c # cs)" using ab by (simp add: prefix_def)
      then show ?thesis by simp
    next
      case (Cons d ds)
      then have "cs = ds @ pat @ b" using ab by simp
      then have "contains cs pat" using Cons.IH by blast
      then show ?thesis by simp
    qed
  qed
qed

lemma delete_occ_skip: "delete_occ pat (length xs) (xs @ ys) = delete_occ pat 0 ys"
  by (induction xs) auto

lemma prefix_of_long_part:
  assumes "prefix p (v @ w)" and "length p \<le> length v"
  shows "prefix p v"
proof -
  from assms(1) obtain r where r: "v @ w = p @ r" by (auto simp: prefix_def)
  have "p = take (length p) (p @ r)" by simp
  also have "\<dots> = take (length p) (v @ w)" using r by simp
  also have "\<dots> = take (length p) v" using assms(2) by simp
  finally have "p = take (length p) v" .
  then show ?thesis by (metis take_is_prefix)
qed

text \<open>\<^verbatim>\<open>s.replace(pat, "")\<close> at the leftmost occurrence of \<open>pat\<close>: the text before it is
  kept, the occurrence is dropped, and the replacement goes on behind it.\<close>

lemma replace_empty_first:
  assumes "pat \<noteq> []" and "\<not> contains (a @ butlast pat) pat"
  shows "replace_empty (a @ pat @ b) pat = a @ replace_empty b pat"
  using assms(2)
proof (induction a)
  case Nil
  obtain p ps where pat: "pat = p # ps"
    using assms(1) by (cases pat) auto
  have "delete_occ pat 0 (pat @ b) = delete_occ pat (length ps) (ps @ b)"
    by (simp add: pat)
  also have "\<dots> = delete_occ pat 0 b"
    by (rule delete_occ_skip)
  finally show ?case by (simp add: replace_empty_def)
next
  case (Cons c a)
  have split: "c # a @ pat @ b = (c # a @ butlast pat) @ (last pat # b)"
    using assms(1) by (simp add: append_butlast_last_id[symmetric] del: append_butlast_last_id)
  have np: "\<not> prefix pat (c # a @ pat @ b)"
  proof
    assume "prefix pat (c # a @ pat @ b)"
    then have "prefix pat ((c # a @ butlast pat) @ (last pat # b))"
      using split by simp
    moreover have "length pat \<le> length (c # a @ butlast pat)"
      by simp
    ultimately have "prefix pat (c # a @ butlast pat)"
      by (rule prefix_of_long_part)
    then show False using Cons.prems by simp
  qed
  have nc: "\<not> contains (a @ butlast pat) pat"
    using Cons.prems by simp
  have "replace_empty (a @ pat @ b) pat = a @ replace_empty b pat"
    using nc by (rule Cons.IH)
  then show ?case
    using np assms(1) by (simp add: replace_empty_def)
qed

lemma rstrip_slash_law:
  assumes "xs = [] \<or> last xs \<noteq> CHR ''/''"
  shows "rstrip_slash (xs @ replicate k (CHR ''/'')) = xs"
proof (cases "xs = []")
  case True
  then show ?thesis
    by (simp add: rstrip_slash_def dropWhile_eq_Nil_conv)
next
  case False
  then have "last xs \<noteq> CHR ''/''" using assms by simp
  with False show ?thesis
    using rstrip_slash_tail[of xs "[]" k] by simp
qed

lemma extract_accepts:
  assumes "contains u ''github.com''"
    and "CHR ''/'' \<in> set (rstrip_slash (replace_empty (replace_empty u ''https://github.com/'')
                                          ''http://github.com/''))"
  shows "\<exists>owner repo. extract_repo_info u = Inr (owner, repo)"
  using assms by (simp add: extract_repo_info_def Let_def contains_single split_first_slash_def)

lemma extract_rejects:
  assumes "CHR ''/'' \<notin> set (rstrip_slash (replace_empty (replace_empty u ''https://github.com/'')
                                          ''http://github.com/''))"
  shows "extract_repo_info u = Inl (ValueError [JStr (''Invalid repository URL: '' @ u)])"
  using assms by (simp add: extract_repo_info_def Let_def contains_single)

text \<open>
  Claim C5, as the code has it. The parser tests only that the input holds the text
  \<^verbatim>\<open>github.com\<close> somewhere and that a slash is left once every occurrence of
  \<^verbatim>\<open>https://github.com/\<close> and then of \<^verbatim>\<open>http://github.com/\<close> and all trailing slashes
  are removed. So: an input without \<^verbatim>\<open>github.com\<close> fails; every failure is the one
  invalid-repository-URL error; an input with \<^verbatim>\<open>github.com\<close> is accepted when a slash is
  left and fails when none is; an accepted input gives the text before the first slash
  of what is left as owner and the text after it as repository; every URL
  \<^verbatim>\<open>http(s)://github.com/<owner>/<rest>\<close> followed by any number of slashes, with a
  slash-free owner and a rest that neither is empty nor ends in a slash, gives
  \<open>(owner, rest)\<close> when the part after the host does not hold one of the two prefixes
  again. The operations on strings are the ones of Python: \<open>contains s pat\<close> says that
  \<open>pat\<close> occurs in \<open>s\<close>; removing \<open>pat\<close> changes nothing in a string without \<open>pat\<close>, and
  in a string whose leftmost occurrence of \<open>pat\<close> follows \<open>a\<close> it keeps \<open>a\<close>, drops the
  occurrence and goes on removing behind it, so every occurrence goes, leftmost first
  and without overlap; stripping removes all the slashes at the end. The two examples
  of the specification hold, and so do two inputs that hold a prefix twice.
\<close>

theorem extract_repo_info_spec:
  "(\<not> contains u ''github.com'' \<longrightarrow>
      extract_repo_info u = Inl (ValueError [JStr (''Invalid repository URL: '' @ u)]))
   \<and> (\<forall>ex. extract_repo_info u = Inl ex \<longrightarrow>
         ex = ValueError [JStr (''Invalid repository URL: '' @ u)])
   \<and> (\<forall>owner repo. extract_repo_info u = Inr (owner, repo) \<longrightarrow>
         contains u ''github.com'' \<and> CHR ''/'' \<notin> set owner \<and>
         rstrip_slash (replace_empty (replace_empty u ''https://github.com/'')
                         ''http://github.com/'') = owner @ ''/'' @ repo)
   \<and> (contains u ''github.com'' \<and>
       CHR ''/'' \<in> set (rstrip_slash (replace_empty (replace_empty u ''https://github.com/'')
                                          ''http://github.com/''))
       \<longrightarrow> (\<exists>owner repo. extract_repo_info u = Inr (owner, repo)))
   \<and> (CHR ''/'' \<notin> set (rstrip_slash (replace_empty (replace_empty u ''https://github.com/'')
                                          ''http://github.com/''))
       \<longrightarrow> extract_repo_info u = Inl (ValueError [JStr (''Invalid repository URL: '' @ u)]))
   \<and> (CHR ''/'' \<notin> set owner \<and> rest \<noteq> [] \<and> last rest \<noteq> CHR ''/'' \<and>
       \<not> contains (owner @ ''/'' @ rest @ replicate k (CHR ''/'')) ''https://github.com/'' \<and>
       \<not> contains (owner @ ''/'' @ rest @ replicate k (CHR ''/'')) ''http://github.com/'' \<longrightarrow>
         extract_repo_info
           (''https://github.com/'' @ owner @ ''/'' @ rest @ replicate k (CHR ''/''))
           = Inr (owner, rest) \<and>
         extract_repo_info
           (''http://github.com/'' @ owner @ ''/'' @ rest @ replicate k (CHR ''/''))
           = Inr (owner, rest))
   \<and> contains s pat = (\<exists>a b. s = a @ pat @ b)
   \<and> (\<not> contains s pat \<longrightarrow> replace_empty s pat = s)
   \<and> (pat \<noteq> [] \<and> \<not> contains (before @ butlast pat) pat \<longrightarrow>
         replace_empty (before @ pat @ behind) pat = before @ replace_empty behind pat)
   \<and> ((xs = [] \<or> last xs \<noteq> CHR ''/'') \<longrightarrow> rstrip_slash (xs @ replicate j (CHR ''/'')) = xs)
   \<and> extract_repo_info ''https://github.com/acme/widgets'' = Inr (''acme'', ''widgets'')
   \<and> extract_repo_info ''https://gitlab.com/acme/widgets''
       = Inl (ValueError [JStr ''Invalid repository URL: https://gitlab.com/acme/widgets''])
   \<and> extract_repo_info ''https://github.com/https://github.com/acme/widgets''
       = Inr (''acme'', ''widgets'')
   \<and> extract_repo_info ''http://github.com/acme/http://github.com/widgets''
       = Inr (''acme'', ''widgets'')"
proof (intro conjI impI allI)
  assume "\<not> contains u ''github.com''"
  then show "extract_repo_info u = Inl (ValueError [JStr (''Invalid repository URL: '' @ u)])"
    by (simp add: extract_repo_info_def)
next
  fix ex assume "extract_repo_info u = Inl ex"
  then show "ex = ValueError [JStr (''Invalid repository URL: '' @ u)]"
    by (rule extract_failure)
next
  fix ow rp assume a: "extract_repo_info u = Inr (ow, rp)"
  show "contains u ''github.com''" using extract_success[OF a] by simp
  show "CHR ''/'' \<notin> set ow" using extract_success[OF a] by simp
  show "rstrip_slash (replace_empty (replace_empty u ''https://github.com/'')
                        ''http://github.com/'') = ow @ ''/'' @ rp"
    using extract_success[OF a] by simp
next
  assume "contains u ''github.com'' \<and>
       CHR ''/'' \<in> set (rstrip_slash (replace_empty (replace_empty u ''https://github.com/'')
                                          ''http://github.com/''))"
  then show "\<exists>owner repo. extract_repo_info u = Inr (owner, repo)"
    using extract_accepts[of u] by blast
next
  assume "CHR ''/'' \<notin> set (rstrip_slash (replace_empty (replace_empty u ''https://github.com/'')
                                          ''http://github.com/''))"
  then show "extract_repo_info u = Inl (ValueError [JStr (''Invalid repository URL: '' @ u)])"
    by (rule extract_rejects)
next
  assume w: "CHR ''/'' \<notin> set owner \<and> rest \<noteq> [] \<and> last rest \<noteq> CHR ''/'' \<and>
       \<not> contains (owner @ ''/'' @ rest @ replicate k (CHR ''/'')) ''https://github.com/'' \<and>
       \<not> contains (owner @ ''/'' @ rest @ replicate k (CHR ''/'')) ''http://github.com/''"
  show "extract_repo_info
           (''https://github.com/'' @ owner @ ''/'' @ rest @ replicate k (CHR ''/''))
           = Inr (owner, rest)"
    using w by (intro extract_wellformed(1)) simp_all
  show "extract_repo_info
           (''http://github.com/'' @ owner @ ''/'' @ rest @ replicate k (CHR ''/''))
           = Inr (owner, rest)"
    using w by (intro extract_wellformed(2)) simp_all
next
  show "contains s pat = (\<exists>a b. s = a @ pat @ b)"
    by (rule contains_iff)
next
  assume "\<not> contains s pat"
  then show "replace_empty s pat = s"
    by (simp add: replace_empty_def delete_occ_absent)
next
  assume "pat \<noteq> [] \<and> \<not> contains (before @ butlast pat) pat"
  then show "replace_empty (before @ pat @ behind) pat = before @ replace_empty behind pat"
    using replace_empty_first[of pat before behind] by blast
next
  assume "xs = [] \<or> last xs \<noteq> CHR ''/''"
  then show "rstrip_slash (xs @ replicate j (CHR ''/'')) = xs"
    by (rule rstrip_slash_law)
next
  show "extract_repo_info ''https://github.com/acme/widgets'' = Inr (''acme'', ''widgets'')"
    by (simp add: extract_repo_info_def replace_empty_def rstrip_slash_def
        split_first_slash_def)
next
  show "extract_repo_info ''https://gitlab.com/acme/widgets''
       = Inl (ValueError [JStr ''Invalid repository URL: https://gitlab.com/acme/widgets''])"
    by (simp add: extract_repo_info_def)
next
  show "extract_repo_info ''https://github.com/https://github.com/acme/widgets''
       = Inr (''acme'', ''widgets'')"
    by (simp add: extract_repo_info_def replace_empty_def rstrip_slash_def
        split_first_slash_def)
next
  show "extract_repo_info ''http://github.com/acme/http://github.com/widgets''
       = Inr (''acme'', ''widgets'')"
    by (simp add: extract_repo_info_def replace_empty_def rstrip_slash_def
        split_first_slash_def)
qed

theorem extract_repo_info_spec_witness:
  "\<not> contains ''ftp://example.org/acme/widgets'' ''github.com''
   \<and> extract_repo_info ''ftp://example.org/acme/widgets''
       = Inl (ValueError [JStr ''Invalid repository URL: ftp://example.org/acme/widgets''])
   \<and> contains ''www.github.com/acme/widgets/'' ''github.com''
   \<and> (\<exists>owner repo. extract_repo_info ''www.github.com/acme/widgets/'' = Inr (owner, repo))
   \<and> extract_repo_info ''https://github.com/acme''
       = Inl (ValueError [JStr ''Invalid repository URL: https://github.com/acme''])
   \<and> CHR ''/'' \<notin> set ''acme'' \<and> ''widgets/tree/main'' \<noteq> []
   \<and> last ''widgets/tree/main'' \<noteq> CHR ''/''
   \<and> extract_repo_info ''https://github.com/acme/widgets/tree/main//''
       = Inr (''acme'', ''widgets/tree/main'')
   \<and> extract_repo_info ''http://github.com/acme/widgets/tree/main//''
       = Inr (''acme'', ''widgets/tree/main'')
   \<and> replace_empty ''acme/widgets'' ''http://github.com/'' = ''acme/widgets''
   \<and> replace_empty ''see http://github.com/acme/http://github.com/widgets'' ''http://github.com/''
       = ''see '' @ replace_empty ''acme/http://github.com/widgets'' ''http://github.com/''
   \<and> rstrip_slash ''acme/widgets//'' = ''acme/widgets''"
proof -
  note t = extract_repo_info_spec
    [where u = "''ftp://example.org/acme/widgets''" and owner = "''acme''"
       and rest = "''widgets/tree/main''" and k = "Suc (Suc 0)"
       and s = "''acme/widgets''" and pat = "''http://github.com/''"
       and before = "''see ''" and behind = "''acme/http://github.com/widgets''"
       and xs = "''acme/widgets''" and j = "Suc (Suc 0)"]
  note ta = extract_repo_info_spec [where u = "''www.github.com/acme/widgets/''"]
  note tb = extract_repo_info_spec [where u = "''https://github.com/acme''"]
  have a: "\<not> contains ''ftp://example.org/acme/widgets'' ''github.com''"
    by simp
  have b: "CHR ''/'' \<notin> set ''acme'' \<and> ''widgets/tree/main'' \<noteq> [] \<and>
       last ''widgets/tree/main'' \<noteq> CHR ''/'' \<and>
       \<not> contains (''acme'' @ ''/'' @ ''widgets/tree/main'' @ replicate (Suc (Suc 0)) (CHR ''/''))
           ''https://github.com/'' \<and>
       \<not> contains (''acme'' @ ''/'' @ ''widgets/tree/main'' @ replicate (Suc (Suc 0)) (CHR ''/''))
           ''http://github.com/''"
    by simp
  have c: "''https://github.com/'' @ ''acme'' @ ''/'' @ ''widgets/tree/main''
             @ replicate (Suc (Suc 0)) (CHR ''/'') = ''https://github.com/acme/widgets/tree/main//''"
    by simp
  have d: "''http://github.com/'' @ ''acme'' @ ''/'' @ ''widgets/tree/main''
             @ replicate (Suc (Suc 0)) (CHR ''/'') = ''http://github.com/acme/widgets/tree/main//''"
    by simp
  from t a have 1: "extract_repo_info ''ftp://example.org/acme/widgets''
       = Inl (ValueError [JStr (''Invalid repository URL: '' @ ''ftp://example.org/acme/widgets'')])"
    by blast
  from t b have 2: "extract_repo_info
           (''https://github.com/'' @ ''acme'' @ ''/'' @ ''widgets/tree/main''
              @ replicate (Suc (Suc 0)) (CHR ''/''))
           = Inr (''acme'', ''widgets/tree/main'') \<and>
         extract_repo_info
           (''http://github.com/'' @ ''acme'' @ ''/'' @ ''widgets/tree/main''
              @ replicate (Suc (Suc 0)) (CHR ''/''))
           = Inr (''acme'', ''widgets/tree/main'')"
    by blast
  have 3: "extract_repo_info ''https://github.com/acme/widgets/tree/main//''
       = Inr (''acme'', ''widgets/tree/main'')"
    using 2 unfolding c d by (rule conjunct1)
  have 4: "extract_repo_info ''http://github.com/acme/widgets/tree/main//''
       = Inr (''acme'', ''widgets/tree/main'')"
    using 2 unfolding c d by (rule conjunct2)
  have 5: "CHR ''/'' \<notin> set ''acme'' \<and> ''widgets/tree/main'' \<noteq> []
   \<and> last ''widgets/tree/main'' \<noteq> CHR ''/''"
    using b by blast
  have e1: "extract_repo_info ''ftp://example.org/acme/widgets''
       = Inl (ValueError [JStr ''Invalid repository URL: ftp://example.org/acme/widgets''])"
    using 1 by simp
  have ga: "contains ''www.github.com/acme/widgets/'' ''github.com''"
    by simp
  have gb: "contains ''www.github.com/acme/widgets/'' ''github.com'' \<and>
       CHR ''/'' \<in> set (rstrip_slash (replace_empty
          (replace_empty ''www.github.com/acme/widgets/'' ''https://github.com/'')
          ''http://github.com/''))"
    by (simp add: replace_empty_def rstrip_slash_def)
  from ta gb have 6: "\<exists>owner repo.
      extract_repo_info ''www.github.com/acme/widgets/'' = Inr (owner, repo)"
    by blast
  have gc: "CHR ''/'' \<notin> set (rstrip_slash (replace_empty
          (replace_empty ''https://github.com/acme'' ''https://github.com/'')
          ''http://github.com/''))"
    by (simp add: replace_empty_def rstrip_slash_def)
  from tb gc have "extract_repo_info ''https://github.com/acme''
       = Inl (ValueError [JStr (''Invalid repository URL: '' @ ''https://github.com/acme'')])"
    by blast
  then have 7: "extract_repo_info ''https://github.com/acme''
       = Inl (ValueError [JStr ''Invalid repository URL: https://github.com/acme''])"
    by simp
  have la: "\<not> contains ''acme/widgets'' ''http://github.com/''"
    by simp
  from t la have 8: "replace_empty ''acme/widgets'' ''http://github.com/'' = ''acme/widgets''"
    by blast
  have lb: "''http://github.com/'' \<noteq> [] \<and>
      \<not> contains (''see '' @ butlast ''http://github.com/'') ''http://github.com/''"
    by simp
  from t lb have "replace_empty
        (''see '' @ ''http://github.com/'' @ ''acme/http://github.com/widgets'')
        ''http://github.com/''
      = ''see '' @ replace_empty ''acme/http://github.com/widgets'' ''http://github.com/''"
    by blast
  then have 9: "replace_empty ''see http://github.com/acme/http://github.com/widgets''
        ''http://github.com/''
      = ''see '' @ replace_empty ''acme/http://github.com/widgets'' ''http://github.com/''"
    by simp
  have lc: "''acme/widgets'' = [] \<or> last ''acme/widgets'' \<noteq> CHR ''/''"
    by simp
  from t lc have "rstrip_slash (''acme/widgets'' @ replicate (Suc (Suc 0)) (CHR ''/''))
      = ''acme/widgets''"
    by blast
  then have 10: "rstrip_slash ''acme/widgets//'' = ''acme/widgets''"
    by simp
  show ?thesis
    using a e1 ga 6 7 3 4 5 8 9 10 by blast
qed

text \<open>
  The claim as the specification words it fails: this input starts with neither
  \<^verbatim>\<open>http://github.com/\<close> nor \<^verbatim>\<open>https://github.com/\<close> and is accepted.
\<close>

theorem extract_repo_info_accepts_other_form:
  "\<not> prefix ''https://github.com/'' ''git@github.com:acme/widgets''
   \<and> \<not> prefix ''http://github.com/'' ''git@github.com:acme/widgets''
   \<and> extract_repo_info ''git@github.com:acme/widgets'' = Inr (''git@github.com:acme'', ''widgets'')"
  by (simp add: extract_repo_info_def replace_empty_def rstrip_slash_def split_first_slash_def)

section \<open>Properties of the session and of the request executor\<close>

lemma ensure_session_live: "not_closed s \<Longrightarrow> session_live (ensure_session s)"
  by (auto simp: not_closed_def session_live_def ensure_session_def split: option.splits)

lemma ensure_session_fields [simp]:
  "config (ensure_session s) = config s"
  "requests (ensure_session s) = requests s"
  "sleeps (ensure_session s) = sleeps s"
  "api_calls (ensure_session s) = api_calls s"
  "clock_reads (ensure_session s) = clock_reads s"
  "agents (ensure_session s) = agents s"
  by (auto simp: ensure_session_def split: option.splits)

lemma session_request_live:
  "session_live s \<Longrightarrow>
   session_request e attr rq s = (transport e (requests s) rq, s\<lparr>requests := Suc (requests s)\<rparr>)"
  by (auto simp: session_live_def session_request_def split: option.splits)

lemma request_json_live:
  "session_live s \<Longrightarrow>
   request_json e rq s =
     (decoded (transport e (requests s) rq), s\<lparr>requests := Suc (requests s)\<rparr>)"
  by (simp add: request_json_def session_request_live)

lemma attempts_429:
  "session_live s \<Longrightarrow>
   (\<forall>j<length xs. \<exists>b t. transport e (requests s + j) rq = Response 429 (Inr b) t) \<Longrightarrow>
   attempts e rq n xs s =
     (Inl (retries_exhausted n),
      s\<lparr>requests := requests s + length xs, sleeps := sleeps s @ map (\<lambda>a. 2 ^ a) xs\<rparr>)"
proof (induction xs arbitrary: s)
  case Nil
  then show ?case by (simp add: retries_exhausted_def)
next
  case (Cons a xs)
  from Cons.prems(2) obtain b t where r0: "transport e (requests s) rq = Response 429 (Inr b) t"
    by fastforce
  let ?s1 = "s\<lparr>requests := Suc (requests s), sleeps := sleeps s @ [2 ^ a]\<rparr>"
  have live: "session_live ?s1"
    using Cons.prems(1) by (simp add: session_live_def)
  have rest: "\<forall>j<length xs. \<exists>b t. transport e (requests ?s1 + j) rq = Response 429 (Inr b) t"
    using Cons.prems(2) by fastforce
  have "attempts e rq n (a # xs) s = attempts e rq n xs ?s1"
    using r0 by (simp add: request_json_live[OF Cons.prems(1)])
  also have "\<dots> = (Inl (retries_exhausted n),
      ?s1\<lparr>requests := requests ?s1 + length xs, sleeps := sleeps ?s1 @ map (\<lambda>a. 2 ^ a) xs\<rparr>)"
    by (rule Cons.IH[OF live rest])
  finally show ?case by simp
qed

lemma attempts_429_then_ok:
  assumes "session_live s"
    and "\<forall>j<length xs. \<exists>b t. transport e (requests s + j) rq = Response 429 (Inr b) t"
    and "transport e (requests s + length xs) rq = Response st (Inr body) txt"
    and "st = 200 \<or> st = 201"
  shows "attempts e rq n (xs @ a # rest) s =
     (Inr body,
      s\<lparr>requests := Suc (requests s + length xs), sleeps := sleeps s @ map (\<lambda>a. 2 ^ a) xs\<rparr>)"
  using assms
proof (induction xs arbitrary: s)
  case Nil
  then show ?case by (auto simp: request_json_live)
next
  case (Cons x xs)
  from Cons.prems(2) obtain b t where r0: "transport e (requests s) rq = Response 429 (Inr b) t"
    by fastforce
  let ?s1 = "s\<lparr>requests := Suc (requests s), sleeps := sleeps s @ [2 ^ x]\<rparr>"
  have live: "session_live ?s1"
    using Cons.prems(1) by (simp add: session_live_def)
  have rest: "\<forall>j<length xs. \<exists>b t. transport e (requests ?s1 + j) rq = Response 429 (Inr b) t"
    using Cons.prems(2) by fastforce
  have fin: "transport e (requests ?s1 + length xs) rq = Response st (Inr body) txt"
    using Cons.prems(3) by simp
  have "attempts e rq n ((x # xs) @ a # rest) s = attempts e rq n (xs @ a # rest) ?s1"
    using r0 by (simp add: request_json_live[OF Cons.prems(1)])
  also have "\<dots> = (Inr body,
      ?s1\<lparr>requests := Suc (requests ?s1 + length xs), sleeps := sleeps ?s1 @ map (\<lambda>a. 2 ^ a) xs\<rparr>)"
    by (rule Cons.IH[OF live rest fin Cons.prems(4)])
  finally show ?case by simp
qed

lemma attempts_401:
  assumes "session_live s"
    and "transport e (requests s) rq = Response 401 (Inr body) txt"
  shows "attempts e rq n (a # rest) s =
     (Inl (Exception [JStr ''Authentication failed. Check your Cursor API key.'']),
      s\<lparr>requests := Suc (requests s)\<rparr>)"
  using assms by (simp add: request_json_live)

lemma not_closed_api_calls [simp]: "not_closed (s\<lparr>api_calls := k\<rparr>) = not_closed s"
  by (simp add: not_closed_def)

lemma make_api_request_attempts:
  "make_api_request e meth endpoint data s =
     attempts e (api_request s meth endpoint data) (max_retries (config s))
       [0 ..< nat (max_retries (config s))] (ensure_session (s\<lparr>api_calls := Suc (api_calls s)\<rparr>))"
  by (simp add: make_api_request_def Let_def api_request_def)

text \<open>
  A response of status 401 whose body decodes: \<^verbatim>\<open>_make_api_request\<close> raises the
  authentication failure after that one request, and nothing is slept.
\<close>

lemma make_api_request_401_decoded:
  assumes "not_closed s" and "0 < max_retries (config s)"
    and "transport e (requests s) (api_request s meth endpoint data) = Response 401 (Inr body) raw"
  shows "make_api_request e meth endpoint data s =
           (Inl (Exception [JStr ''Authentication failed. Check your Cursor API key.'']),
            (ensure_session (s\<lparr>api_calls := Suc (api_calls s)\<rparr>))
              \<lparr>requests := Suc (requests s)\<rparr>)"
proof -
  let ?s0 = "ensure_session (s\<lparr>api_calls := Suc (api_calls s)\<rparr>)"
  have live: "session_live ?s0"
    using assms(1) by (intro ensure_session_live) simp
  have upt: "[0 ..< nat (max_retries (config s))] = 0 # [1 ..< nat (max_retries (config s))]"
    using assms(2) by (simp add: upt_conv_Cons)
  have r: "transport e (requests ?s0) (api_request s meth endpoint data)
             = Response 401 (Inr body) raw"
    using assms(3) by simp
  show ?thesis
    using attempts_401[OF live r] by (simp add: make_api_request_attempts upt)
qed

lemma init_fields [simp]:
  "config (init cfg) = cfg" "requests (init cfg) = 0" "sleeps (init cfg) = []"
  "session (init cfg) = None" "api_calls (init cfg) = 0" "clock_reads (init cfg) = 0"
  "agents (init cfg) = []" "models_cache (init cfg) = None"
  "repositories_cache (init cfg) = None" "branches_cache (init cfg) = Map.empty"
  "models_cache_timestamp (init cfg) = None" "repositories_cache_timestamp (init cfg) = None"
  "branches_cache_timestamp (init cfg) = Map.empty"
  by (simp_all add: init_def)

lemma not_closed_init [simp]: "not_closed (init cfg)"
  by (simp add: not_closed_def)

lemma scripted_fields [simp]:
  "transport (scripted rs final ck) i rq = (if i < length rs then rs ! i else final)"
  "clock (scripted rs final ck) = ck"
  "github_token (scripted rs final ck) = None"
  by (simp_all add: scripted_def)

lemma session_live_init [simp]:
  "session_live (ensure_session (init cfg\<lparr>api_calls := k\<rparr>))"
  by (rule ensure_session_live) simp

text \<open>
  Claim C2, as the code has it. When the session is usable, at least three attempts are
  configured and the transport answers the request with status 429, then 429, then 200,
  each with a body that decodes, \<^verbatim>\<open>_make_api_request\<close> returns the decoded body of the
  third response after exactly the two sleeps \<open>2^0\<close> and \<open>2^1\<close>. When every one of the
  \<open>max_retries\<close> attempts is answered with 429 and a body that decodes, it raises the
  generic failure \<^verbatim>\<open>Failed to complete request after max_retries attempts\<close>, having slept
  \<open>2^attempt\<close> after each attempt.
\<close>

theorem make_api_request_rate_limited:
  assumes "not_closed s"
  shows "(3 \<le> max_retries (config s) \<and>
          transport ea (requests s) (api_request s meth endpoint data)
            = Response 429 (Inr ba) ta \<and>
          transport ea (requests s + 1) (api_request s meth endpoint data)
            = Response 429 (Inr bb) tb \<and>
          transport ea (requests s + 2) (api_request s meth endpoint data)
            = Response 200 (Inr body) tc
          \<longrightarrow>
          make_api_request ea meth endpoint data s =
            (Inr body,
             (ensure_session (s\<lparr>api_calls := Suc (api_calls s)\<rparr>))
               \<lparr>requests := requests s + 3, sleeps := sleeps s @ [2 ^ 0, 2 ^ 1]\<rparr>))
       \<and> ((\<forall>j < nat (max_retries (config s)). \<exists>b t.
              transport eb (requests s + j) (api_request s meth endpoint data)
                = Response 429 (Inr b) t)
          \<longrightarrow>
          make_api_request eb meth endpoint data s =
            (Inl (retries_exhausted (max_retries (config s))),
             (ensure_session (s\<lparr>api_calls := Suc (api_calls s)\<rparr>))
               \<lparr>requests := requests s + nat (max_retries (config s)),
                sleeps := sleeps s @ map (\<lambda>a. 2 ^ a) [0 ..< nat (max_retries (config s))]\<rparr>))"
proof (intro conjI impI)
  let ?s0 = "ensure_session (s\<lparr>api_calls := Suc (api_calls s)\<rparr>)"
  let ?rq = "api_request s meth endpoint data"
  let ?n = "max_retries (config s)"
  have live: "session_live ?s0"
    using assms by (intro ensure_session_live) simp
  {
    assume h: "3 \<le> ?n \<and>
          transport ea (requests s) ?rq = Response 429 (Inr ba) ta \<and>
          transport ea (requests s + 1) ?rq = Response 429 (Inr bb) tb \<and>
          transport ea (requests s + 2) ?rq = Response 200 (Inr body) tc"
    have "nat ?n = Suc (Suc (Suc (nat ?n - 3)))"
      using h by linarith
    then obtain m where m: "nat ?n = Suc (Suc (Suc m))" ..
    have upt: "[0 ..< nat ?n] = [0, 1] @ 2 # [3 ..< nat ?n]"
      unfolding m by (simp add: upt_conv_Cons numeral_2_eq_2 numeral_3_eq_3)
    have two: "\<forall>j<length [0::nat, 1]. \<exists>b t.
        transport ea (requests ?s0 + j) ?rq = Response 429 (Inr b) t"
      using h by (auto simp: less_Suc_eq)
    have third: "transport ea (requests ?s0 + length [0::nat, 1]) ?rq
                   = Response 200 (Inr body) tc"
      using h by simp
    have "attempts ea ?rq ?n ([0, 1] @ 2 # [3 ..< nat ?n]) ?s0 =
            (Inr body, ?s0\<lparr>requests := Suc (requests ?s0 + length [0::nat, 1]),
                           sleeps := sleeps ?s0 @ map (\<lambda>a. 2 ^ a) [0::nat, 1]\<rparr>)"
      by (rule attempts_429_then_ok[OF live two third]) simp
    then show "make_api_request ea meth endpoint data s =
            (Inr body, ?s0\<lparr>requests := requests s + 3, sleeps := sleeps s @ [2 ^ 0, 2 ^ 1]\<rparr>)"
      by (simp add: make_api_request_attempts upt)
  }
  {
    assume h: "\<forall>j < nat ?n. \<exists>b t. transport eb (requests s + j) ?rq = Response 429 (Inr b) t"
    then have all: "\<forall>j<length [0 ..< nat ?n]. \<exists>b t.
        transport eb (requests ?s0 + j) ?rq = Response 429 (Inr b) t"
      by simp
    show "make_api_request eb meth endpoint data s =
            (Inl (retries_exhausted ?n),
             ?s0\<lparr>requests := requests s + nat ?n,
                  sleeps := sleeps s @ map (\<lambda>a. 2 ^ a) [0 ..< nat ?n]\<rparr>)"
      using attempts_429[OF live all, of ?n] by (simp add: make_api_request_attempts)
  }
qed

theorem make_api_request_rate_limited_witness:
  "not_closed (init (default_config ''key''))
   \<and> 3 \<le> max_retries (config (init (default_config ''key'')))
   \<and> fst (make_api_request
        (scripted [Response 429 (Inr JNone) [], Response 429 (Inr JNone) []]
           (Response 200 (Inr (JDict [(''models'', JList [])])) []) (\<lambda>i. 0))
        ''GET'' [JStr ''/v0/models''] JNone (init (default_config ''key'')))
       = Inr (JDict [(''models'', JList [])])
   \<and> sleeps (snd (make_api_request
        (scripted [Response 429 (Inr JNone) [], Response 429 (Inr JNone) []]
           (Response 200 (Inr (JDict [(''models'', JList [])])) []) (\<lambda>i. 0))
        ''GET'' [JStr ''/v0/models''] JNone (init (default_config ''key'')))) = [1, 2]
   \<and> fst (make_api_request (scripted [] (Response 429 (Inr JNone) []) (\<lambda>i. 0))
        ''GET'' [JStr ''/v0/models''] JNone (init (default_config ''key'')))
       = Inl (retries_exhausted 3)
   \<and> sleeps (snd (make_api_request (scripted [] (Response 429 (Inr JNone) []) (\<lambda>i. 0))
        ''GET'' [JStr ''/v0/models''] JNone (init (default_config ''key'')))) = [1, 2, 4]
   \<and> requests (snd (make_api_request (scripted [] (Response 429 (Inr JNone) []) (\<lambda>i. 0))
        ''GET'' [JStr ''/v0/models''] JNone (init (default_config ''key'')))) = 3"
  using make_api_request_rate_limited
    [where s = "init (default_config ''key'')"
       and ea = "scripted [Response 429 (Inr JNone) [], Response 429 (Inr JNone) []]
           (Response 200 (Inr (JDict [(''models'', JList [])])) []) (\<lambda>i. 0)"
       and eb = "scripted [] (Response 429 (Inr JNone) []) (\<lambda>i. 0)"
       and meth = "''GET''" and endpoint = "[JStr ''/v0/models'']" and data = JNone
       and ba = JNone and ta = "[]" and bb = JNone and tb = "[]"
       and body = "JDict [(''models'', JList [])]" and tc = "[]"]
  by (simp add: default_config_def numeral_3_eq_3)

text \<open>
  Claim C2 as stated fails twice. With \<open>max_retries = 2\<close> the answers 429, 429, 200 end
  in the generic failure: the two attempts are used up before the third answer is asked
  for. And a 429 whose body is malformed JSON is not retried: \<^verbatim>\<open>response.json()\<close> runs
  before the status is tested, and its \<^verbatim>\<open>JSONDecodeError\<close> leaves the loop at once, with
  no sleep and the 200 never asked for.
\<close>

theorem make_api_request_rate_limited_gives_up:
  "fst (make_api_request
        (scripted [Response 429 (Inr JNone) [], Response 429 (Inr JNone) []]
           (Response 200 (Inr (JDict [(''models'', JList [])])) []) (\<lambda>i. 0))
        ''GET'' [JStr ''/v0/models''] JNone
        (init ((default_config ''key'')\<lparr>max_retries := 2\<rparr>)))
     = Inl (retries_exhausted 2)
   \<and> requests (snd (make_api_request
        (scripted [Response 429 (Inr JNone) [], Response 429 (Inr JNone) []]
           (Response 200 (Inr (JDict [(''models'', JList [])])) []) (\<lambda>i. 0))
        ''GET'' [JStr ''/v0/models''] JNone
        (init ((default_config ''key'')\<lparr>max_retries := 2\<rparr>)))) = 2
   \<and> fst (make_api_request
        (scripted [Response 429 (Inl (ValueError [JStr ''Expecting value: line 1 column 1 (char 0)'']))
                     ''slow down'',
                   Response 429 (Inr JNone) []]
           (Response 200 (Inr (JDict [(''models'', JList [])])) []) (\<lambda>i. 0))
        ''GET'' [JStr ''/v0/models''] JNone (init (default_config ''key'')))
     = Inl (ValueError [JStr ''Expecting value: line 1 column 1 (char 0)''])
   \<and> requests (snd (make_api_request
        (scripted [Response 429 (Inl (ValueError [JStr ''Expecting value: line 1 column 1 (char 0)'']))
                     ''slow down'',
                   Response 429 (Inr JNone) []]
           (Response 200 (Inr (JDict [(''models'', JList [])])) []) (\<lambda>i. 0))
        ''GET'' [JStr ''/v0/models''] JNone (init (default_config ''key'')))) = 1
   \<and> sleeps (snd (make_api_request
        (scripted [Response 429 (Inl (ValueError [JStr ''Expecting value: line 1 column 1 (char 0)'']))
                     ''slow down'',
                   Response 429 (Inr JNone) []]
           (Response 200 (Inr (JDict [(''models'', JList [])])) []) (\<lambda>i. 0))
        ''GET'' [JStr ''/v0/models''] JNone (init (default_config ''key'')))) = []"
  by (simp add: make_api_request_attempts request_json_live default_config_def
      upt_conv_Cons numeral_2_eq_2 numeral_3_eq_3 retries_exhausted_def session_live_def
      ensure_session_def)

text \<open>
  Claim C6, on the code. \<^verbatim>\<open>_make_api_request\<close> awaits \<^verbatim>\<open>response.json()\<close> before it
  looks at the status. A response of status 401 whose body is not JSON makes that call
  raise \<^verbatim>\<open>ContentTypeError\<close>, an \<^verbatim>\<open>aiohttp.ClientError\<close>, which the \<^verbatim>\<open>except\<close> clause of
  the loop takes for a network fault: with the default configuration the request is
  sent three times, with sleeps of 1 and 2 between them, and the failure raised is
  \<^verbatim>\<open>Network error after 3 attempts\<close>, not the authentication failure.
\<close>

theorem make_api_request_unauthorized_undecodable:
  "make_api_request (scripted [] (Response 401 (Inl (ClientError m)) raw) ck)
     meth endpoint data (init (default_config key))
   = (Inl (Exception ([JStr ''Network error after '', JInt 3, JStr '' attempts: ''] @ m)),
      (ensure_session ((init (default_config key))\<lparr>api_calls := Suc 0\<rparr>))
        \<lparr>requests := 3, sleeps := [2 ^ 0, 2 ^ 1]\<rparr>)"
  by (simp add: make_api_request_attempts request_json_live default_config_def
      upt_conv_Cons numeral_2_eq_2 numeral_3_eq_3 session_live_def ensure_session_def)

section \<open>What the executor and the cache test leave unchanged\<close>

lemma session_request_frame:
  "\<exists>k. snd (session_request e a rq s) = s\<lparr>requests := k\<rparr>"
proof (cases "session_live s")
  case True
  then show ?thesis by (auto simp: session_request_live)
next
  case False
  then have "snd (session_request e a rq s) = s"
    by (auto simp: session_request_def session_live_def split: option.splits)
  then have "snd (session_request e a rq s) = s\<lparr>requests := requests s\<rparr>" by simp
  then show ?thesis by blast
qed

lemma attempts_frame:
  "\<exists>k sl. snd (attempts e rq n xs s) = s\<lparr>requests := k, sleeps := sl\<rparr>"
proof (induction xs arbitrary: s)
  case Nil
  have "snd (attempts e rq n [] s) = s\<lparr>requests := requests s, sleeps := sleeps s\<rparr>"
    by simp
  then show ?case by blast
next
  case (Cons a xs)
  obtain out s1 where sr: "session_request e ''request'' rq s = (out, s1)"
    by (cases "session_request e ''request'' rq s")
  obtain k where s1: "s1 = s\<lparr>requests := k\<rparr>"
    using session_request_frame[of e "''request''" rq s] sr by auto
  have one: "\<exists>k sl. s1 = s\<lparr>requests := k, sleeps := sl\<rparr>"
  proof -
    have "s1 = s\<lparr>requests := k, sleeps := sleeps s\<rparr>" using s1 by simp
    then show ?thesis by blast
  qed
  have more: "\<exists>k sl. snd (attempts e rq n xs (s1\<lparr>sleeps := sleeps s1 @ [2 ^ a]\<rparr>))
                  = s\<lparr>requests := k, sleeps := sl\<rparr>"
  proof -
    obtain k' sl' where "snd (attempts e rq n xs (s1\<lparr>sleeps := sleeps s1 @ [2 ^ a]\<rparr>))
        = (s1\<lparr>sleeps := sleeps s1 @ [2 ^ a]\<rparr>)\<lparr>requests := k', sleeps := sl'\<rparr>"
      using Cons.IH by blast
    then have "snd (attempts e rq n xs (s1\<lparr>sleeps := sleeps s1 @ [2 ^ a]\<rparr>))
        = s\<lparr>requests := k', sleeps := sl'\<rparr>"
      using s1 by simp
    then show ?thesis by blast
  qed
  have rj: "request_json e rq s = (decoded out, s1)"
    by (simp add: request_json_def sr)
  have "snd (attempts e rq n (a # xs) s) = s1
        \<or> snd (attempts e rq n (a # xs) s)
            = snd (attempts e rq n xs (s1\<lparr>sleeps := sleeps s1 @ [2 ^ a]\<rparr>))"
    by (cases "decoded out") (auto simp: rj)
  then show ?case
  proof
    assume "snd (attempts e rq n (a # xs) s) = s1"
    with one show ?thesis by simp
  next
    assume "snd (attempts e rq n (a # xs) s)
            = snd (attempts e rq n xs (s1\<lparr>sleeps := sleeps s1 @ [2 ^ a]\<rparr>))"
    with more show ?thesis by simp
  qed
qed

lemma make_api_request_frame:
  "\<exists>k sl. snd (make_api_request e meth endpoint data s) =
     (ensure_session s)\<lparr>api_calls := Suc (api_calls s), requests := k, sleeps := sl\<rparr>"
proof -
  have comm: "ensure_session (s\<lparr>api_calls := Suc (api_calls s)\<rparr>)
              = (ensure_session s)\<lparr>api_calls := Suc (api_calls s)\<rparr>"
    by (simp add: ensure_session_def split: option.splits)
  show ?thesis
    using attempts_frame[of e "api_request s meth endpoint data" "max_retries (config s)"
        "[0 ..< nat (max_retries (config s))]" "ensure_session (s\<lparr>api_calls := Suc (api_calls s)\<rparr>)"]
    by (simp add: make_api_request_attempts comm)
qed

lemma ensure_session_caches [simp]:
  "models_cache (ensure_session s) = models_cache s"
  "repositories_cache (ensure_session s) = repositories_cache s"
  "branches_cache (ensure_session s) = branches_cache s"
  "models_cache_timestamp (ensure_session s) = models_cache_timestamp s"
  "repositories_cache_timestamp (ensure_session s) = repositories_cache_timestamp s"
  "branches_cache_timestamp (ensure_session s) = branches_cache_timestamp s"
  by (auto simp: ensure_session_def split: option.splits)

lemma make_api_request_fields:
  assumes "make_api_request e meth endpoint data s = (res, s1)"
  shows "agents s1 = agents s" and "config s1 = config s"
    and "models_cache s1 = models_cache s" and "repositories_cache s1 = repositories_cache s"
    and "branches_cache s1 = branches_cache s"
    and "models_cache_timestamp s1 = models_cache_timestamp s"
    and "repositories_cache_timestamp s1 = repositories_cache_timestamp s"
    and "branches_cache_timestamp s1 = branches_cache_timestamp s"
    and "clock_reads s1 = clock_reads s" and "api_calls s1 = Suc (api_calls s)"
    and "session s1 = session (ensure_session s)"
  using make_api_request_frame[of e meth endpoint data s] assms by auto

section \<open>Properties of the caches\<close>

subsection \<open>Float subtraction\<close>

lemma bit_length_numeral [simp]:
  "bit_length 0 = 0"
  "bit_length (Suc 0) = Suc 0"
  "bit_length (numeral Num.One) = Suc 0"
  "bit_length (numeral (Num.Bit0 k)) = Suc (bit_length (numeral k))"
  "bit_length (numeral (Num.Bit1 k)) = Suc (bit_length (numeral k))"
  by (subst bit_length.simps, simp)+

lemma bit_length_upper: "n < 2 ^ bit_length n"
proof (induction n rule: bit_length.induct)
  case (1 n)
  show ?case
  proof (cases "n = 0")
    case True
    then show ?thesis by (simp add: bit_length.simps)
  next
    case False
    then have "n div 2 < 2 ^ bit_length (n div 2)" using 1 by simp
    then have "n < 2 * 2 ^ bit_length (n div 2)" by linarith
    then show ?thesis using False by (subst bit_length.simps) simp
  qed
qed

lemma bit_length_lower: "0 < n \<Longrightarrow> 2 ^ (bit_length n - 1) \<le> n"
proof (induction n rule: bit_length.induct)
  case (1 n)
  show ?case
  proof (cases "n div 2 = 0")
    case True
    then have "n = 1" using 1(2) by linarith
    then show ?thesis by (simp add: bit_length.simps)
  next
    case False
    then have ih: "2 ^ (bit_length (n div 2) - 1) \<le> n div 2"
      using 1 by simp
    have pos: "0 < bit_length (n div 2)"
      using False by (subst bit_length.simps) simp
    have "bit_length n = Suc (bit_length (n div 2))"
      using 1(2) by (subst bit_length.simps) simp
    then have "(2::nat) ^ (bit_length n - 1) = 2 * 2 ^ (bit_length (n div 2) - 1)"
      using pos by (cases "bit_length (n div 2)") simp_all
    also have "\<dots> \<le> 2 * (n div 2)" using ih by simp
    also have "\<dots> \<le> n" by simp
    finally show ?thesis .
  qed
qed

lemma real_nat_pred: "2 \<le> c \<Longrightarrow> real (nat (c - 1)) = of_int c - 1"
  by simp

lemma pow2_powi: "pow2 k = 2 powi k"
  by (simp add: pow2_def power_int_def field_simps)

lemma pow2_pos [simp]: "0 < pow2 k"
  by (simp add: pow2_powi)

lemma pow2_nonneg [simp]: "0 \<le> pow2 k"
  using pow2_pos[of k] by (rule less_imp_le)

lemma pow2_add: "pow2 (a + b) = pow2 a * pow2 b"
  by (simp add: pow2_powi power_int_add)

lemma pow2_nat: "pow2 (int n) = 2 ^ n"
  by (simp add: pow2_def)

lemma pow2_mono: "a \<le> b \<Longrightarrow> pow2 a \<le> pow2 b"
  by (simp add: pow2_powi power_int_increasing)

lemma ilog2_bounds:
  assumes "0 < x"
  shows "pow2 (ilog2 x) \<le> x" and "x < pow2 (ilog2 x + 1)"
proof -
  show "pow2 (ilog2 x) \<le> x"
  proof (cases "1 \<le> x")
    case True
    let ?n = "nat \<lfloor>x\<rfloor>"
    have n: "0 < ?n" using True by simp
    have b: "0 < bit_length ?n" using n by (subst bit_length.simps) simp
    have "ilog2 x = int (bit_length ?n - 1)" using True b by (simp add: ilog2_def)
    then have "pow2 (ilog2 x) = 2 ^ (bit_length ?n - 1)" by (simp add: pow2_nat)
    also have "\<dots> \<le> real ?n" using bit_length_lower[OF n]
      by (metis of_nat_le_iff of_nat_numeral of_nat_power)
    also have "\<dots> \<le> x" using True by simp
    finally show ?thesis .
  next
    case False
    let ?m = "nat (\<lceil>1 / x\<rceil> - 1)"
    have y: "1 < 1 / x" using False assms by simp
    have c: "2 \<le> \<lceil>1 / x\<rceil>" using y by linarith
    have "1 / x \<le> of_int \<lceil>1 / x\<rceil>" by simp
    also have "\<dots> = real ?m + 1" using real_nat_pred[OF c] by simp
    also have "\<dots> \<le> 2 ^ bit_length ?m"
    proof -
      have "Suc ?m \<le> 2 ^ bit_length ?m" by (rule Suc_leI[OF bit_length_upper])
      then have "real (Suc ?m) \<le> real (2 ^ bit_length ?m)" by (rule iffD2[OF of_nat_le_iff])
      then show ?thesis by simp
    qed
    finally have "1 / x \<le> 2 ^ bit_length ?m" .
    then have "1 / 2 ^ bit_length ?m \<le> x"
      using assms by (simp add: field_simps)
    moreover have "pow2 (ilog2 x) = 1 / 2 ^ bit_length ?m"
      using False by (simp add: ilog2_def pow2_powi power_int_minus_divide)
    ultimately show ?thesis by simp
  qed
  show "x < pow2 (ilog2 x + 1)"
  proof (cases "1 \<le> x")
    case True
    let ?n = "nat \<lfloor>x\<rfloor>"
    have "ilog2 x + 1 = int (bit_length ?n)" using True by (simp add: ilog2_def)
    then have p: "pow2 (ilog2 x + 1) = 2 ^ bit_length ?n" by (simp add: pow2_nat)
    have "Suc ?n \<le> 2 ^ bit_length ?n" by (rule Suc_leI[OF bit_length_upper])
    then have "real (Suc ?n) \<le> real (2 ^ bit_length ?n)" by (rule iffD2[OF of_nat_le_iff])
    then have "real ?n + 1 \<le> 2 ^ bit_length ?n" by simp
    moreover have "x < real ?n + 1" using True by (simp add: of_nat_nat)
    ultimately show ?thesis using p by simp
  next
    case False
    let ?m = "nat (\<lceil>1 / x\<rceil> - 1)"
    have y: "1 < 1 / x" using False assms by simp
    then have c: "2 \<le> \<lceil>1 / x\<rceil>" by linarith
    then have m: "0 < ?m" by simp
    have b: "0 < bit_length ?m" using m by (subst bit_length.simps) simp
    have "(2::real) ^ (bit_length ?m - 1) \<le> real ?m" using bit_length_lower[OF m]
      by (metis of_nat_le_iff of_nat_numeral of_nat_power)
    also have "real ?m = of_int \<lceil>1 / x\<rceil> - 1" using c by (rule real_nat_pred)
    also have "\<dots> < 1 / x" by linarith
    finally have "2 ^ (bit_length ?m - 1) < 1 / x" .
    then have lt: "x < 1 / 2 ^ (bit_length ?m - 1)"
      using assms by (simp add: field_simps)
    have "ilog2 x + 1 = - int (bit_length ?m - 1)" using False b by (simp add: ilog2_def)
    then have "pow2 (ilog2 x + 1) = 1 / 2 ^ (bit_length ?m - 1)"
      by (simp add: pow2_powi power_int_minus_divide)
    then show ?thesis using lt by simp
  qed
qed


lemma round_half_even_floor:
  "\<lfloor>x\<rfloor> \<le> round_half_even x" "round_half_even x \<le> \<lfloor>x\<rfloor> + 1"
  by (simp_all add: round_half_even_def Let_def)

lemma round_half_even_ge: "of_int n \<le> x \<Longrightarrow> n \<le> round_half_even x"
proof -
  assume "of_int n \<le> x"
  then have "n \<le> \<lfloor>x\<rfloor>" by (simp add: le_floor_iff)
  then show ?thesis using round_half_even_floor(1)[of x] by linarith
qed

lemma round_half_even_le: "x \<le> of_int n \<Longrightarrow> round_half_even x \<le> n"
proof -
  assume a: "x \<le> of_int n"
  then have f: "\<lfloor>x\<rfloor> \<le> n" by (simp add: floor_le_iff)
  show ?thesis
  proof (cases "\<lfloor>x\<rfloor> = n")
    case True
    then have "x = of_int n" using a by linarith
    then show ?thesis by (simp add: round_half_even_def)
  next
    case False
    then have "\<lfloor>x\<rfloor> + 1 \<le> n" using f by linarith
    then show ?thesis using round_half_even_floor(2)[of x] by linarith
  qed
qed

lemma round_half_even_less_even:
  assumes "even m"
  shows "round_half_even x < m \<longleftrightarrow> x < of_int m - 1 / 2"
proof
  assume lt: "x < of_int m - 1 / 2"
  then have f: "\<lfloor>x\<rfloor> \<le> m - 1" by (simp add: floor_le_iff) linarith
  show "round_half_even x < m"
  proof (cases "\<lfloor>x\<rfloor> = m - 1")
    case True
    then have "x - of_int \<lfloor>x\<rfloor> < 1 / 2" using lt by simp
    then show ?thesis using True by (simp add: round_half_even_def Let_def)
  next
    case False
    then have "\<lfloor>x\<rfloor> + 1 \<le> m - 1" using f by linarith
    then show ?thesis using round_half_even_floor(2)[of x] by linarith
  qed
next
  assume r: "round_half_even x < m"
  show "x < of_int m - 1 / 2"
  proof (rule ccontr)
    assume "\<not> x < of_int m - 1 / 2"
    then have ge: "of_int m - 1 / 2 \<le> x" by simp
    then have "of_int (m - 1) \<le> x" by simp
    then have f: "m - 1 \<le> \<lfloor>x\<rfloor>" by (simp add: le_floor_iff)
    have "m \<le> round_half_even x"
    proof (cases "\<lfloor>x\<rfloor> = m - 1")
      case True
      then have odd: "odd \<lfloor>x\<rfloor>" using assms by simp
      have "1 / 2 \<le> x - of_int \<lfloor>x\<rfloor>" using ge True by simp
      then show ?thesis using True odd by (simp add: round_half_even_def Let_def)
    next
      case False
      then have "m \<le> \<lfloor>x\<rfloor>" using f by linarith
      then show ?thesis using round_half_even_floor(1)[of x] by linarith
    qed
    then show False using r by simp
  qed
qed

lemma pow2_shift:
  "pow2 (k - 52) * 2 ^ 52 = pow2 k" "pow2 (k - 52) * 2 ^ 53 = pow2 (k + 1)"
  using power_int_add[of "2::real" "k - 52" 52] power_int_add[of "2::real" "k - 52" 53]
  by (simp_all add: pow2_powi add.commute)

lemma mantissa_bounds:
  assumes "0 < x"
  shows "2 ^ 52 \<le> x / pow2 (ilog2 x - 52)" and "x / pow2 (ilog2 x - 52) < 2 ^ 53"
proof -
  have a: "pow2 (ilog2 x) = pow2 (ilog2 x - 52) * 2 ^ 52"
    by (simp only: pow2_shift)
  have b: "pow2 (ilog2 x + 1) = pow2 (ilog2 x - 52) * 2 ^ 53"
    by (simp only: pow2_shift)
  show "2 ^ 52 \<le> x / pow2 (ilog2 x - 52)"
    using ilog2_bounds(1)[OF assms] a by (simp add: field_simps)
  show "x / pow2 (ilog2 x - 52) < 2 ^ 53"
    using ilog2_bounds(2)[OF assms] b by (simp add: field_simps)
qed

lemma round_double_pos:
  assumes "0 < x"
  shows "round_double x = of_int (round_half_even (x / pow2 (ilog2 x - 52))) * pow2 (ilog2 x - 52)"
  using assms by (simp add: round_double_def Let_def)

lemma round_double_bounds:
  assumes "0 < x"
  shows "pow2 (ilog2 x) \<le> round_double x" and "round_double x \<le> pow2 (ilog2 x + 1)"
proof -
  let ?k = "ilog2 x - 52"
  let ?r = "round_half_even (x / pow2 ?k)"
  have a: "pow2 (ilog2 x) = 2 ^ 52 * pow2 ?k"
    using pow2_shift(1)[of "ilog2 x"] by (simp only: mult.commute)
  have b: "pow2 (ilog2 x + 1) = 2 ^ 53 * pow2 ?k"
    using pow2_shift(2)[of "ilog2 x"] by (simp only: mult.commute)
  have "of_int (2 ^ 52) \<le> x / pow2 ?k" using mantissa_bounds(1)[OF assms] by simp
  then have "2 ^ 52 \<le> ?r" by (rule round_half_even_ge)
  then have "(2::real) ^ 52 \<le> of_int ?r" by (metis of_int_le_iff of_int_numeral of_int_power)
  then have "2 ^ 52 * pow2 ?k \<le> of_int ?r * pow2 ?k"
    by (intro mult_right_mono) simp_all
  then show "pow2 (ilog2 x) \<le> round_double x"
    using a by (simp add: round_double_pos[OF assms])
  have "x / pow2 ?k \<le> of_int (2 ^ 53)" using mantissa_bounds(2)[OF assms] by simp
  then have "?r \<le> 2 ^ 53" by (rule round_half_even_le)
  then have "of_int ?r \<le> (2::real) ^ 53" by (metis of_int_le_iff of_int_numeral of_int_power)
  then have "of_int ?r * pow2 ?k \<le> 2 ^ 53 * pow2 ?k"
    by (intro mult_right_mono) simp_all
  then show "round_double x \<le> pow2 (ilog2 x + 1)"
    using b by (simp add: round_double_pos[OF assms])
qed

lemma round_double_nonpos: "x \<le> 0 \<Longrightarrow> round_double x \<le> 0"
proof (cases "x = 0")
  case True
  then show ?thesis by (simp add: round_double_def)
next
  case False
  assume "x \<le> 0"
  then have neg: "x < 0" using False by simp
  let ?k = "ilog2 \<bar>x\<bar> - 52"
  have "0 \<le> \<bar>x\<bar> / pow2 ?k" by (intro divide_nonneg_pos) simp_all
  then have "of_int 0 \<le> \<bar>x\<bar> / pow2 ?k" by simp
  then have "0 \<le> round_half_even (\<bar>x\<bar> / pow2 ?k)" by (rule round_half_even_ge)
  then have "0 \<le> of_int (round_half_even (\<bar>x\<bar> / pow2 ?k)) * pow2 ?k"
    by (intro mult_nonneg_nonneg) simp_all
  then show ?thesis using neg by (simp add: round_double_def Let_def)
qed

text \<open>The age test of the cache on exact ages: a float difference is under 300 exactly
  when the exact difference is under \<open>300 - 2^-45\<close>, half a unit in the last place of the
  floats just below 300.\<close>

lemma round_double_less_300: "round_double d < 300 \<longleftrightarrow> d < 300 - 1 / 2 ^ 45"
proof -
  consider "d \<le> 0" | "0 < d" "ilog2 d \<le> 7" | "0 < d" "ilog2 d = 8" | "0 < d" "9 \<le> ilog2 d"
    by linarith
  then show ?thesis
  proof cases
    case 1
    then have "round_double d \<le> 0" by (rule round_double_nonpos)
    then show ?thesis using 1 by simp
  next
    case 2
    have "pow2 (ilog2 d + 1) \<le> pow2 8" using 2(2) by (intro pow2_mono) simp
    then have le: "pow2 (ilog2 d + 1) \<le> 256" by (simp add: pow2_def)
    have "round_double d \<le> 256"
      using round_double_bounds(2)[OF 2(1)] le by linarith
    moreover have "d < 256" using ilog2_bounds(2)[OF 2(1)] le by linarith
    ultimately show ?thesis by simp
  next
    case 3
    have k: "pow2 (ilog2 d - 52) = 1 / 2 ^ 44" using 3(2) by (simp add: pow2_def)
    have ev: "even (300 * 2 ^ 44 :: int)" by simp
    have rd: "round_double d = of_int (round_half_even (d * 2 ^ 44)) / 2 ^ 44"
      using round_double_pos[OF 3(1)] k by simp
    have "round_double d < 300
          \<longleftrightarrow> real_of_int (round_half_even (d * 2 ^ 44)) < of_int (300 * 2 ^ 44)"
      unfolding rd by (simp add: pos_divide_less_eq)
    also have "\<dots> \<longleftrightarrow> round_half_even (d * 2 ^ 44) < 300 * 2 ^ 44"
      by (rule of_int_less_iff)
    also have "\<dots> \<longleftrightarrow> d * 2 ^ 44 < of_int (300 * 2 ^ 44) - 1 / 2"
      using ev by (rule round_half_even_less_even)
    also have "\<dots> \<longleftrightarrow> d < 300 - 1 / 2 ^ 45"
      by (simp add: field_simps)
    finally show ?thesis .
  next
    case 4
    have "pow2 9 \<le> pow2 (ilog2 d)" using 4(2) by (intro pow2_mono) simp
    then have ge: "512 \<le> pow2 (ilog2 d)" by (simp add: pow2_def)
    have "512 \<le> round_double d"
      using round_double_bounds(1)[OF 4(1)] ge by linarith
    moreover have "512 \<le> d" using ilog2_bounds(1)[OF 4(1)] ge by linarith
    ultimately show ?thesis by simp
  qed
qed

lemma float_sub_less_300: "float_sub x y < 300 \<longleftrightarrow> x - y < 300 - 1 / 2 ^ 45"
  by (simp only: float_sub_def round_double_less_300)

text \<open>The ages that the scripted runs below meet, and an age that is under 300 before
  it is rounded and is 300 as a float.\<close>

lemma float_sub_examples:
  "float_sub 1100 1000 = 100"
  "float_sub 2000 1000 = 1000"
  "float_sub 300 (1 / 2 ^ 60) = 300"
  by (simp_all add: float_sub_def round_double_def ilog2_def pow2_def round_half_even_def Let_def)

subsection \<open>The cache test and the caching handlers\<close>

lemma time_time_simp [simp]:
  "time_time e s = (clock e (clock_reads s), s\<lparr>clock_reads := Suc (clock_reads s)\<rparr>)"
  by (simp add: time_time_def)

lemma cache_check_hit:
  assumes "ts = Some t" and "float_sub (clock e (clock_reads s)) t < 300"
  shows "cache_check e False ts cached s = (cached, s\<lparr>clock_reads := Suc (clock_reads s)\<rparr>)"
  using assms by (simp add: cache_check_def is_cache_valid_def cache_duration_def)

lemma cache_check_cases:
  assumes "cache_check e f ts cached s = (res, s1)"
  shows "(res = None \<or> res = cached) \<and> (s1 = s \<or> s1 = s\<lparr>clock_reads := Suc (clock_reads s)\<rparr>)"
  using assms
  by (auto simp: cache_check_def is_cache_valid_def split: if_splits option.splits)

lemma cache_check_fields:
  assumes "cache_check e f ts cached s = (res, s1)"
  shows "agents s1 = agents s" and "config s1 = config s"
    and "models_cache s1 = models_cache s" and "repositories_cache s1 = repositories_cache s"
    and "branches_cache s1 = branches_cache s"
    and "models_cache_timestamp s1 = models_cache_timestamp s"
    and "repositories_cache_timestamp s1 = repositories_cache_timestamp s"
    and "branches_cache_timestamp s1 = branches_cache_timestamp s"
    and "requests s1 = requests s" and "api_calls s1 = api_calls s"
    and "session s1 = session s" and "sleeps s1 = sleeps s"
  using cache_check_cases[OF assms] by auto

lemma truthy_cache_Some: "truthy_cache c = Some r \<Longrightarrow> c = Some r \<and> r \<noteq> []"
  by (cases c) (auto split: if_splits)

lemma models_result_success: "models_result response = Inr r \<Longrightarrow> is_success r"
  by (auto simp: models_result_def is_success_def split: sum.splits)

lemma repositories_result_success: "repositories_result response = Inr r \<Longrightarrow> is_success r"
  by (auto simp: repositories_result_def is_success_def split: sum.splits)

lemma is_success_nonempty: "is_success r \<Longrightarrow> r \<noteq> []"
  by (auto simp: is_success_def)

lemma models_try_Inr:
  assumes "models_try e s = (Inr r, s2)"
  shows "is_success r" and "models_cache s2 = Some r"
    and "\<exists>t. models_cache_timestamp s2 = Some t"
    and "repositories_cache s2 = repositories_cache s" and "branches_cache s2 = branches_cache s"
    and "api_calls s2 = Suc (api_calls s)"
proof -
  obtain res s1 where m: "make_api_request e ''GET'' [JStr ''/v0/models''] JNone s = (res, s1)"
    by (cases "make_api_request e ''GET'' [JStr ''/v0/models''] JNone s")
  note f = make_api_request_fields[OF m]
  from assms m obtain response where res: "res = Inr response"
    and r: "models_result response = Inr r"
    and s2: "s2 = s1\<lparr>models_cache := Some r, clock_reads := Suc (clock_reads s1),
                       models_cache_timestamp := Some (clock e (clock_reads s1))\<rparr>"
    by (auto simp: models_try_def split: sum.splits)
  show "is_success r" using r by (rule models_result_success)
  show "models_cache s2 = Some r" using s2 by simp
  show "\<exists>t. models_cache_timestamp s2 = Some t" using s2 by simp
  show "repositories_cache s2 = repositories_cache s" using s2 f by simp
  show "branches_cache s2 = branches_cache s" using s2 f by simp
  show "api_calls s2 = Suc (api_calls s)" using s2 f by simp
qed

lemma models_try_Inl:
  assumes "models_try e s = (Inl ex, s2)"
  shows "models_cache s2 = models_cache s" and "repositories_cache s2 = repositories_cache s"
    and "branches_cache s2 = branches_cache s"
    and "models_cache_timestamp s2 = models_cache_timestamp s"
    and "api_calls s2 = Suc (api_calls s)"
proof -
  obtain res s1 where m: "make_api_request e ''GET'' [JStr ''/v0/models''] JNone s = (res, s1)"
    by (cases "make_api_request e ''GET'' [JStr ''/v0/models''] JNone s")
  note f = make_api_request_fields[OF m]
  from assms m have s2: "s2 = s1"
    by (auto simp: models_try_def split: sum.splits)
  show "models_cache s2 = models_cache s" "repositories_cache s2 = repositories_cache s"
    "branches_cache s2 = branches_cache s" "models_cache_timestamp s2 = models_cache_timestamp s"
    "api_calls s2 = Suc (api_calls s)"
    using s2 f by simp_all
qed

lemma models_fallback_failure: "is_failure (models_fallback ex)" "\<not> is_success (models_fallback ex)"
  by (simp_all add: models_fallback_def is_failure_def is_success_def)

lemma list_models_success_cached:
  assumes "list_available_models e f s0 = (r, s1)" and "is_success r"
  shows "models_cache s1 = Some r"
proof -
  obtain c sa where cc: "cache_check e f (models_cache_timestamp s0)
      (truthy_cache (models_cache s0)) s0 = (c, sa)"
    by (cases "cache_check e f (models_cache_timestamp s0) (truthy_cache (models_cache s0)) s0")
  note cf = cache_check_fields[OF cc] and ccs = cache_check_cases[OF cc]
  show ?thesis
  proof (cases c)
    case (Some cached)
    then have "r = cached" "s1 = sa"
      using assms(1) cc by (simp_all add: list_available_models_def)
    moreover have "truthy_cache (models_cache s0) = Some cached"
      using ccs Some by auto
    then have "models_cache s0 = Some cached"
      by (simp add: truthy_cache_Some)
    ultimately show ?thesis using cf by simp
  next
    case None
    obtain res sb where mt: "models_try e sa = (res, sb)"
      by (cases "models_try e sa")
    show ?thesis
    proof (cases res)
      case (Inr result)
      then have "r = result" "s1 = sb"
        using assms(1) cc None mt by (simp_all add: list_available_models_def)
      then show ?thesis using models_try_Inr(2)[of e sa result sb] mt Inr by simp
    next
      case (Inl ex)
      show ?thesis
      proof (cases "truthy_cache (models_cache sb)")
        case None2: None
        then have "r = models_fallback ex"
          using assms(1) cc None mt Inl by (simp add: list_available_models_def)
        then show ?thesis using assms(2) models_fallback_failure by simp
      next
        case (Some cached)
        then have "r = cached" "s1 = sb"
          using assms(1) cc None mt Inl by (simp_all add: list_available_models_def)
        then show ?thesis using truthy_cache_Some[OF Some] by simp
      qed
    qed
  qed
qed

lemma list_models_hit:
  assumes "models_cache s = Some r" and "r \<noteq> []"
    and "models_cache_timestamp s = Some t" and "float_sub (clock e (clock_reads s)) t < 300"
  shows "list_available_models e False s = (r, s\<lparr>clock_reads := Suc (clock_reads s)\<rparr>)"
  using assms by (simp add: list_available_models_def cache_check_hit)

lemma repositories_try_Inr:
  assumes "repositories_try e s = (Inr r, s2)"
  shows "is_success r" and "repositories_cache s2 = Some r"
    and "\<exists>t. repositories_cache_timestamp s2 = Some t"
    and "models_cache s2 = models_cache s" and "branches_cache s2 = branches_cache s"
    and "api_calls s2 = Suc (api_calls s)"
proof -
  obtain res s1 where m: "make_api_request e ''GET'' [JStr ''/v0/repositories''] JNone s = (res, s1)"
    by (cases "make_api_request e ''GET'' [JStr ''/v0/repositories''] JNone s")
  note f = make_api_request_fields[OF m]
  from assms m obtain response where res: "res = Inr response"
    and r: "repositories_result response = Inr r"
    and s2: "s2 = s1\<lparr>repositories_cache := Some r, clock_reads := Suc (clock_reads s1),
                       repositories_cache_timestamp := Some (clock e (clock_reads s1))\<rparr>"
    by (auto simp: repositories_try_def split: sum.splits)
  show "is_success r" using r by (rule repositories_result_success)
  show "repositories_cache s2 = Some r" using s2 by simp
  show "\<exists>t. repositories_cache_timestamp s2 = Some t" using s2 by simp
  show "models_cache s2 = models_cache s" using s2 f by simp
  show "branches_cache s2 = branches_cache s" using s2 f by simp
  show "api_calls s2 = Suc (api_calls s)" using s2 f by simp
qed

lemma repositories_try_Inl:
  assumes "repositories_try e s = (Inl ex, s2)"
  shows "repositories_cache s2 = repositories_cache s" and "models_cache s2 = models_cache s"
    and "branches_cache s2 = branches_cache s"
    and "repositories_cache_timestamp s2 = repositories_cache_timestamp s"
    and "api_calls s2 = Suc (api_calls s)"
proof -
  obtain res s1 where m: "make_api_request e ''GET'' [JStr ''/v0/repositories''] JNone s = (res, s1)"
    by (cases "make_api_request e ''GET'' [JStr ''/v0/repositories''] JNone s")
  note f = make_api_request_fields[OF m]
  from assms m have s2: "s2 = s1"
    by (auto simp: repositories_try_def split: sum.splits)
  show "repositories_cache s2 = repositories_cache s" "models_cache s2 = models_cache s"
    "branches_cache s2 = branches_cache s" "repositories_cache_timestamp s2 = repositories_cache_timestamp s"
    "api_calls s2 = Suc (api_calls s)"
    using s2 f by simp_all
qed

lemma repositories_fallback_failure: "is_failure (repositories_fallback ex)" "\<not> is_success (repositories_fallback ex)"
  by (simp_all add: repositories_fallback_def is_failure_def is_success_def)

lemma list_repositories_success_cached:
  assumes "list_repositories e f s0 = (r, s1)" and "is_success r"
  shows "repositories_cache s1 = Some r"
proof -
  obtain c sa where cc: "cache_check e f (repositories_cache_timestamp s0)
      (truthy_cache (repositories_cache s0)) s0 = (c, sa)"
    by (cases "cache_check e f (repositories_cache_timestamp s0) (truthy_cache (repositories_cache s0)) s0")
  note cf = cache_check_fields[OF cc] and ccs = cache_check_cases[OF cc]
  show ?thesis
  proof (cases c)
    case (Some cached)
    then have "r = cached" "s1 = sa"
      using assms(1) cc by (simp_all add: list_repositories_def)
    moreover have "truthy_cache (repositories_cache s0) = Some cached"
      using ccs Some by auto
    then have "repositories_cache s0 = Some cached"
      by (simp add: truthy_cache_Some)
    ultimately show ?thesis using cf by simp
  next
    case None
    obtain res sb where mt: "repositories_try e sa = (res, sb)"
      by (cases "repositories_try e sa")
    show ?thesis
    proof (cases res)
      case (Inr result)
      then have "r = result" "s1 = sb"
        using assms(1) cc None mt by (simp_all add: list_repositories_def)
      then show ?thesis using repositories_try_Inr(2)[of e sa result sb] mt Inr by simp
    next
      case (Inl ex)
      show ?thesis
      proof (cases "truthy_cache (repositories_cache sb)")
        case None2: None
        then have "r = repositories_fallback ex"
          using assms(1) cc None mt Inl by (simp add: list_repositories_def)
        then show ?thesis using assms(2) repositories_fallback_failure by simp
      next
        case (Some cached)
        then have "r = cached" "s1 = sb"
          using assms(1) cc None mt Inl by (simp_all add: list_repositories_def)
        then show ?thesis using truthy_cache_Some[OF Some] by simp
      qed
    qed
  qed
qed

lemma list_repositories_hit:
  assumes "repositories_cache s = Some r" and "r \<noteq> []"
    and "repositories_cache_timestamp s = Some t" and "float_sub (clock e (clock_reads s)) t < 300"
  shows "list_repositories e False s = (r, s\<lparr>clock_reads := Suc (clock_reads s)\<rparr>)"
  using assms by (simp add: list_repositories_def cache_check_hit)

lemma session_request_fields:
  assumes "session_request e a rq s = (out, s1)"
  shows "agents s1 = agents s" and "config s1 = config s"
    and "models_cache s1 = models_cache s" and "repositories_cache s1 = repositories_cache s"
    and "branches_cache s1 = branches_cache s"
    and "models_cache_timestamp s1 = models_cache_timestamp s"
    and "repositories_cache_timestamp s1 = repositories_cache_timestamp s"
    and "branches_cache_timestamp s1 = branches_cache_timestamp s"
    and "clock_reads s1 = clock_reads s" and "api_calls s1 = api_calls s"
    and "session s1 = session s" and "sleeps s1 = sleeps s"
  using session_request_frame[of e a rq s] assms by auto

lemma branches_fallback_failure:
  "is_failure (branches_fallback u ex)" "\<not> is_success (branches_fallback u ex)"
  by (simp_all add: branches_fallback_def is_failure_def is_success_def)

lemma branches_try_success_cached:
  assumes bt: "branches_try e u f s0 = (Inr r, s1)" and ok: "is_success r"
    and ex: "extract_repo_info u = Inr (owner, repo)"
  shows "branches_cache s1 (owner @ ''/'' @ repo) = Some r"
proof -
  let ?key = "owner @ ''/'' @ repo"
  obtain c sa where cc: "cache_check e f (branches_cache_timestamp s0 ?key)
      (branches_cache s0 ?key) s0 = (c, sa)"
    by (cases "cache_check e f (branches_cache_timestamp s0 ?key) (branches_cache s0 ?key) s0")
  note cf = cache_check_fields[OF cc] and ccs = cache_check_cases[OF cc]
  show ?thesis
  proof (cases c)
    case (Some cached)
    then have "r = cached" "s1 = sa"
      using bt cc ex by (simp_all add: branches_try_def)
    moreover have "branches_cache s0 ?key = Some cached"
      using ccs Some by auto
    ultimately show ?thesis using cf by simp
  next
    case None
    obtain out sb where sr: "session_request e ''get'' (github_request e owner repo) sa = (out, sb)"
      by (cases "session_request e ''get'' (github_request e owner repo) sa")
    show ?thesis
    proof (cases out)
      case (Raises x)
      then show ?thesis using bt cc ex None sr by (simp add: branches_try_def)
    next
      case (Response st branches_data error_text)
      show ?thesis
      proof (cases "st = 200")
        case True
        then show ?thesis
          using bt cc ex None sr Response
          by (auto simp: branches_try_def Let_def split: sum.splits)
      next
        case False
        then have "\<not> is_success r"
          using bt cc ex None sr Response
          by (auto simp: branches_try_def is_success_def split: if_splits)
        then show ?thesis using ok by simp
      qed
    qed
  qed
qed

lemma list_branches_success_cached:
  assumes lb: "list_repository_branches e u f s0 = (r, s1)" and ok: "is_success r"
    and ex: "extract_repo_info u = Inr (owner, repo)"
  shows "branches_cache s1 (owner @ ''/'' @ repo) = Some r"
proof -
  obtain res sa where bt: "branches_try e u f s0 = (res, sa)"
    by (cases "branches_try e u f s0")
  show ?thesis
  proof (cases res)
    case (Inr result)
    then have "r = result" "s1 = sa"
      using lb bt by (simp_all add: list_repository_branches_def)
    then show ?thesis
      using branches_try_success_cached[OF _ ok ex, of e f s0 s1] bt Inr by simp
  next
    case (Inl x)
    show ?thesis
    proof (cases "branches_cache sa (owner @ ''/'' @ repo)")
      case None
      then have "r = branches_fallback u x"
        using lb bt Inl ex by (simp add: list_repository_branches_def)
      then show ?thesis using ok branches_fallback_failure by simp
    next
      case (Some cached)
      then have "r = cached" "s1 = sa"
        using lb bt Inl ex by (simp_all add: list_repository_branches_def)
      then show ?thesis using Some by simp
    qed
  qed
qed

lemma list_branches_hit:
  assumes "extract_repo_info u = Inr (owner, repo)"
    and "branches_cache s (owner @ ''/'' @ repo) = Some r"
    and "branches_cache_timestamp s (owner @ ''/'' @ repo) = Some t"
    and "float_sub (clock e (clock_reads s)) t < 300"
  shows "list_repository_branches e u False s = (r, s\<lparr>clock_reads := Suc (clock_reads s)\<rparr>)"
  using assms
  by (simp add: list_repository_branches_def branches_try_def cache_check_hit)

lemma ensure_session_api_calls:
  "ensure_session (s\<lparr>api_calls := k\<rparr>) = (ensure_session s)\<lparr>api_calls := k\<rparr>"
  by (simp add: ensure_session_def split: option.splits)

lemma make_api_request_first:
  assumes "not_closed s" and "0 < max_retries (config s)"
    and "transport e (requests s) (api_request s meth endpoint data) = Response st (Inr body) raw"
    and "st \<noteq> 429"
  shows "make_api_request e meth endpoint data s =
           (if st = 200 \<or> st = 201 then Inr body
            else if st = 401 then
              Inl (Exception [JStr ''Authentication failed. Check your Cursor API key.''])
            else Inl (Exception [JStr ''API request failed: '', JInt (int st), JStr '' - '', body]),
            (ensure_session s)\<lparr>api_calls := Suc (api_calls s), requests := Suc (requests s)\<rparr>)"
proof -
  let ?s0 = "ensure_session (s\<lparr>api_calls := Suc (api_calls s)\<rparr>)"
  have live: "session_live ?s0"
    using assms(1) by (intro ensure_session_live) simp
  have upt: "[0 ..< nat (max_retries (config s))] = 0 # [1 ..< nat (max_retries (config s))]"
    using assms(2) by (simp add: upt_conv_Cons)
  have r: "transport e (requests ?s0) (api_request s meth endpoint data)
             = Response st (Inr body) raw"
    using assms(3) by simp
  have "attempts e (api_request s meth endpoint data) (max_retries (config s))
          (0 # [1 ..< nat (max_retries (config s))]) ?s0 =
           (if st = 200 \<or> st = 201 then Inr body
            else if st = 401 then
              Inl (Exception [JStr ''Authentication failed. Check your Cursor API key.''])
            else Inl (Exception [JStr ''API request failed: '', JInt (int st), JStr '' - '', body]),
            ?s0\<lparr>requests := Suc (requests ?s0)\<rparr>)"
    using r assms(4) by (simp add: request_json_live[OF live])
  then show ?thesis
    by (simp add: make_api_request_attempts upt ensure_session_api_calls)
qed

lemma cache_check_no_timestamp: "cache_check e f None cached s = (None, s)"
  by (simp add: cache_check_def is_cache_valid_def)

lemma cache_check_force: "cache_check e True ts cached s = (None, s)"
  by (simp add: cache_check_def)

lemma cache_check_expired:
  "\<not> float_sub (clock e (clock_reads s)) t < 300 \<Longrightarrow>
   cache_check e False (Some t) cached s = (None, s\<lparr>clock_reads := Suc (clock_reads s)\<rparr>)"
  by (simp add: cache_check_def is_cache_valid_def cache_duration_def)

text \<open>
  Claim C1. Let a call of list-models, list-repositories or list-branches have returned
  a success envelope, as a call whose fetch succeeded does. In any later state whose
  slot for that capability (for list-branches: the slot of that repository) is as the
  call left it and carries the timestamp \<open>t\<close>, a call without \<^verbatim>\<open>force_refresh\<close> whose
  clock reading \<open>now\<close> satisfies \<^verbatim>\<open>now - t < 300\<close>, the difference being the one of Python
  floats that \<^verbatim>\<open>_is_cache_valid\<close> computes (by \<open>float_sub_less_300\<close>: the exact age is
  under \<open>300 - 2^-45\<close>), returns that same envelope and changes nothing but the count of
  clock readings: no request is sent and \<^verbatim>\<open>_make_api_request\<close> is not called.
\<close>

theorem cache_hit_without_refresh:
  "(list_available_models e f sm0 = (rm, sm1) \<and> is_success rm \<and>
      models_cache s = models_cache sm1 \<and> models_cache_timestamp s = Some tm \<and>
      float_sub (clock e' (clock_reads s)) tm < 300
    \<longrightarrow> list_available_models e' False s = (rm, s\<lparr>clock_reads := Suc (clock_reads s)\<rparr>))
   \<and> (list_repositories e f sr0 = (rr, sr1) \<and> is_success rr \<and>
      repositories_cache s = repositories_cache sr1 \<and>
      repositories_cache_timestamp s = Some tr \<and>
      float_sub (clock e' (clock_reads s)) tr < 300
    \<longrightarrow> list_repositories e' False s = (rr, s\<lparr>clock_reads := Suc (clock_reads s)\<rparr>))
   \<and> (list_repository_branches e u f sb0 = (rb, sb1) \<and> is_success rb \<and>
      extract_repo_info u = Inr (owner, repo) \<and>
      branches_cache s (owner @ ''/'' @ repo) = branches_cache sb1 (owner @ ''/'' @ repo) \<and>
      branches_cache_timestamp s (owner @ ''/'' @ repo) = Some tb \<and>
      float_sub (clock e' (clock_reads s)) tb < 300
    \<longrightarrow> list_repository_branches e' u False s = (rb, s\<lparr>clock_reads := Suc (clock_reads s)\<rparr>))"
proof (intro conjI impI)
  assume h: "list_available_models e f sm0 = (rm, sm1) \<and> is_success rm \<and>
      models_cache s = models_cache sm1 \<and> models_cache_timestamp s = Some tm \<and>
      float_sub (clock e' (clock_reads s)) tm < 300"
  then have "models_cache s = Some rm"
    using list_models_success_cached[of e f sm0 rm sm1] by simp
  then show "list_available_models e' False s = (rm, s\<lparr>clock_reads := Suc (clock_reads s)\<rparr>)"
    using h by (intro list_models_hit[where t = tm]) (simp_all add: is_success_nonempty)
next
  assume h: "list_repositories e f sr0 = (rr, sr1) \<and> is_success rr \<and>
      repositories_cache s = repositories_cache sr1 \<and>
      repositories_cache_timestamp s = Some tr \<and>
      float_sub (clock e' (clock_reads s)) tr < 300"
  then have "repositories_cache s = Some rr"
    using list_repositories_success_cached[of e f sr0 rr sr1] by simp
  then show "list_repositories e' False s = (rr, s\<lparr>clock_reads := Suc (clock_reads s)\<rparr>)"
    using h by (intro list_repositories_hit[where t = tr]) (simp_all add: is_success_nonempty)
next
  assume h: "list_repository_branches e u f sb0 = (rb, sb1) \<and> is_success rb \<and>
      extract_repo_info u = Inr (owner, repo) \<and>
      branches_cache s (owner @ ''/'' @ repo) = branches_cache sb1 (owner @ ''/'' @ repo) \<and>
      branches_cache_timestamp s (owner @ ''/'' @ repo) = Some tb \<and>
      float_sub (clock e' (clock_reads s)) tb < 300"
  then have lb: "list_repository_branches e u f sb0 = (rb, sb1)" and ok: "is_success rb"
    and ex: "extract_repo_info u = Inr (owner, repo)"
    and same: "branches_cache s (owner @ ''/'' @ repo) = branches_cache sb1 (owner @ ''/'' @ repo)"
    and ts: "branches_cache_timestamp s (owner @ ''/'' @ repo) = Some tb"
    and fresh: "float_sub (clock e' (clock_reads s)) tb < 300"
    by blast+
  have "branches_cache s (owner @ ''/'' @ repo) = Some rb"
    using list_branches_success_cached[OF lb ok ex] same by simp
  then show "list_repository_branches e' u False s = (rb, s\<lparr>clock_reads := Suc (clock_reads s)\<rparr>)"
    using ex ts fresh by (intro list_branches_hit[where t = tb])
qed

lemma demo_server_fields [simp]:
  "not_closed demo_server" "session_live demo_server"
  "config demo_server = default_config ''key''"
  "requests demo_server = 0" "api_calls demo_server = 0" "clock_reads demo_server = 0"
  "sleeps demo_server = []" "agents demo_server = []"
  "models_cache demo_server = None" "repositories_cache demo_server = None"
  "branches_cache demo_server = Map.empty"
  "models_cache_timestamp demo_server = None" "repositories_cache_timestamp demo_server = None"
  "branches_cache_timestamp demo_server = Map.empty"
  "ensure_session demo_server = demo_server"
  by (simp_all add: demo_server_def initialize_def ensure_session_def not_closed_def
      session_live_def)

lemma default_config_fields [simp]:
  "max_retries (default_config k) = 3" "base_url (default_config k) = ''https://api.cursor.com''"
  by (simp_all add: default_config_def)

lemma demo_world_fields [simp]:
  "transport demo_world 0 rq = Response 200 (Inr (JDict [(''models'', JList [JStr ''o3''])])) []"
  "transport demo_world (Suc 0) rq = Response 200 (Inr (JDict [(''repositories'', JList [])])) []"
  "transport demo_world (Suc (Suc 0)) rq
     = Response 200 (Inr (JList [JDict [(''name'', JStr ''main'')]])) []"
  "clock demo_world i = (if i < 3 then 1000 else 1100)"
  by (simp_all add: demo_world_def)

lemma not_closed_updates [simp]:
  "not_closed (s\<lparr>requests := a\<rparr>) = not_closed s"
  "not_closed (s\<lparr>clock_reads := b\<rparr>) = not_closed s"
  "not_closed (s\<lparr>models_cache := c\<rparr>) = not_closed s"
  "not_closed (s\<lparr>models_cache_timestamp := d\<rparr>) = not_closed s"
  "not_closed (s\<lparr>repositories_cache := c\<rparr>) = not_closed s"
  "not_closed (s\<lparr>repositories_cache_timestamp := d\<rparr>) = not_closed s"
  "not_closed (s\<lparr>branches_cache := g\<rparr>) = not_closed s"
  "not_closed (s\<lparr>branches_cache_timestamp := h\<rparr>) = not_closed s"
  "not_closed (s\<lparr>sleeps := sl\<rparr>) = not_closed s"
  "not_closed (s\<lparr>agents := ag\<rparr>) = not_closed s"
  by (simp_all add: not_closed_def)

lemma session_live_updates [simp]:
  "session_live (s\<lparr>requests := a\<rparr>) = session_live s"
  "session_live (s\<lparr>clock_reads := b\<rparr>) = session_live s"
  "session_live (s\<lparr>models_cache := c\<rparr>) = session_live s"
  "session_live (s\<lparr>models_cache_timestamp := d\<rparr>) = session_live s"
  "session_live (s\<lparr>repositories_cache := c\<rparr>) = session_live s"
  "session_live (s\<lparr>repositories_cache_timestamp := d\<rparr>) = session_live s"
  "session_live (s\<lparr>branches_cache := g\<rparr>) = session_live s"
  "session_live (s\<lparr>branches_cache_timestamp := h\<rparr>) = session_live s"
  "session_live (s\<lparr>sleeps := sl\<rparr>) = session_live s"
  "session_live (s\<lparr>agents := ag\<rparr>) = session_live s"
  "session_live (s\<lparr>api_calls := k\<rparr>) = session_live s"
  by (simp_all add: session_live_def)

lemma ensure_session_live_id: "session_live s \<Longrightarrow> ensure_session s = s"
  by (auto simp: session_live_def ensure_session_def split: option.splits)

lemma session_live_not_closed: "session_live s \<Longrightarrow> not_closed s"
  by (auto simp: session_live_def not_closed_def split: option.splits)

lemma demo_models_first:
  "list_available_models demo_world False demo_server =
     (demo_models,
      demo_server\<lparr>api_calls := Suc 0, requests := Suc 0, models_cache := Some demo_models,
        clock_reads := Suc 0, models_cache_timestamp := Some 1000\<rparr>)"
proof -
  have m: "make_api_request demo_world ''GET'' [JStr ''/v0/models''] JNone demo_server =
      (Inr (JDict [(''models'', JList [JStr ''o3''])]),
       demo_server\<lparr>api_calls := Suc 0, requests := Suc 0\<rparr>)"
    using make_api_request_first[of demo_server demo_world "''GET''" "[JStr ''/v0/models'']" JNone
        200 "JDict [(''models'', JList [JStr ''o3''])]" "[]"]
    by simp
  have r: "models_result (JDict [(''models'', JList [JStr ''o3''])]) = Inr demo_models"
    by (simp add: models_result_def dict_get_def demo_models_def)
  show ?thesis
    by (simp add: list_available_models_def cache_check_no_timestamp models_try_def m r)
qed

lemma demo_after_models_eq:
  "demo_after_models = demo_server\<lparr>api_calls := Suc 0, requests := Suc 0,
     models_cache := Some demo_models, clock_reads := Suc 0, models_cache_timestamp := Some 1000\<rparr>"
  by (simp add: demo_after_models_def demo_models_first)

lemma demo_repositories_first:
  "list_repositories demo_world False demo_after_models =
     (demo_repositories,
      demo_server\<lparr>api_calls := Suc (Suc 0), requests := Suc (Suc 0), models_cache := Some demo_models,
        models_cache_timestamp := Some 1000, repositories_cache := Some demo_repositories,
        clock_reads := Suc (Suc 0), repositories_cache_timestamp := Some 1000\<rparr>)"
proof -
  let ?s = "demo_server\<lparr>api_calls := Suc 0, requests := Suc 0,
     models_cache := Some demo_models, clock_reads := Suc 0, models_cache_timestamp := Some 1000\<rparr>"
  have m: "make_api_request demo_world ''GET'' [JStr ''/v0/repositories''] JNone ?s =
      (Inr (JDict [(''repositories'', JList [])]),
       (ensure_session ?s)\<lparr>api_calls := Suc (api_calls ?s), requests := Suc (requests ?s)\<rparr>)"
    using make_api_request_first[of ?s demo_world "''GET''" "[JStr ''/v0/repositories'']" JNone
        200 "JDict [(''repositories'', JList [])]" "[]"]
    by simp
  have es: "ensure_session ?s = ?s"
    by (rule ensure_session_live_id) simp
  have r: "repositories_result (JDict [(''repositories'', JList [])]) = Inr demo_repositories"
    by (simp add: repositories_result_def dict_get_def demo_repositories_def)
  show ?thesis
    unfolding demo_after_models_eq
    by (simp add: list_repositories_def cache_check_no_timestamp repositories_try_def m r es)
qed

lemma demo_after_repositories_eq:
  "demo_after_repositories =
     demo_server\<lparr>api_calls := Suc (Suc 0), requests := Suc (Suc 0),
        models_cache := Some demo_models,
        models_cache_timestamp := Some 1000, repositories_cache := Some demo_repositories,
        clock_reads := Suc (Suc 0), repositories_cache_timestamp := Some 1000\<rparr>"
  by (simp add: demo_after_repositories_def demo_repositories_first)

lemma demo_url: "extract_repo_info ''https://github.com/acme/widgets'' = Inr (''acme'', ''widgets'')"
  by (simp add: extract_repo_info_def replace_empty_def rstrip_slash_def split_first_slash_def)

lemma demo_branches_first:
  "list_repository_branches demo_world ''https://github.com/acme/widgets'' False
     demo_after_repositories =
     (demo_branches,
      demo_server\<lparr>api_calls := Suc (Suc 0), requests := Suc (Suc (Suc 0)),
        models_cache := Some demo_models,
        models_cache_timestamp := Some 1000, repositories_cache := Some demo_repositories,
        repositories_cache_timestamp := Some 1000,
        branches_cache := [''acme/widgets'' \<mapsto> demo_branches],
        clock_reads := Suc (Suc (Suc 0)),
        branches_cache_timestamp := [''acme/widgets'' \<mapsto> 1000]\<rparr>)"
  unfolding demo_after_repositories_eq
  by (simp add: list_repository_branches_def branches_try_def demo_url cache_check_no_timestamp
      session_request_live dict_item_def demo_branches_def Let_def)

lemma demo_after_branches_eq:
  "demo_after_branches =
      demo_server\<lparr>api_calls := Suc (Suc 0), requests := Suc (Suc (Suc 0)),
        models_cache := Some demo_models,
        models_cache_timestamp := Some 1000, repositories_cache := Some demo_repositories,
        repositories_cache_timestamp := Some 1000,
        branches_cache := [''acme/widgets'' \<mapsto> demo_branches],
        clock_reads := Suc (Suc (Suc 0)),
        branches_cache_timestamp := [''acme/widgets'' \<mapsto> 1000]\<rparr>"
  by (simp add: demo_after_branches_def demo_branches_first)

theorem cache_hit_without_refresh_witness:
  "list_available_models demo_world False demo_server = (demo_models, demo_after_models)
   \<and> is_success demo_models
   \<and> models_cache_timestamp demo_after_branches = Some 1000
   \<and> list_repositories demo_world False demo_after_models
        = (demo_repositories, demo_after_repositories)
   \<and> is_success demo_repositories
   \<and> repositories_cache_timestamp demo_after_branches = Some 1000
   \<and> list_repository_branches demo_world ''https://github.com/acme/widgets'' False
        demo_after_repositories = (demo_branches, demo_after_branches)
   \<and> is_success demo_branches
   \<and> branches_cache_timestamp demo_after_branches ''acme/widgets'' = Some 1000
   \<and> float_sub (clock demo_world (clock_reads demo_after_branches)) 1000 < 300
   \<and> list_available_models demo_world False demo_after_branches
        = (demo_models, demo_after_branches\<lparr>clock_reads := Suc (clock_reads demo_after_branches)\<rparr>)
   \<and> list_repositories demo_world False demo_after_branches
        = (demo_repositories,
           demo_after_branches\<lparr>clock_reads := Suc (clock_reads demo_after_branches)\<rparr>)
   \<and> list_repository_branches demo_world ''https://github.com/acme/widgets'' False
        demo_after_branches
        = (demo_branches, demo_after_branches\<lparr>clock_reads := Suc (clock_reads demo_after_branches)\<rparr>)
   \<and> api_calls demo_after_models = 1
   \<and> api_calls (snd (list_available_models demo_world False demo_after_models)) = 1"
proof -
  note t = cache_hit_without_refresh
    [where e = demo_world and f = False and e' = demo_world and s = demo_after_branches
       and ?sm0.0 = demo_server and rm = demo_models and ?sm1.0 = demo_after_models and tm = 1000
       and ?sr0.0 = demo_after_models and rr = demo_repositories
       and ?sr1.0 = demo_after_repositories and tr = 1000
       and u = "''https://github.com/acme/widgets''" and owner = "''acme''" and repo = "''widgets''"
       and ?sb0.0 = demo_after_repositories and rb = demo_branches
       and ?sb1.0 = demo_after_branches and tb = 1000]
  have m1: "list_available_models demo_world False demo_server = (demo_models, demo_after_models)"
    by (simp add: demo_after_models_def demo_models_first)
  have r1: "list_repositories demo_world False demo_after_models
        = (demo_repositories, demo_after_repositories)"
    by (simp add: demo_after_repositories_def demo_repositories_first)
  have b1: "list_repository_branches demo_world ''https://github.com/acme/widgets'' False
        demo_after_repositories = (demo_branches, demo_after_branches)"
    by (simp add: demo_after_branches_def demo_branches_first)
  have ok: "is_success demo_models" "is_success demo_repositories" "is_success demo_branches"
    by (simp_all add: is_success_def demo_models_def demo_repositories_def demo_branches_def)
  have same: "models_cache demo_after_branches = models_cache demo_after_models"
    "repositories_cache demo_after_branches = repositories_cache demo_after_repositories"
    by (simp_all add: demo_after_branches_eq demo_after_models_eq demo_after_repositories_eq)
  have ts: "models_cache_timestamp demo_after_branches = Some 1000"
    "repositories_cache_timestamp demo_after_branches = Some 1000"
    "branches_cache_timestamp demo_after_branches (''acme'' @ ''/'' @ ''widgets'') = Some 1000"
    by (simp_all add: demo_after_branches_eq)
  have fresh: "float_sub (clock demo_world (clock_reads demo_after_branches)) 1000 < 300"
    by (simp add: demo_after_branches_eq float_sub_examples)
  have hit_m: "list_available_models demo_world False demo_after_branches
        = (demo_models, demo_after_branches\<lparr>clock_reads := Suc (clock_reads demo_after_branches)\<rparr>)"
    using t m1 ok(1) same(1) ts(1) fresh by blast
  have hit_r: "list_repositories demo_world False demo_after_branches
        = (demo_repositories,
           demo_after_branches\<lparr>clock_reads := Suc (clock_reads demo_after_branches)\<rparr>)"
    using t r1 ok(2) same(2) ts(2) fresh by blast
  have hit_b: "list_repository_branches demo_world ''https://github.com/acme/widgets'' False
        demo_after_branches
        = (demo_branches, demo_after_branches\<lparr>clock_reads := Suc (clock_reads demo_after_branches)\<rparr>)"
    using t b1 ok(3) demo_url ts(3) fresh by blast
  have c1: "api_calls demo_after_models = 1"
    by (simp add: demo_after_models_eq)
  have c2: "api_calls (snd (list_available_models demo_world False demo_after_models)) = 1"
    using list_models_hit[of demo_after_models demo_models 1000 demo_world]
    by (simp add: demo_after_models_eq demo_models_def float_sub_def round_double_def)
  have ts3: "branches_cache_timestamp demo_after_branches ''acme/widgets'' = Some 1000"
    using ts(3) by simp
  show ?thesis
    using m1 r1 b1 ok ts(1,2) ts3 fresh hit_m hit_r hit_b c1 c2 by blast
qed

section \<open>Session life cycle\<close>

lemma cleanup_twice: "cleanup (cleanup s) = cleanup s"
  by (auto simp: cleanup_def split: option.splits)

lemma ensure_session_twice: "ensure_session (ensure_session s) = ensure_session s"
  by (auto simp: ensure_session_def split: option.splits)

lemma ensure_after_cleanup: "session s \<noteq> None \<Longrightarrow> ensure_session (cleanup s) = cleanup s"
  by (auto simp: ensure_session_def cleanup_def split: option.splits)

lemma cleanup_not_live: "\<not> session_live (cleanup s)"
  by (auto simp: session_live_def cleanup_def split: option.splits)

text \<open>
  Claim C9, on the code. The first \<^verbatim>\<open>_ensure_session\<close> builds an open session and a
  second one changes nothing; \<^verbatim>\<open>cleanup\<close> twice is \<^verbatim>\<open>cleanup\<close> once. But \<^verbatim>\<open>cleanup\<close>
  leaves the closed session in \<^verbatim>\<open>self.session\<close> and \<^verbatim>\<open>_ensure_session\<close> builds a session
  only when the attribute is \<^verbatim>\<open>None\<close>: after \<^verbatim>\<open>cleanup\<close>, \<^verbatim>\<open>_ensure_session\<close> leaves the
  session closed, and a request fails with \<^verbatim>\<open>Session is closed\<close> without reaching the
  transport.
\<close>

theorem ensure_session_after_cleanup_stays_closed:
  "session_live (ensure_session (init cfg))
   \<and> ensure_session (ensure_session (init cfg)) = ensure_session (init cfg)
   \<and> cleanup (cleanup (ensure_session (init cfg))) = cleanup (ensure_session (init cfg))
   \<and> ensure_session (cleanup (ensure_session (init cfg))) = cleanup (ensure_session (init cfg))
   \<and> \<not> session_live (ensure_session (cleanup (ensure_session (init cfg))))
   \<and> fst (make_api_request e ''GET'' [JStr ''/v0/models''] JNone
            (cleanup (initialize (init (default_config key)))))
       = Inl (RuntimeError [JStr ''Session is closed''])
   \<and> requests (snd (make_api_request e ''GET'' [JStr ''/v0/models''] JNone
            (cleanup (initialize (init (default_config key)))))) = 0"
proof -
  have live: "session_live (ensure_session (init cfg))"
    by (rule ensure_session_live) simp
  have some: "session (ensure_session (init cfg)) \<noteq> None"
    by (simp add: ensure_session_def)
  have stay: "ensure_session (cleanup (ensure_session (init cfg))) = cleanup (ensure_session (init cfg))"
    using some by (rule ensure_after_cleanup)
  have closed: "\<not> session_live (ensure_session (cleanup (ensure_session (init cfg))))"
    unfolding stay by (rule cleanup_not_live)
  have rq: "make_api_request e ''GET'' [JStr ''/v0/models''] JNone
            (cleanup (initialize (init (default_config key))))
       = (Inl (RuntimeError [JStr ''Session is closed'']),
          (cleanup (initialize (init (default_config key))))\<lparr>api_calls := Suc 0\<rparr>)"
    by (simp add: make_api_request_def initialize_def ensure_session_def cleanup_def
        request_json_def session_request_def init_def default_config_def Let_def upt_conv_Cons)
  show ?thesis
    using live stay closed rq
    by (simp add: ensure_session_twice cleanup_twice initialize_def cleanup_def
        ensure_session_def)
qed

section \<open>list-branches on an inaccessible repository\<close>

lemma list_branches_status:
  assumes parse: "extract_repo_info u = Inr (owner, repo)"
    and live: "session_live s"
    and miss: "cache_check e f (branches_cache_timestamp s (owner @ ''/'' @ repo))
                 (branches_cache s (owner @ ''/'' @ repo)) s = (None, s1)"
    and resp: "transport e (requests s) (github_request e owner repo) = Response st body raw"
    and st: "st \<noteq> 200"
  shows "list_repository_branches e u f s =
     (if st = 404 then
        [(''success'', Val (JBool False)),
         (''error'', Txt [JStr ''Repository not found or not accessible'']),
         (''repository'', Val (JStr u)),
         (''branches'', Val (JList [JStr ''main'', JStr ''master'', JStr ''develop''])),
         (''message'', Txt
            [JStr (''Repository '' @ owner @ ''/'' @ repo
                   @ '' not found or not accessible. Using common branch names.'')])]
      else if st = 401 then
        [(''success'', Val (JBool False)),
         (''error'', Txt [JStr ''Authentication required for private repository'']),
         (''repository'', Val (JStr u)),
         (''branches'', Val (JList [JStr ''main'', JStr ''master'', JStr ''develop'',
                                    JStr ''feature/new-feature''])),
         (''message'', Txt
            [JStr (''Private repository '' @ owner @ ''/'' @ repo
                   @ '' requires GitHub token. Using common branch names.'')])]
      else
        [(''success'', Val (JBool False)),
         (''error'', Txt [JStr ''GitHub API error: '', JInt (int st)]),
         (''repository'', Val (JStr u)),
         (''branches'', Val (JList [JStr ''main'', JStr ''master'', JStr ''develop'',
                                    JStr ''feature/new-feature''])),
         (''message'', Txt
            [JStr (''Failed to fetch branches: '' @ raw @ ''. Using common branch names.'')])],
      s1\<lparr>requests := Suc (requests s)\<rparr>)"
proof -
  have live1: "session_live s1" and rq1: "requests s1 = requests s"
    using cache_check_cases[OF miss] live by auto
  have sr: "session_request e ''get'' (github_request e owner repo) s1
              = (Response st body raw, s1\<lparr>requests := Suc (requests s)\<rparr>)"
    using session_request_live[OF live1] resp rq1 by simp
  show ?thesis
    using st miss by (simp add: list_repository_branches_def branches_try_def parse sr Let_def)
qed

text \<open>
  Claim C7. For a URL that parses, on a server whose session is open and whose call
  reaches the fetch (no fresh cached entry is served), a GitHub response of status 404
  makes list-branches return the envelope with \<^verbatim>\<open>success\<close> false and the branches
  \<^verbatim>\<open>main\<close>, \<^verbatim>\<open>master\<close>, \<^verbatim>\<open>develop\<close>; a response of status 401 makes it return the
  envelope whose branches have \<^verbatim>\<open>feature/new-feature\<close> as a fourth entry. The handler
  returns an envelope in every case: each exception of its \<^verbatim>\<open>try\<close> block is caught.
\<close>

theorem list_branches_inaccessible:
  "(extract_repo_info u = Inr (owner, repo) \<and> session_live s \<and>
    cache_check ea f (branches_cache_timestamp s (owner @ ''/'' @ repo))
      (branches_cache s (owner @ ''/'' @ repo)) s = (None, sa) \<and>
    transport ea (requests s) (github_request ea owner repo) = Response 404 ba ra
    \<longrightarrow> list_repository_branches ea u f s =
         ([(''success'', Val (JBool False)),
           (''error'', Txt [JStr ''Repository not found or not accessible'']),
           (''repository'', Val (JStr u)),
           (''branches'', Val (JList [JStr ''main'', JStr ''master'', JStr ''develop''])),
           (''message'', Txt
              [JStr (''Repository '' @ owner @ ''/'' @ repo
                     @ '' not found or not accessible. Using common branch names.'')])],
          sa\<lparr>requests := Suc (requests s)\<rparr>))
   \<and> (extract_repo_info u = Inr (owner, repo) \<and> session_live s \<and>
    cache_check eb f (branches_cache_timestamp s (owner @ ''/'' @ repo))
      (branches_cache s (owner @ ''/'' @ repo)) s = (None, sb) \<and>
    transport eb (requests s) (github_request eb owner repo) = Response 401 bb rb
    \<longrightarrow> list_repository_branches eb u f s =
         ([(''success'', Val (JBool False)),
           (''error'', Txt [JStr ''Authentication required for private repository'']),
           (''repository'', Val (JStr u)),
           (''branches'', Val (JList [JStr ''main'', JStr ''master'', JStr ''develop'',
                                      JStr ''feature/new-feature''])),
           (''message'', Txt
              [JStr (''Private repository '' @ owner @ ''/'' @ repo
                     @ '' requires GitHub token. Using common branch names.'')])],
          sb\<lparr>requests := Suc (requests s)\<rparr>))"
proof (intro conjI impI)
  assume h: "extract_repo_info u = Inr (owner, repo) \<and> session_live s \<and>
    cache_check ea f (branches_cache_timestamp s (owner @ ''/'' @ repo))
      (branches_cache s (owner @ ''/'' @ repo)) s = (None, sa) \<and>
    transport ea (requests s) (github_request ea owner repo) = Response 404 ba ra"
  then have p: "extract_repo_info u = Inr (owner, repo)" and l: "session_live s"
    and m: "cache_check ea f (branches_cache_timestamp s (owner @ ''/'' @ repo))
      (branches_cache s (owner @ ''/'' @ repo)) s = (None, sa)"
    and r: "transport ea (requests s) (github_request ea owner repo) = Response 404 ba ra"
    by blast+
  show "list_repository_branches ea u f s =
         ([(''success'', Val (JBool False)),
           (''error'', Txt [JStr ''Repository not found or not accessible'']),
           (''repository'', Val (JStr u)),
           (''branches'', Val (JList [JStr ''main'', JStr ''master'', JStr ''develop''])),
           (''message'', Txt
              [JStr (''Repository '' @ owner @ ''/'' @ repo
                     @ '' not found or not accessible. Using common branch names.'')])],
          sa\<lparr>requests := Suc (requests s)\<rparr>)"
    using list_branches_status[OF p l m r] by simp
next
  assume h: "extract_repo_info u = Inr (owner, repo) \<and> session_live s \<and>
    cache_check eb f (branches_cache_timestamp s (owner @ ''/'' @ repo))
      (branches_cache s (owner @ ''/'' @ repo)) s = (None, sb) \<and>
    transport eb (requests s) (github_request eb owner repo) = Response 401 bb rb"
  then have p: "extract_repo_info u = Inr (owner, repo)" and l: "session_live s"
    and m: "cache_check eb f (branches_cache_timestamp s (owner @ ''/'' @ repo))
      (branches_cache s (owner @ ''/'' @ repo)) s = (None, sb)"
    and r: "transport eb (requests s) (github_request eb owner repo) = Response 401 bb rb"
    by blast+
  show "list_repository_branches eb u f s =
         ([(''success'', Val (JBool False)),
           (''error'', Txt [JStr ''Authentication required for private repository'']),
           (''repository'', Val (JStr u)),
           (''branches'', Val (JList [JStr ''main'', JStr ''master'', JStr ''develop'',
                                      JStr ''feature/new-feature''])),
           (''message'', Txt
              [JStr (''Private repository '' @ owner @ ''/'' @ repo
                     @ '' requires GitHub token. Using common branch names.'')])],
          sb\<lparr>requests := Suc (requests s)\<rparr>)"
    using list_branches_status[OF p l m r] by simp
qed

theorem list_branches_inaccessible_witness:
  "extract_repo_info ''https://github.com/acme/widgets'' = Inr (''acme'', ''widgets'')
   \<and> session_live demo_server
   \<and> list_repository_branches (scripted [] (Response 404 (Inr JNone) ''Not Found'') (\<lambda>i. 0))
        ''https://github.com/acme/widgets'' False demo_server =
         ([(''success'', Val (JBool False)),
           (''error'', Txt [JStr ''Repository not found or not accessible'']),
           (''repository'', Val (JStr ''https://github.com/acme/widgets'')),
           (''branches'', Val (JList [JStr ''main'', JStr ''master'', JStr ''develop''])),
           (''message'', Txt
              [JStr ''Repository acme/widgets not found or not accessible. Using common branch names.''])],
          demo_server\<lparr>requests := Suc 0\<rparr>)
   \<and> list_repository_branches (scripted [] (Response 401 (Inr JNone) ''Unauthorized'') (\<lambda>i. 0))
        ''https://github.com/acme/widgets'' False demo_server =
         ([(''success'', Val (JBool False)),
           (''error'', Txt [JStr ''Authentication required for private repository'']),
           (''repository'', Val (JStr ''https://github.com/acme/widgets'')),
           (''branches'', Val (JList [JStr ''main'', JStr ''master'', JStr ''develop'',
                                      JStr ''feature/new-feature''])),
           (''message'', Txt
              [JStr ''Private repository acme/widgets requires GitHub token. Using common branch names.''])],
          demo_server\<lparr>requests := Suc 0\<rparr>)"
  using list_branches_inaccessible
    [where u = "''https://github.com/acme/widgets''" and owner = "''acme''" and repo = "''widgets''"
       and s = demo_server and f = False and sa = demo_server and sb = demo_server
       and ea = "scripted [] (Response 404 (Inr JNone) ''Not Found'') (\<lambda>i. 0)"
       and eb = "scripted [] (Response 401 (Inr JNone) ''Unauthorized'') (\<lambda>i. 0)"
       and ba = "Inr JNone" and ra = "''Not Found''"
       and bb = "Inr JNone" and rb = "''Unauthorized''"]
  by (simp add: demo_url cache_check_no_timestamp)

section \<open>Fallback when a refresh fails\<close>

lemma list_models_refresh_failed:
  assumes "cache_check e f (models_cache_timestamp s) (truthy_cache (models_cache s)) s = (None, s1)"
    and "models_try e s1 = (Inl ex, s2)"
  shows "list_available_models e f s =
           (case truthy_cache (models_cache s) of Some p \<Rightarrow> p | None \<Rightarrow> models_fallback ex, s2)"
proof -
  have "models_cache s2 = models_cache s"
    using models_try_Inl(1)[OF assms(2)] cache_check_fields(3)[OF assms(1)] by simp
  then show ?thesis
    using assms by (simp add: list_available_models_def split: option.splits)
qed

lemma list_repositories_refresh_failed:
  assumes "cache_check e f (repositories_cache_timestamp s)
             (truthy_cache (repositories_cache s)) s = (None, s1)"
    and "repositories_try e s1 = (Inl ex, s2)"
  shows "list_repositories e f s =
           (case truthy_cache (repositories_cache s) of Some p \<Rightarrow> p
            | None \<Rightarrow> repositories_fallback ex, s2)"
proof -
  have "repositories_cache s2 = repositories_cache s"
    using repositories_try_Inl(1)[OF assms(2)] cache_check_fields(4)[OF assms(1)] by simp
  then show ?thesis
    using assms by (simp add: list_repositories_def split: option.splits)
qed

lemma branches_try_Inl:
  assumes "branches_try e u f s = (Inl ex, s2)"
  shows "branches_cache s2 = branches_cache s" and "models_cache s2 = models_cache s"
    and "repositories_cache s2 = repositories_cache s"
proof -
  have "branches_cache s2 = branches_cache s \<and> models_cache s2 = models_cache s
        \<and> repositories_cache s2 = repositories_cache s"
  proof (cases "extract_repo_info u")
    case (Inl x)
    then show ?thesis using assms by (simp add: branches_try_def)
  next
    case (Inr pr)
    obtain owner repo where pr: "pr = (owner, repo)" by (cases pr)
    let ?key = "owner @ ''/'' @ repo"
    obtain c sa where cc: "cache_check e f (branches_cache_timestamp s ?key)
        (branches_cache s ?key) s = (c, sa)"
      by (cases "cache_check e f (branches_cache_timestamp s ?key) (branches_cache s ?key) s")
    note cf = cache_check_fields[OF cc]
    obtain out sb where sr: "session_request e ''get'' (github_request e owner repo) sa = (out, sb)"
      by (cases "session_request e ''get'' (github_request e owner repo) sa")
    note sf = session_request_fields[OF sr]
    have "s2 = sb"
      using assms Inr pr cc sr
      by (auto simp: branches_try_def Let_def split: option.splits outcome.splits if_splits
          sum.splits)
    then show ?thesis using cf sf by simp
  qed
  then show "branches_cache s2 = branches_cache s" and "models_cache s2 = models_cache s"
    and "repositories_cache s2 = repositories_cache s"
    by simp_all
qed

lemma list_branches_refresh_raised:
  assumes "extract_repo_info u = Inr (owner, repo)"
    and "branches_try e u f s = (Inl ex, s2)"
  shows "list_repository_branches e u f s =
           (case branches_cache s (owner @ ''/'' @ repo) of Some p \<Rightarrow> p
            | None \<Rightarrow> branches_fallback u ex, s2)"
  using assms branches_try_Inl(1)[OF assms(2)]
  by (simp add: list_repository_branches_def split: option.splits)

lemma make_api_request_first_raise:
  assumes "not_closed s" and "0 < max_retries (config s)"
    and "transport e (requests s) (api_request s meth endpoint data) = Raises ex"
    and "\<not> is_client_error ex"
  shows "make_api_request e meth endpoint data s =
           (Inl ex,
            (ensure_session s)\<lparr>api_calls := Suc (api_calls s), requests := Suc (requests s)\<rparr>)"
proof -
  let ?s0 = "ensure_session (s\<lparr>api_calls := Suc (api_calls s)\<rparr>)"
  have live: "session_live ?s0"
    using assms(1) by (intro ensure_session_live) simp
  have upt: "[0 ..< nat (max_retries (config s))] = 0 # [1 ..< nat (max_retries (config s))]"
    using assms(2) by (simp add: upt_conv_Cons)
  have r: "transport e (requests ?s0) (api_request s meth endpoint data) = Raises ex"
    using assms(3) by simp
  have "attempts e (api_request s meth endpoint data) (max_retries (config s))
          (0 # [1 ..< nat (max_retries (config s))]) ?s0 =
           (Inl ex, ?s0\<lparr>requests := Suc (requests ?s0)\<rparr>)"
    using r assms(4) by (simp add: request_json_live[OF live])
  then show ?thesis
    by (simp add: make_api_request_attempts upt ensure_session_api_calls)
qed

section \<open>Concrete failing refreshes\<close>

lemma demo_after_branches_fields [simp]:
  "session_live demo_after_branches" "not_closed demo_after_branches"
  "ensure_session demo_after_branches = demo_after_branches"
  "config demo_after_branches = default_config ''key''"
  "requests demo_after_branches = Suc (Suc (Suc 0))"
  "api_calls demo_after_branches = Suc (Suc 0)"
  "clock_reads demo_after_branches = Suc (Suc (Suc 0))"
  "models_cache demo_after_branches = Some demo_models"
  "repositories_cache demo_after_branches = Some demo_repositories"
  "branches_cache demo_after_branches = [''acme/widgets'' \<mapsto> demo_branches]"
  "models_cache_timestamp demo_after_branches = Some 1000"
  "repositories_cache_timestamp demo_after_branches = Some 1000"
  "branches_cache_timestamp demo_after_branches = [''acme/widgets'' \<mapsto> 1000]"
  "agents demo_after_branches = []" "sleeps demo_after_branches = []"
  by (simp_all add: demo_after_branches_eq ensure_session_live_id session_live_not_closed)

text \<open>
  Claim C3, as the code has it. For list-models and list-repositories: when the call
  attempts a refresh (under \<^verbatim>\<open>force_refresh\<close> or not) and the \<^verbatim>\<open>try\<close> block fails, the call
  returns the prior entry of the slot when there is one, whatever its age, and the
  hardcoded default otherwise. For list-branches the same holds when the \<^verbatim>\<open>try\<close> block
  fails by an exception. When GitHub answers with a status other than 200, list-branches
  returns a failure envelope with the hardcoded branch names whether or not the slot of
  the repository holds an entry.
\<close>

theorem stale_payload_on_failed_refresh:
  "(cache_check e f (models_cache_timestamp s) (truthy_cache (models_cache s)) s = (None, cm) \<and>
    models_try e cm = (Inl xm, fm)
    \<longrightarrow> list_available_models e f s =
          (case truthy_cache (models_cache s) of Some p \<Rightarrow> p | None \<Rightarrow> models_fallback xm, fm))
   \<and> (cache_check e f (repositories_cache_timestamp s) (truthy_cache (repositories_cache s)) s
        = (None, cr) \<and>
    repositories_try e cr = (Inl xr, fr)
    \<longrightarrow> list_repositories e f s =
          (case truthy_cache (repositories_cache s) of Some p \<Rightarrow> p
           | None \<Rightarrow> repositories_fallback xr, fr))
   \<and> (extract_repo_info u = Inr (owner, repo) \<and> branches_try e u f s = (Inl xb, fb)
    \<longrightarrow> list_repository_branches e u f s =
          (case branches_cache s (owner @ ''/'' @ repo) of Some p \<Rightarrow> p
           | None \<Rightarrow> branches_fallback u xb, fb))
   \<and> (extract_repo_info u = Inr (owner, repo) \<and> session_live s \<and>
    cache_check ec f (branches_cache_timestamp s (owner @ ''/'' @ repo))
      (branches_cache s (owner @ ''/'' @ repo)) s = (None, cb) \<and>
    transport ec (requests s) (github_request ec owner repo) = Response st body raw \<and> st \<noteq> 200
    \<longrightarrow> is_failure (fst (list_repository_branches ec u f s)) \<and>
        map_of (fst (list_repository_branches ec u f s)) ''branches'' =
          Some (Val (JList ([JStr ''main'', JStr ''master'', JStr ''develop'']
                            @ (if st = 404 then [] else [JStr ''feature/new-feature''])))))"
proof (intro conjI impI)
  assume "cache_check e f (models_cache_timestamp s) (truthy_cache (models_cache s)) s = (None, cm) \<and>
    models_try e cm = (Inl xm, fm)"
  then show "list_available_models e f s =
          (case truthy_cache (models_cache s) of Some p \<Rightarrow> p | None \<Rightarrow> models_fallback xm, fm)"
    using list_models_refresh_failed[of e f s cm xm fm] by blast
next
  assume "cache_check e f (repositories_cache_timestamp s) (truthy_cache (repositories_cache s)) s
        = (None, cr) \<and> repositories_try e cr = (Inl xr, fr)"
  then show "list_repositories e f s =
          (case truthy_cache (repositories_cache s) of Some p \<Rightarrow> p
           | None \<Rightarrow> repositories_fallback xr, fr)"
    using list_repositories_refresh_failed[of e f s cr xr fr] by blast
next
  assume "extract_repo_info u = Inr (owner, repo) \<and> branches_try e u f s = (Inl xb, fb)"
  then show "list_repository_branches e u f s =
          (case branches_cache s (owner @ ''/'' @ repo) of Some p \<Rightarrow> p
           | None \<Rightarrow> branches_fallback u xb, fb)"
    using list_branches_refresh_raised[of u owner repo e f s xb fb] by blast
next
  assume h: "extract_repo_info u = Inr (owner, repo) \<and> session_live s \<and>
    cache_check ec f (branches_cache_timestamp s (owner @ ''/'' @ repo))
      (branches_cache s (owner @ ''/'' @ repo)) s = (None, cb) \<and>
    transport ec (requests s) (github_request ec owner repo) = Response st body raw \<and> st \<noteq> 200"
  then have p: "extract_repo_info u = Inr (owner, repo)" and l: "session_live s"
    and m: "cache_check ec f (branches_cache_timestamp s (owner @ ''/'' @ repo))
      (branches_cache s (owner @ ''/'' @ repo)) s = (None, cb)"
    and r: "transport ec (requests s) (github_request ec owner repo) = Response st body raw"
    and n: "st \<noteq> 200"
    by blast+
  note st = list_branches_status[OF p l m r n]
  show "is_failure (fst (list_repository_branches ec u f s))"
    unfolding st by (simp add: is_failure_def)
  show "map_of (fst (list_repository_branches ec u f s)) ''branches'' =
          Some (Val (JList ([JStr ''main'', JStr ''master'', JStr ''develop'']
                            @ (if st = 404 then [] else [JStr ''feature/new-feature'']))))"
    unfolding st by simp
qed

lemma demo_timeout_models:
  "models_try (scripted [] (Raises (OtherError [JStr ''timeout''])) (\<lambda>i. 2000)) demo_after_branches
     = (Inl (OtherError [JStr ''timeout'']),
        demo_after_branches\<lparr>api_calls := Suc (Suc (Suc 0)),
                             requests := Suc (Suc (Suc (Suc 0)))\<rparr>)"
  using make_api_request_first_raise[of demo_after_branches
      "scripted [] (Raises (OtherError [JStr ''timeout''])) (\<lambda>i. 2000)"
      "''GET''" "[JStr ''/v0/models'']" JNone "OtherError [JStr ''timeout'']"]
  by (simp add: models_try_def)

lemma demo_timeout_repositories:
  "repositories_try (scripted [] (Raises (OtherError [JStr ''timeout''])) (\<lambda>i. 2000))
     demo_after_branches
     = (Inl (OtherError [JStr ''timeout'']),
        demo_after_branches\<lparr>api_calls := Suc (Suc (Suc 0)),
                             requests := Suc (Suc (Suc (Suc 0)))\<rparr>)"
  using make_api_request_first_raise[of demo_after_branches
      "scripted [] (Raises (OtherError [JStr ''timeout''])) (\<lambda>i. 2000)"
      "''GET''" "[JStr ''/v0/repositories'']" JNone "OtherError [JStr ''timeout'']"]
  by (simp add: repositories_try_def)

lemma demo_timeout_branches:
  "branches_try (scripted [] (Raises (OtherError [JStr ''timeout''])) (\<lambda>i. 2000))
     ''https://github.com/acme/widgets'' True demo_after_branches
     = (Inl (OtherError [JStr ''timeout'']),
        demo_after_branches\<lparr>requests := Suc (Suc (Suc (Suc 0)))\<rparr>)"
  by (simp add: branches_try_def demo_url cache_check_force session_request_live Let_def)

theorem stale_payload_on_failed_refresh_witness:
  "extract_repo_info ''https://github.com/acme/widgets'' = Inr (''acme'', ''widgets'')
   \<and> session_live demo_after_branches
   \<and> models_cache_timestamp demo_after_branches = Some 1000
   \<and> \<not> (float_sub 2000 1000 < cache_duration)
   \<and> list_available_models (scripted [] (Raises (OtherError [JStr ''timeout''])) (\<lambda>i. 2000)) True
        demo_after_branches
      = (demo_models, demo_after_branches\<lparr>api_calls := Suc (Suc (Suc 0)),
                             requests := Suc (Suc (Suc (Suc 0)))\<rparr>)
   \<and> list_repositories (scripted [] (Raises (OtherError [JStr ''timeout''])) (\<lambda>i. 2000)) True
        demo_after_branches
      = (demo_repositories, demo_after_branches\<lparr>api_calls := Suc (Suc (Suc 0)),
                             requests := Suc (Suc (Suc (Suc 0)))\<rparr>)
   \<and> list_repository_branches (scripted [] (Raises (OtherError [JStr ''timeout''])) (\<lambda>i. 2000))
        ''https://github.com/acme/widgets'' True demo_after_branches
      = (demo_branches, demo_after_branches\<lparr>requests := Suc (Suc (Suc (Suc 0)))\<rparr>)
   \<and> is_failure (fst (list_repository_branches
        (scripted [] (Response 500 (Inr JNone) ''Server Error'') (\<lambda>i. 2000))
        ''https://github.com/acme/widgets'' True demo_after_branches))
   \<and> map_of (fst (list_repository_branches
        (scripted [] (Response 500 (Inr JNone) ''Server Error'') (\<lambda>i. 2000))
        ''https://github.com/acme/widgets'' True demo_after_branches)) ''branches''
      = Some (Val (JList [JStr ''main'', JStr ''master'', JStr ''develop'',
                          JStr ''feature/new-feature'']))"
  using stale_payload_on_failed_refresh
    [where e = "scripted [] (Raises (OtherError [JStr ''timeout''])) (\<lambda>i. 2000)" and f = True
       and s = demo_after_branches and cm = demo_after_branches and cr = demo_after_branches
       and xm = "OtherError [JStr ''timeout'']" and xr = "OtherError [JStr ''timeout'']"
       and xb = "OtherError [JStr ''timeout'']"
       and fm = "demo_after_branches\<lparr>api_calls := Suc (Suc (Suc 0)),
                             requests := Suc (Suc (Suc (Suc 0)))\<rparr>"
       and fr = "demo_after_branches\<lparr>api_calls := Suc (Suc (Suc 0)),
                             requests := Suc (Suc (Suc (Suc 0)))\<rparr>"
       and fb = "demo_after_branches\<lparr>requests := Suc (Suc (Suc (Suc 0)))\<rparr>"
       and u = "''https://github.com/acme/widgets''" and owner = "''acme''" and repo = "''widgets''"
       and ec = "scripted [] (Response 500 (Inr JNone) ''Server Error'') (\<lambda>i. 2000)"
       and cb = demo_after_branches and st = 500 and body = "Inr JNone" and raw = "''Server Error''"]
  by (simp add: demo_url cache_check_force demo_timeout_models demo_timeout_repositories
      demo_timeout_branches cache_duration_def float_sub_examples demo_models_def
      demo_repositories_def)

text \<open>
  The claim as the specification words it fails for list-branches: the slot of the
  repository holds a stale entry, the refresh is answered with status 404, and the call
  returns the hardcoded default instead of the stale entry.
\<close>

theorem list_branches_ignores_stale_entry_on_404:
  "branches_cache demo_after_branches ''acme/widgets'' = Some demo_branches
   \<and> fst (list_repository_branches (scripted [] (Response 404 (Inr JNone) ''Not Found'') (\<lambda>i. 2000))
        ''https://github.com/acme/widgets'' True demo_after_branches) \<noteq> demo_branches
   \<and> map_of (fst (list_repository_branches
        (scripted [] (Response 404 (Inr JNone) ''Not Found'') (\<lambda>i. 2000))
        ''https://github.com/acme/widgets'' True demo_after_branches)) ''branches''
      = Some (Val (JList [JStr ''main'', JStr ''master'', JStr ''develop'']))"
  using list_branches_status[of "''https://github.com/acme/widgets''" "''acme''" "''widgets''"
      demo_after_branches "scripted [] (Response 404 (Inr JNone) ''Not Found'') (\<lambda>i. 2000)" True
      demo_after_branches 404 "Inr JNone" "''Not Found''"]
  by (simp add: demo_url cache_check_force demo_branches_def)

section \<open>Envelopes of failed fetches\<close>

lemma usage_try_Inl:
  assumes "usage_try e s = (Inl ex, s2)"
  shows "agents s2 = agents s" and "models_cache s2 = models_cache s"
    and "repositories_cache s2 = repositories_cache s" and "branches_cache s2 = branches_cache s"
proof -
  obtain res s1 where m: "make_api_request e ''GET'' [JStr ''/v0/api-key-info''] JNone s = (res, s1)"
    by (cases "make_api_request e ''GET'' [JStr ''/v0/api-key-info''] JNone s")
  note f = make_api_request_fields[OF m]
  from assms m have "s2 = s1"
    by (auto simp: usage_try_def split: sum.splits json.splits)
  then show "agents s2 = agents s" and "models_cache s2 = models_cache s"
    and "repositories_cache s2 = repositories_cache s" and "branches_cache s2 = branches_cache s"
    using f by simp_all
qed

lemma get_api_usage_failed:
  assumes "usage_try e s = (Inl ex, s2)"
  shows "get_api_usage e s =
     ([(''success'', Val (JBool False)),
       (''error'', Txt (str_exn ex)),
       (''message'', Txt [JStr ''Failed to get API usage information'']),
       (''usage'', Val (JDict
          [(''active_agents'',
            JInt (int (length (filter (\<lambda>a. status a = JStr ''running'') (map snd (agents s)))))),
           (''total_agents_created'', JInt (int (length (agents s))))]))],
      s2)"
  using assms usage_try_Inl(1)[OF assms] by (simp add: get_api_usage_def)

lemma cache_inv_models: "cache_inv s \<Longrightarrow> models_cache s = Some p \<Longrightarrow> is_success p"
  by (simp add: cache_inv_def)

lemma cache_inv_repositories: "cache_inv s \<Longrightarrow> repositories_cache s = Some p \<Longrightarrow> is_success p"
  by (simp add: cache_inv_def)

lemma cache_inv_branches: "cache_inv s \<Longrightarrow> branches_cache s k = Some p \<Longrightarrow> is_success p"
  by (auto simp: cache_inv_def ran_def)

text \<open>
  Claim C4, as the code has it. When the fetch of list-models or list-repositories
  fails and the slot holds no entry, the envelope has \<^verbatim>\<open>success\<close> false and carries the
  hardcoded default; when the slot holds an entry, the envelope returned is that entry
  itself, and its \<^verbatim>\<open>success\<close> is true, as it is for every cached entry. For list-branches:
  a response of a status other than 200 gives \<^verbatim>\<open>success\<close> false with the common branch
  names; a fetch that raises gives \<^verbatim>\<open>success\<close> false with the common branch names when
  the slot of the repository is empty, and the cached entry, with \<^verbatim>\<open>success\<close> true,
  otherwise. When the fetch of usage fails, the envelope has \<^verbatim>\<open>success\<close> false and carries
  the counts of the local registry.
\<close>

theorem failed_fetch_envelope:
  "(cache_inv s \<and>
    cache_check e f (models_cache_timestamp s) (truthy_cache (models_cache s)) s = (None, cm) \<and>
    models_try e cm = (Inl xm, fm)
    \<longrightarrow> (case truthy_cache (models_cache s) of
           None \<Rightarrow>
             is_failure (fst (list_available_models e f s)) \<and>
             map_of (fst (list_available_models e f s)) ''models'' =
               Some (Val (JList [JStr ''claude-4-sonnet-thinking'', JStr ''o3'',
                                 JStr ''claude-4-opus-thinking'']))
         | Some p \<Rightarrow>
             fst (list_available_models e f s) = p \<and>
             is_success (fst (list_available_models e f s))))
   \<and> (cache_inv s \<and>
    cache_check e f (repositories_cache_timestamp s) (truthy_cache (repositories_cache s)) s
      = (None, cr) \<and>
    repositories_try e cr = (Inl xr, fr)
    \<longrightarrow> (case truthy_cache (repositories_cache s) of
           None \<Rightarrow>
             is_failure (fst (list_repositories e f s)) \<and>
             map_of (fst (list_repositories e f s)) ''repositories'' = Some (Val (JList []))
         | Some p \<Rightarrow>
             fst (list_repositories e f s) = p \<and>
             is_success (fst (list_repositories e f s))))
   \<and> (cache_inv s \<and> extract_repo_info u = Inr (owner, repo) \<and>
    branches_try e u f s = (Inl xb, fb)
    \<longrightarrow> (case branches_cache s (owner @ ''/'' @ repo) of
           None \<Rightarrow>
             is_failure (fst (list_repository_branches e u f s)) \<and>
             map_of (fst (list_repository_branches e u f s)) ''branches'' =
               Some (Val (JList [JStr ''main'', JStr ''master'', JStr ''develop'']))
         | Some p \<Rightarrow>
             fst (list_repository_branches e u f s) = p \<and>
             is_success (fst (list_repository_branches e u f s))))
   \<and> (extract_repo_info u = Inr (owner, repo) \<and> session_live s \<and>
    cache_check ec f (branches_cache_timestamp s (owner @ ''/'' @ repo))
      (branches_cache s (owner @ ''/'' @ repo)) s = (None, cb) \<and>
    transport ec (requests s) (github_request ec owner repo) = Response st body raw \<and> st \<noteq> 200
    \<longrightarrow> is_failure (fst (list_repository_branches ec u f s)) \<and>
        map_of (fst (list_repository_branches ec u f s)) ''branches'' =
          Some (Val (JList ([JStr ''main'', JStr ''master'', JStr ''develop'']
                            @ (if st = 404 then [] else [JStr ''feature/new-feature''])))))
   \<and> (usage_try e s = (Inl xu, fu)
    \<longrightarrow> is_failure (fst (get_api_usage e s)) \<and>
        map_of (fst (get_api_usage e s)) ''usage'' =
          Some (Val (JDict
            [(''active_agents'',
              JInt (int (length (filter (\<lambda>a. status a = JStr ''running'')
                                   (map snd (agents s)))))),
             (''total_agents_created'', JInt (int (length (agents s))))])))"
proof (intro conjI impI)
  assume h: "cache_inv s \<and>
    cache_check e f (models_cache_timestamp s) (truthy_cache (models_cache s)) s = (None, cm) \<and>
    models_try e cm = (Inl xm, fm)"
  then have r: "list_available_models e f s =
      (case truthy_cache (models_cache s) of Some p \<Rightarrow> p | None \<Rightarrow> models_fallback xm, fm)"
    using list_models_refresh_failed[of e f s cm xm fm] by blast
  show "case truthy_cache (models_cache s) of
           None \<Rightarrow>
             is_failure (fst (list_available_models e f s)) \<and>
             map_of (fst (list_available_models e f s)) ''models'' =
               Some (Val (JList [JStr ''claude-4-sonnet-thinking'', JStr ''o3'',
                                 JStr ''claude-4-opus-thinking'']))
         | Some p \<Rightarrow>
             fst (list_available_models e f s) = p \<and>
             is_success (fst (list_available_models e f s))"
  proof (cases "truthy_cache (models_cache s)")
    case None
    then show ?thesis
      unfolding r by (simp add: models_fallback_def is_failure_def)
  next
    case (Some p)
    then have "is_success p"
      using h truthy_cache_Some[OF Some] cache_inv_models by blast
    then show ?thesis
      unfolding r using Some by simp
  qed
next
  assume h: "cache_inv s \<and>
    cache_check e f (repositories_cache_timestamp s) (truthy_cache (repositories_cache s)) s
      = (None, cr) \<and>
    repositories_try e cr = (Inl xr, fr)"
  then have r: "list_repositories e f s =
      (case truthy_cache (repositories_cache s) of Some p \<Rightarrow> p
       | None \<Rightarrow> repositories_fallback xr, fr)"
    using list_repositories_refresh_failed[of e f s cr xr fr] by blast
  show "case truthy_cache (repositories_cache s) of
           None \<Rightarrow>
             is_failure (fst (list_repositories e f s)) \<and>
             map_of (fst (list_repositories e f s)) ''repositories'' = Some (Val (JList []))
         | Some p \<Rightarrow>
             fst (list_repositories e f s) = p \<and>
             is_success (fst (list_repositories e f s))"
  proof (cases "truthy_cache (repositories_cache s)")
    case None
    then show ?thesis
      unfolding r by (simp add: repositories_fallback_def is_failure_def)
  next
    case (Some p)
    then have "is_success p"
      using h truthy_cache_Some[OF Some] cache_inv_repositories by blast
    then show ?thesis
      unfolding r using Some by simp
  qed
next
  assume h: "cache_inv s \<and> extract_repo_info u = Inr (owner, repo) \<and>
    branches_try e u f s = (Inl xb, fb)"
  then have r: "list_repository_branches e u f s =
      (case branches_cache s (owner @ ''/'' @ repo) of Some p \<Rightarrow> p
       | None \<Rightarrow> branches_fallback u xb, fb)"
    using list_branches_refresh_raised[of u owner repo e f s xb fb] by blast
  show "case branches_cache s (owner @ ''/'' @ repo) of
           None \<Rightarrow>
             is_failure (fst (list_repository_branches e u f s)) \<and>
             map_of (fst (list_repository_branches e u f s)) ''branches'' =
               Some (Val (JList [JStr ''main'', JStr ''master'', JStr ''develop'']))
         | Some p \<Rightarrow>
             fst (list_repository_branches e u f s) = p \<and>
             is_success (fst (list_repository_branches e u f s))"
  proof (cases "branches_cache s (owner @ ''/'' @ repo)")
    case None
    then show ?thesis
      unfolding r by (simp add: branches_fallback_def is_failure_def)
  next
    case (Some p)
    then have "is_success p"
      using h cache_inv_branches by blast
    then show ?thesis
      unfolding r using Some by simp
  qed
next
  assume h: "extract_repo_info u = Inr (owner, repo) \<and> session_live s \<and>
    cache_check ec f (branches_cache_timestamp s (owner @ ''/'' @ repo))
      (branches_cache s (owner @ ''/'' @ repo)) s = (None, cb) \<and>
    transport ec (requests s) (github_request ec owner repo) = Response st body raw \<and> st \<noteq> 200"
  then have p: "extract_repo_info u = Inr (owner, repo)" and l: "session_live s"
    and m: "cache_check ec f (branches_cache_timestamp s (owner @ ''/'' @ repo))
      (branches_cache s (owner @ ''/'' @ repo)) s = (None, cb)"
    and r: "transport ec (requests s) (github_request ec owner repo) = Response st body raw"
    and n: "st \<noteq> 200"
    by blast+
  note st = list_branches_status[OF p l m r n]
  show "is_failure (fst (list_repository_branches ec u f s))"
    unfolding st by (simp add: is_failure_def)
  show "map_of (fst (list_repository_branches ec u f s)) ''branches'' =
          Some (Val (JList ([JStr ''main'', JStr ''master'', JStr ''develop'']
                            @ (if st = 404 then [] else [JStr ''feature/new-feature'']))))"
    unfolding st by simp
next
  assume h: "usage_try e s = (Inl xu, fu)"
  note r = get_api_usage_failed[OF h]
  show "is_failure (fst (get_api_usage e s))"
    unfolding r by (simp add: is_failure_def)
  show "map_of (fst (get_api_usage e s)) ''usage'' =
          Some (Val (JDict
            [(''active_agents'',
              JInt (int (length (filter (\<lambda>a. status a = JStr ''running'')
                                   (map snd (agents s)))))),
             (''total_agents_created'', JInt (int (length (agents s))))]))"
    unfolding r by simp
qed

lemma demo_cache_inv: "cache_inv demo_after_branches" "cache_inv demo_server"
  by (simp_all add: cache_inv_def is_success_def demo_models_def demo_repositories_def
      demo_branches_def)

lemma demo_timeout_usage:
  "usage_try (scripted [] (Raises (OtherError [JStr ''timeout''])) (\<lambda>i. 2000)) demo_after_branches
     = (Inl (OtherError [JStr ''timeout'']),
        demo_after_branches\<lparr>api_calls := Suc (Suc (Suc 0)),
                             requests := Suc (Suc (Suc (Suc 0)))\<rparr>)"
  using make_api_request_first_raise[of demo_after_branches
      "scripted [] (Raises (OtherError [JStr ''timeout''])) (\<lambda>i. 2000)"
      "''GET''" "[JStr ''/v0/api-key-info'']" JNone "OtherError [JStr ''timeout'']"]
  by (simp add: usage_try_def)

lemma demo_timeout_fresh_server:
  "models_try (scripted [] (Raises (OtherError [JStr ''timeout''])) (\<lambda>i. 2000)) demo_server
     = (Inl (OtherError [JStr ''timeout'']),
        demo_server\<lparr>api_calls := Suc 0, requests := Suc 0\<rparr>)"
  "repositories_try (scripted [] (Raises (OtherError [JStr ''timeout''])) (\<lambda>i. 2000)) demo_server
     = (Inl (OtherError [JStr ''timeout'']),
        demo_server\<lparr>api_calls := Suc 0, requests := Suc 0\<rparr>)"
  "usage_try (scripted [] (Raises (OtherError [JStr ''timeout''])) (\<lambda>i. 2000)) demo_server
     = (Inl (OtherError [JStr ''timeout'']),
        demo_server\<lparr>api_calls := Suc 0, requests := Suc 0\<rparr>)"
  "branches_try (scripted [] (Raises (OtherError [JStr ''timeout''])) (\<lambda>i. 2000))
     ''https://github.com/acme/widgets'' True demo_server
     = (Inl (OtherError [JStr ''timeout'']), demo_server\<lparr>requests := Suc 0\<rparr>)"
proof -
  let ?w = "scripted [] (Raises (OtherError [JStr ''timeout''])) (\<lambda>i. 2000)"
  have m: "make_api_request ?w ''GET'' ep JNone demo_server =
             (Inl (OtherError [JStr ''timeout'']),
              demo_server\<lparr>api_calls := Suc 0, requests := Suc 0\<rparr>)" for ep
    using make_api_request_first_raise[of demo_server ?w "''GET''" ep JNone
        "OtherError [JStr ''timeout'']"]
    by simp
  show "models_try ?w demo_server
     = (Inl (OtherError [JStr ''timeout'']), demo_server\<lparr>api_calls := Suc 0, requests := Suc 0\<rparr>)"
    by (simp add: models_try_def m)
  show "repositories_try ?w demo_server
     = (Inl (OtherError [JStr ''timeout'']), demo_server\<lparr>api_calls := Suc 0, requests := Suc 0\<rparr>)"
    by (simp add: repositories_try_def m)
  show "usage_try ?w demo_server
     = (Inl (OtherError [JStr ''timeout'']), demo_server\<lparr>api_calls := Suc 0, requests := Suc 0\<rparr>)"
    by (simp add: usage_try_def m)
  show "branches_try ?w ''https://github.com/acme/widgets'' True demo_server
     = (Inl (OtherError [JStr ''timeout'']), demo_server\<lparr>requests := Suc 0\<rparr>)"
    by (simp add: branches_try_def demo_url cache_check_force session_request_live Let_def)
qed

theorem failed_fetch_envelope_witness:
  "cache_inv demo_after_branches \<and> cache_inv demo_server
   \<and> extract_repo_info ''https://github.com/acme/widgets'' = Inr (''acme'', ''widgets'')
   \<and> session_live demo_after_branches
   \<and> fst (list_available_models (scripted [] (Raises (OtherError [JStr ''timeout''])) (\<lambda>i. 2000))
        True demo_after_branches) = demo_models
   \<and> is_success (fst (list_available_models
        (scripted [] (Raises (OtherError [JStr ''timeout''])) (\<lambda>i. 2000)) True demo_after_branches))
   \<and> is_success (fst (list_repositories
        (scripted [] (Raises (OtherError [JStr ''timeout''])) (\<lambda>i. 2000)) True demo_after_branches))
   \<and> is_success (fst (list_repository_branches
        (scripted [] (Raises (OtherError [JStr ''timeout''])) (\<lambda>i. 2000))
        ''https://github.com/acme/widgets'' True demo_after_branches))
   \<and> is_failure (fst (list_repository_branches
        (scripted [] (Response 500 (Inr JNone) ''Server Error'') (\<lambda>i. 2000))
        ''https://github.com/acme/widgets'' True demo_after_branches))
   \<and> is_failure (fst (get_api_usage
        (scripted [] (Raises (OtherError [JStr ''timeout''])) (\<lambda>i. 2000)) demo_after_branches))
   \<and> map_of (fst (get_api_usage
        (scripted [] (Raises (OtherError [JStr ''timeout''])) (\<lambda>i. 2000)) demo_after_branches))
        ''usage''
      = Some (Val (JDict [(''active_agents'', JInt 0), (''total_agents_created'', JInt 0)]))
   \<and> is_failure (fst (list_available_models
        (scripted [] (Raises (OtherError [JStr ''timeout''])) (\<lambda>i. 2000)) True demo_server))
   \<and> map_of (fst (list_available_models
        (scripted [] (Raises (OtherError [JStr ''timeout''])) (\<lambda>i. 2000)) True demo_server))
        ''models''
      = Some (Val (JList [JStr ''claude-4-sonnet-thinking'', JStr ''o3'',
                          JStr ''claude-4-opus-thinking'']))
   \<and> is_failure (fst (list_repositories
        (scripted [] (Raises (OtherError [JStr ''timeout''])) (\<lambda>i. 2000)) True demo_server))
   \<and> map_of (fst (list_repositories
        (scripted [] (Raises (OtherError [JStr ''timeout''])) (\<lambda>i. 2000)) True demo_server))
        ''repositories'' = Some (Val (JList []))
   \<and> is_failure (fst (list_repository_branches
        (scripted [] (Raises (OtherError [JStr ''timeout''])) (\<lambda>i. 2000))
        ''https://github.com/acme/widgets'' True demo_server))
   \<and> map_of (fst (list_repository_branches
        (scripted [] (Raises (OtherError [JStr ''timeout''])) (\<lambda>i. 2000))
        ''https://github.com/acme/widgets'' True demo_server)) ''branches''
      = Some (Val (JList [JStr ''main'', JStr ''master'', JStr ''develop'']))"
proof -
  let ?w = "scripted [] (Raises (OtherError [JStr ''timeout''])) (\<lambda>i. 2000)"
  let ?x = "OtherError [JStr ''timeout'']"
  note stale = failed_fetch_envelope
    [where e = ?w and f = True
       and s = demo_after_branches and cm = demo_after_branches and cr = demo_after_branches
       and xm = ?x and xr = ?x and xb = ?x and xu = ?x
       and fm = "demo_after_branches\<lparr>api_calls := Suc (Suc (Suc 0)),
                             requests := Suc (Suc (Suc (Suc 0)))\<rparr>"
       and fr = "demo_after_branches\<lparr>api_calls := Suc (Suc (Suc 0)),
                             requests := Suc (Suc (Suc (Suc 0)))\<rparr>"
       and fu = "demo_after_branches\<lparr>api_calls := Suc (Suc (Suc 0)),
                             requests := Suc (Suc (Suc (Suc 0)))\<rparr>"
       and fb = "demo_after_branches\<lparr>requests := Suc (Suc (Suc (Suc 0)))\<rparr>"
       and u = "''https://github.com/acme/widgets''" and owner = "''acme''" and repo = "''widgets''"
       and ec = "scripted [] (Response 500 (Inr JNone) ''Server Error'') (\<lambda>i. 2000)"
       and cb = demo_after_branches and st = 500 and body = "Inr JNone" and raw = "''Server Error''"]
  note none = failed_fetch_envelope
    [where e = ?w and f = True
       and s = demo_server and cm = demo_server and cr = demo_server
       and xm = ?x and xr = ?x and xb = ?x and xu = ?x
       and fm = "demo_server\<lparr>api_calls := Suc 0, requests := Suc 0\<rparr>"
       and fr = "demo_server\<lparr>api_calls := Suc 0, requests := Suc 0\<rparr>"
       and fu = "demo_server\<lparr>api_calls := Suc 0, requests := Suc 0\<rparr>"
       and fb = "demo_server\<lparr>requests := Suc 0\<rparr>"
       and u = "''https://github.com/acme/widgets''" and owner = "''acme''" and repo = "''widgets''"
       and ec = "scripted [] (Response 500 (Inr JNone) ''Server Error'') (\<lambda>i. 2000)"
       and cb = demo_server and st = 500 and body = "Inr JNone" and raw = "''Server Error''"]
  have a: "?thesis"
    using stale none
    by (simp add: demo_cache_inv demo_url cache_check_force demo_timeout_models
        demo_timeout_repositories demo_timeout_branches demo_timeout_usage
        demo_timeout_fresh_server demo_models_def demo_repositories_def demo_branches_def
        is_success_def is_failure_def)
  then show ?thesis .
qed

text \<open>
  The claim as the specification words it fails where a stale cached value is served:
  the fetch of list-models fails, and the envelope returned has \<^verbatim>\<open>success\<close> true.
\<close>

theorem list_models_stale_envelope_reports_success:
  "fst (models_try (scripted [] (Raises (OtherError [JStr ''timeout''])) (\<lambda>i. 2000))
          demo_after_branches) = Inl (OtherError [JStr ''timeout''])
   \<and> is_success (fst (list_available_models
        (scripted [] (Raises (OtherError [JStr ''timeout''])) (\<lambda>i. 2000)) True demo_after_branches))
   \<and> \<not> is_failure (fst (list_available_models
        (scripted [] (Raises (OtherError [JStr ''timeout''])) (\<lambda>i. 2000)) True demo_after_branches))"
  using list_models_refresh_failed[of "scripted [] (Raises (OtherError [JStr ''timeout''])) (\<lambda>i. 2000)"
      True demo_after_branches demo_after_branches "OtherError [JStr ''timeout'']"
      "demo_after_branches\<lparr>api_calls := Suc (Suc (Suc 0)),
                             requests := Suc (Suc (Suc (Suc 0)))\<rparr>"]
  by (simp add: cache_check_force demo_timeout_models demo_models_def is_success_def
      is_failure_def)

section \<open>The cache invariant\<close>

lemma cache_inv_same:
  assumes "models_cache s2 = models_cache s" and "repositories_cache s2 = repositories_cache s"
    and "branches_cache s2 = branches_cache s"
  shows "cache_inv s2 = cache_inv s"
  using assms by (simp add: cache_inv_def)

lemma cache_inv_init: "cache_inv (init cfg)"
  by (simp add: cache_inv_def)

lemma cache_inv_clear: "cache_inv (clear_cache s)"
  by (simp add: cache_inv_def clear_cache_def)

lemma cache_inv_ensure: "cache_inv (ensure_session s) = cache_inv s"
  by (rule cache_inv_same) simp_all

lemma cache_inv_cleanup: "cache_inv (cleanup s) = cache_inv s"
  by (rule cache_inv_same) (auto simp: cleanup_def split: option.splits)

lemma utcnow_fields [simp]:
  "models_cache (snd (utcnow_isoformat e s)) = models_cache s"
  "repositories_cache (snd (utcnow_isoformat e s)) = repositories_cache s"
  "branches_cache (snd (utcnow_isoformat e s)) = branches_cache s"
  "models_cache (snd (utcnow_ts e s)) = models_cache s"
  "repositories_cache (snd (utcnow_ts e s)) = repositories_cache s"
  "branches_cache (snd (utcnow_ts e s)) = branches_cache s"
  "agents (snd (utcnow_isoformat e s)) = agents s"
  "agents (snd (utcnow_ts e s)) = agents s"
  by (simp_all add: utcnow_isoformat_def utcnow_ts_def)

lemma create_caches:
  "models_cache (snd (create_background_agent e args s)) = models_cache s
   \<and> repositories_cache (snd (create_background_agent e args s)) = repositories_cache s
   \<and> branches_cache (snd (create_background_agent e args s)) = branches_cache s"
proof -
  let ?payload = "JDict
            [(''prompt'', JDict [(''text'', the (map_of args ''prompt''))]),
             (''source'', JDict [(''repository'', the (map_of args ''repository_url'')),
                                 (''ref'', dict_get args ''branch'' (JStr ''main''))]),
             (''model'', dict_get args ''model'' (JStr ''claude-3-5-sonnet'')),
             (''target'', JDict [(''autoCreatePr'', JBool True)])]"
  obtain res s1 where m: "make_api_request e ''POST'' [JStr ''/v0/agents''] ?payload s = (res, s1)"
    by (cases "make_api_request e ''POST'' [JStr ''/v0/agents''] ?payload s")
  note f = make_api_request_fields[OF m]
  show ?thesis
    using m f
    by (auto simp: create_background_agent_def create_try_def dict_item_def Let_def
        utcnow_isoformat_def utcnow_ts_def
        split: option.splits sum.splits prod.splits json.splits if_splits)
qed

lemma get_status_caches:
  "models_cache (snd (get_agent_status e args s)) = models_cache s
   \<and> repositories_cache (snd (get_agent_status e args s)) = repositories_cache s
   \<and> branches_cache (snd (get_agent_status e args s)) = branches_cache s"
proof (cases "map_of args ''agent_id''")
  case None
  then show ?thesis
    by (simp add: get_agent_status_def get_status_try_def dict_item_def)
next
  case (Some aid)
  obtain res s1 where m: "make_api_request e ''GET'' [JStr ''/v0/agents/'', aid] JNone s = (res, s1)"
    by (cases "make_api_request e ''GET'' [JStr ''/v0/agents/'', aid] JNone s")
  note f = make_api_request_fields[OF m]
  show ?thesis
    using m f Some
    by (auto simp: get_agent_status_def get_status_try_def dict_item_def Let_def
        utcnow_isoformat_def
        split: option.splits sum.splits prod.splits json.splits if_splits)
qed

lemma followup_caches:
  "models_cache (snd (add_followup_instruction e args s)) = models_cache s
   \<and> repositories_cache (snd (add_followup_instruction e args s)) = repositories_cache s
   \<and> branches_cache (snd (add_followup_instruction e args s)) = branches_cache s"
proof (cases "map_of args ''agent_id''")
  case None
  then show ?thesis
    by (simp add: add_followup_instruction_def followup_try_def dict_item_def)
next
  case (Some aid)
  show ?thesis
  proof (cases "map_of args ''instruction''")
    case None
    then show ?thesis
      using Some by (simp add: add_followup_instruction_def followup_try_def dict_item_def)
  next
    case ins: (Some instruction)
    obtain res s1 where m: "make_api_request e ''POST'' [JStr ''/v0/agents/'', aid, JStr ''/followup'']
        (JDict [(''instruction'', instruction)]) s = (res, s1)"
      by (cases "make_api_request e ''POST'' [JStr ''/v0/agents/'', aid, JStr ''/followup'']
        (JDict [(''instruction'', instruction)]) s")
    note f = make_api_request_fields[OF m]
    show ?thesis
      using m f Some ins
      by (auto simp: add_followup_instruction_def followup_try_def dict_item_def
          split: sum.splits prod.splits)
  qed
qed

lemma stop_caches:
  "models_cache (snd (stop_background_agent e args s)) = models_cache s
   \<and> repositories_cache (snd (stop_background_agent e args s)) = repositories_cache s
   \<and> branches_cache (snd (stop_background_agent e args s)) = branches_cache s"
proof (cases "map_of args ''agent_id''")
  case None
  then show ?thesis
    by (simp add: stop_background_agent_def stop_try_def dict_item_def)
next
  case (Some aid)
  obtain res s1 where m: "make_api_request e ''DELETE'' [JStr ''/v0/agents/'', aid] JNone s = (res, s1)"
    by (cases "make_api_request e ''DELETE'' [JStr ''/v0/agents/'', aid] JNone s")
  note f = make_api_request_fields[OF m]
  show ?thesis
    using m f Some
    by (auto simp: stop_background_agent_def stop_try_def dict_item_def Let_def
        utcnow_isoformat_def
        split: option.splits sum.splits prod.splits if_splits)
qed

lemma sync_agents_caches:
  "models_cache (snd (sync_agents e items s)) = models_cache s
   \<and> repositories_cache (snd (sync_agents e items s)) = repositories_cache s
   \<and> branches_cache (snd (sync_agents e items s)) = branches_cache s"
  by (induction e items s rule: sync_agents.induct)
    (auto simp: Let_def utcnow_isoformat_def split: option.splits)

lemma list_agents_state:
  "snd (list_background_agents e args s) = snd (list_agents_try e args s)"
  by (auto simp: list_background_agents_def split: prod.splits sum.splits)

lemma list_agents_caches:
  "models_cache (snd (list_background_agents e args s)) = models_cache s
   \<and> repositories_cache (snd (list_background_agents e args s)) = repositories_cache s
   \<and> branches_cache (snd (list_background_agents e args s)) = branches_cache s"
proof -
  obtain res s1 where m: "make_api_request e ''GET'' (agents_endpoint args) JNone s = (res, s1)"
    by (cases "make_api_request e ''GET'' (agents_endpoint args) JNone s")
  note f = make_api_request_fields[OF m]
  have "models_cache (snd (list_agents_try e args s)) = models_cache s
   \<and> repositories_cache (snd (list_agents_try e args s)) = repositories_cache s
   \<and> branches_cache (snd (list_agents_try e args s)) = branches_cache s"
  proof (cases res)
    case (Inl ex)
    then show ?thesis using m f by (simp add: list_agents_try_def)
  next
    case resp: (Inr response)
    show ?thesis
    proof (cases "py_get response ''agents'' (JList [])")
      case (Inl ex)
      then show ?thesis using m f resp by (simp add: list_agents_try_def)
    next
      case got: (Inr agent_list)
      show ?thesis
      proof (cases "py_iter agent_list")
        case (Inl ex)
        then show ?thesis using m f resp got by (simp add: list_agents_try_def)
      next
        case it: (Inr items)
        obtain r s2 where sy: "sync_agents e items s1 = (r, s2)"
          by (cases "sync_agents e items s1")
        have c: "models_cache s2 = models_cache s1"
          "repositories_cache s2 = repositories_cache s1"
          "branches_cache s2 = branches_cache s1"
          using sync_agents_caches[of e items s1] sy by simp_all
        show ?thesis
          using m f resp got it sy c
          by (auto simp: list_agents_try_def split: option.splits sum.splits)
      qed
    qed
  qed
  then show ?thesis by (simp add: list_agents_state)
qed

lemma usage_caches:
  "models_cache (snd (get_api_usage e s)) = models_cache s
   \<and> repositories_cache (snd (get_api_usage e s)) = repositories_cache s
   \<and> branches_cache (snd (get_api_usage e s)) = branches_cache s"
proof -
  obtain res s1 where m: "make_api_request e ''GET'' [JStr ''/v0/api-key-info''] JNone s = (res, s1)"
    by (cases "make_api_request e ''GET'' [JStr ''/v0/api-key-info''] JNone s")
  note f = make_api_request_fields[OF m]
  show ?thesis
    using m f
    by (auto simp: get_api_usage_def usage_try_def split: sum.splits prod.splits json.splits)
qed

lemma list_models_cache_inv:
  assumes "cache_inv s"
  shows "cache_inv (snd (list_available_models e f s))"
proof -
  obtain c sa where cc: "cache_check e f (models_cache_timestamp s)
      (truthy_cache (models_cache s)) s = (c, sa)"
    by (cases "cache_check e f (models_cache_timestamp s) (truthy_cache (models_cache s)) s")
  note cf = cache_check_fields[OF cc]
  have inv_a: "cache_inv sa"
    using assms cf cache_inv_same[of sa s] by simp
  show ?thesis
  proof (cases c)
    case (Some cached)
    then show ?thesis using cc inv_a by (simp add: list_available_models_def)
  next
    case None
    obtain res sb where mt: "models_try e sa = (res, sb)"
      by (cases "models_try e sa")
    have inv_b: "cache_inv sb"
    proof (cases res)
      case (Inl ex)
      then show ?thesis
        using models_try_Inl[of e sa ex sb] mt inv_a cache_inv_same[of sb sa] by simp
    next
      case (Inr r)
      then show ?thesis
        using models_try_Inr[of e sa r sb] mt inv_a by (simp add: cache_inv_def)
    qed
    show ?thesis
      using cc None mt inv_b
      by (auto simp: list_available_models_def split: sum.splits option.splits)
  qed
qed

lemma list_repositories_cache_inv:
  assumes "cache_inv s"
  shows "cache_inv (snd (list_repositories e f s))"
proof -
  obtain c sa where cc: "cache_check e f (repositories_cache_timestamp s)
      (truthy_cache (repositories_cache s)) s = (c, sa)"
    by (cases "cache_check e f (repositories_cache_timestamp s)
                 (truthy_cache (repositories_cache s)) s")
  note cf = cache_check_fields[OF cc]
  have inv_a: "cache_inv sa"
    using assms cf cache_inv_same[of sa s] by simp
  show ?thesis
  proof (cases c)
    case (Some cached)
    then show ?thesis using cc inv_a by (simp add: list_repositories_def)
  next
    case None
    obtain res sb where mt: "repositories_try e sa = (res, sb)"
      by (cases "repositories_try e sa")
    have inv_b: "cache_inv sb"
    proof (cases res)
      case (Inl ex)
      then show ?thesis
        using repositories_try_Inl[of e sa ex sb] mt inv_a cache_inv_same[of sb sa] by simp
    next
      case (Inr r)
      then show ?thesis
        using repositories_try_Inr[of e sa r sb] mt inv_a by (simp add: cache_inv_def)
    qed
    show ?thesis
      using cc None mt inv_b
      by (auto simp: list_repositories_def split: sum.splits option.splits)
  qed
qed

lemma list_branches_state: "snd (list_repository_branches e u f s) = snd (branches_try e u f s)"
  by (auto simp: list_repository_branches_def split: prod.splits sum.splits option.splits)

lemma cache_inv_store:
  assumes "cache_inv s" and "is_success r"
    and "models_cache s2 = models_cache s" and "repositories_cache s2 = repositories_cache s"
    and "branches_cache s2 = (branches_cache s)(k \<mapsto> r)"
  shows "cache_inv s2"
  using assms by (auto simp: cache_inv_def ran_def split: if_splits)

lemma branches_try_cache_inv:
  assumes "cache_inv s"
  shows "cache_inv (snd (branches_try e u f s))"
proof (cases "extract_repo_info u")
  case (Inl x)
  then show ?thesis using assms by (simp add: branches_try_def)
next
  case (Inr pr)
  obtain owner repo where pr: "pr = (owner, repo)" by (cases pr)
  let ?key = "owner @ ''/'' @ repo"
  obtain c sa where cc: "cache_check e f (branches_cache_timestamp s ?key)
      (branches_cache s ?key) s = (c, sa)"
    by (cases "cache_check e f (branches_cache_timestamp s ?key) (branches_cache s ?key) s")
  note cf = cache_check_fields[OF cc]
  have inv_a: "cache_inv sa"
    using assms cf cache_inv_same[of sa s] by simp
  show ?thesis
  proof (cases c)
    case (Some cached)
    then show ?thesis using Inr pr cc inv_a by (simp add: branches_try_def)
  next
    case None
    obtain out sb where sr: "session_request e ''get'' (github_request e owner repo) sa = (out, sb)"
      by (cases "session_request e ''get'' (github_request e owner repo) sa")
    note sf = session_request_fields[OF sr]
    have inv_b: "cache_inv sb"
      using inv_a sf cache_inv_same[of sb sa] by simp
    show ?thesis
    proof (cases out)
      case (Raises x)
      then show ?thesis using Inr pr cc None sr inv_b by (simp add: branches_try_def)
    next
      case (Response st body error_text)
      show ?thesis
      proof (cases "st = 200")
        case False
        then show ?thesis
          using Inr pr cc None sr Response inv_b by (simp add: branches_try_def)
      next
        case True
        show ?thesis
        proof (cases body)
          case bad: (Inl x)
          then show ?thesis
            using Inr pr cc None sr Response True inv_b by (simp add: branches_try_def)
        next
        case dec: (Inr branches_data)
        show ?thesis
        proof (cases "branch_names branches_data")
          case (Inl x)
          then show ?thesis
            using Inr pr cc None sr Response True dec inv_b by (simp add: branches_try_def)
        next
          case names: (Inr branches)
          let ?result = "[(''success'', Val (JBool True)),
                         (''repository'', Val (JStr u)),
                         (''owner'', Val (JStr owner)),
                         (''repo'', Val (JStr repo)),
                         (''branches'', Val (JList branches)),
                         (''total_branches'', Val (JInt (int (length branches)))),
                         (''message'', Txt [JStr ''Retrieved '', JInt (int (length branches)),
                                            JStr ('' branches for '' @ owner @ ''/'' @ repo)])]"
          let ?s3 = "sb\<lparr>branches_cache := (branches_cache sb)(?key \<mapsto> ?result),
                        clock_reads := Suc (clock_reads sb),
                        branches_cache_timestamp :=
                          (branches_cache_timestamp sb)(?key \<mapsto> clock e (clock_reads sb))\<rparr>"
          have st: "snd (branches_try e u f s) = ?s3"
            using Inr pr cc None sr Response True dec names
            by (simp add: branches_try_def Let_def)
          have "cache_inv ?s3"
            by (rule cache_inv_store[OF inv_b, of ?result _ ?key]) (simp_all add: is_success_def)
          then show ?thesis unfolding st .
        qed
        qed
      qed
    qed
  qed
qed

lemma step_cache_inv: "cache_inv s \<Longrightarrow> cache_inv (step e s op)"
proof (cases op)
  case (Create args)
  assume "cache_inv s"
  then show ?thesis
    using create_caches[of e args s]
      cache_inv_same[of "snd (create_background_agent e args s)" s] Create by simp
next
  case (GetStatus args)
  assume "cache_inv s"
  then show ?thesis
    using get_status_caches[of e args s]
      cache_inv_same[of "snd (get_agent_status e args s)" s] GetStatus by simp
next
  case (AddFollowup args)
  assume "cache_inv s"
  then show ?thesis
    using followup_caches[of e args s]
      cache_inv_same[of "snd (add_followup_instruction e args s)" s] AddFollowup by simp
next
  case (StopAgent args)
  assume "cache_inv s"
  then show ?thesis
    using stop_caches[of e args s]
      cache_inv_same[of "snd (stop_background_agent e args s)" s] StopAgent by simp
next
  case (ListAgents args)
  assume "cache_inv s"
  then show ?thesis
    using list_agents_caches[of e args s]
      cache_inv_same[of "snd (list_background_agents e args s)" s] ListAgents by simp
next
  case GetUsage
  assume "cache_inv s"
  then show ?thesis
    using usage_caches[of e s] cache_inv_same[of "snd (get_api_usage e s)" s] GetUsage by simp
next
  case (ListModels f)
  assume "cache_inv s"
  then show ?thesis using list_models_cache_inv ListModels by simp
next
  case (ListRepositories f)
  assume "cache_inv s"
  then show ?thesis using list_repositories_cache_inv ListRepositories by simp
next
  case (ListBranches u f)
  assume "cache_inv s"
  then show ?thesis
    using branches_try_cache_inv ListBranches by (simp add: list_branches_state)
next
  case ClearCache
  then show ?thesis by (simp add: cache_inv_clear)
next
  case Initialize
  assume "cache_inv s"
  then show ?thesis using Initialize by (simp add: initialize_def cache_inv_ensure)
next
  case Cleanup
  assume "cache_inv s"
  then show ?thesis using Cleanup by (simp add: cache_inv_cleanup)
qed

lemma run_cache_inv: "cache_inv s \<Longrightarrow> cache_inv (run e ops s)"
  unfolding run_def by (induction ops arbitrary: s) (simp_all add: step_cache_inv)

lemma success_not_failure: "is_success r \<Longrightarrow> \<not> is_failure r"
  by (simp add: is_success_def is_failure_def)

lemma cache_check_nothing_cached:
  "cache_check e f ts None s = (c, sa) \<Longrightarrow> c = None"
  using cache_check_cases[of e f ts None s c sa] by auto

lemma list_models_fetches:
  assumes "truthy_cache (models_cache s) = None"
  shows "api_calls (snd (list_available_models e f s)) = Suc (api_calls s)"
proof -
  obtain c sa where cc: "cache_check e f (models_cache_timestamp s) None s = (c, sa)"
    by (cases "cache_check e f (models_cache_timestamp s) None s")
  have c: "c = None" using cc by (rule cache_check_nothing_cached)
  obtain res sb where mt: "models_try e sa = (res, sb)"
    by (cases "models_try e sa")
  have "api_calls sb = Suc (api_calls sa)"
    using mt models_try_Inr(6)[of e sa _ sb] models_try_Inl(5)[of e sa _ sb] by (cases res) auto
  then show ?thesis
    using assms cc c mt cache_check_fields(10)[OF cc]
    by (auto simp: list_available_models_def split: sum.splits option.splits)
qed

lemma list_models_failure_not_cached:
  assumes "models_cache s = None" and "is_failure (fst (list_available_models e f s))"
  shows "models_cache (snd (list_available_models e f s)) = None"
proof -
  obtain c sa where cc: "cache_check e f (models_cache_timestamp s) None s = (c, sa)"
    by (cases "cache_check e f (models_cache_timestamp s) None s")
  have c: "c = None" using cc by (rule cache_check_nothing_cached)
  obtain res sb where mt: "models_try e sa = (res, sb)"
    by (cases "models_try e sa")
  show ?thesis
  proof (cases res)
    case (Inl ex)
    then have "models_cache sb = None"
      using models_try_Inl(1)[of e sa ex sb] mt cache_check_fields(3)[OF cc] assms(1) by simp
    then show ?thesis
      using assms(1) cc c mt Inl by (simp add: list_available_models_def)
  next
    case (Inr r)
    then have "fst (list_available_models e f s) = r"
      using assms(1) cc c mt by (simp add: list_available_models_def)
    moreover have "is_success r"
      using models_try_Inr(1)[of e sa r sb] mt Inr by simp
    ultimately show ?thesis
      using assms(2) success_not_failure by auto
  qed
qed

lemma list_repositories_fetches:
  assumes "truthy_cache (repositories_cache s) = None"
  shows "api_calls (snd (list_repositories e f s)) = Suc (api_calls s)"
proof -
  obtain c sa where cc: "cache_check e f (repositories_cache_timestamp s) None s = (c, sa)"
    by (cases "cache_check e f (repositories_cache_timestamp s) None s")
  have c: "c = None" using cc by (rule cache_check_nothing_cached)
  obtain res sb where mt: "repositories_try e sa = (res, sb)"
    by (cases "repositories_try e sa")
  have "api_calls sb = Suc (api_calls sa)"
    using mt repositories_try_Inr(6)[of e sa _ sb] repositories_try_Inl(5)[of e sa _ sb]
    by (cases res) auto
  then show ?thesis
    using assms cc c mt cache_check_fields(10)[OF cc]
    by (auto simp: list_repositories_def split: sum.splits option.splits)
qed

lemma list_repositories_failure_not_cached:
  assumes "repositories_cache s = None" and "is_failure (fst (list_repositories e f s))"
  shows "repositories_cache (snd (list_repositories e f s)) = None"
proof -
  obtain c sa where cc: "cache_check e f (repositories_cache_timestamp s) None s = (c, sa)"
    by (cases "cache_check e f (repositories_cache_timestamp s) None s")
  have c: "c = None" using cc by (rule cache_check_nothing_cached)
  obtain res sb where mt: "repositories_try e sa = (res, sb)"
    by (cases "repositories_try e sa")
  show ?thesis
  proof (cases res)
    case (Inl ex)
    then have "repositories_cache sb = None"
      using repositories_try_Inl(1)[of e sa ex sb] mt cache_check_fields(4)[OF cc] assms(1)
      by simp
    then show ?thesis
      using assms(1) cc c mt Inl by (simp add: list_repositories_def)
  next
    case (Inr r)
    then have "fst (list_repositories e f s) = r"
      using assms(1) cc c mt by (simp add: list_repositories_def)
    moreover have "is_success r"
      using repositories_try_Inr(1)[of e sa r sb] mt Inr by simp
    ultimately show ?thesis
      using assms(2) success_not_failure by auto
  qed
qed

lemma list_branches_fetches:
  assumes parse: "extract_repo_info u = Inr (owner, repo)"
    and none: "branches_cache s (owner @ ''/'' @ repo) = None"
    and live: "session_live s"
  shows "requests (snd (list_repository_branches e u f s)) = Suc (requests s)"
proof -
  let ?key = "owner @ ''/'' @ repo"
  obtain c sa where cc: "cache_check e f (branches_cache_timestamp s ?key) None s = (c, sa)"
    by (cases "cache_check e f (branches_cache_timestamp s ?key) None s")
  have c: "c = None" using cc by (rule cache_check_nothing_cached)
  have live_a: "session_live sa" and rq: "requests sa = requests s"
    using cache_check_cases[OF cc] live by auto
  have sr: "session_request e ''get'' (github_request e owner repo) sa
              = (transport e (requests s) (github_request e owner repo),
                 sa\<lparr>requests := Suc (requests s)\<rparr>)"
    using session_request_live[OF live_a] rq by simp
  show ?thesis
    unfolding list_branches_state
    using parse none cc c sr
    by (cases "transport e (requests s) (github_request e owner repo)")
      (auto simp: branches_try_def Let_def split: sum.splits)
qed

lemma list_branches_failure_not_cached:
  assumes parse: "extract_repo_info u = Inr (owner, repo)"
    and none: "branches_cache s (owner @ ''/'' @ repo) = None"
    and fail: "is_failure (fst (list_repository_branches e u f s))"
  shows "branches_cache (snd (list_repository_branches e u f s)) (owner @ ''/'' @ repo) = None"
proof -
  obtain res sb where bt: "branches_try e u f s = (res, sb)"
    by (cases "branches_try e u f s")
  have st: "snd (list_repository_branches e u f s) = sb"
    using bt by (simp add: list_branches_state)
  show ?thesis
  proof (cases res)
    case (Inl ex)
    then show ?thesis
      using branches_try_Inl(1)[of e u f s ex sb] bt none st by simp
  next
    case (Inr r)
    then have r: "fst (list_repository_branches e u f s) = r"
      using bt by (simp add: list_repository_branches_def)
    show ?thesis
    proof (rule ccontr)
      assume "branches_cache (snd (list_repository_branches e u f s)) (owner @ ''/'' @ repo) \<noteq> None"
      then obtain p where p: "branches_cache sb (owner @ ''/'' @ repo) = Some p"
        using st by auto
      obtain c sa where cc: "cache_check e f (branches_cache_timestamp s (owner @ ''/'' @ repo))
          None s = (c, sa)"
        by (cases "cache_check e f (branches_cache_timestamp s (owner @ ''/'' @ repo)) None s")
      have c: "c = None" using cc by (rule cache_check_nothing_cached)
      note cf = cache_check_fields[OF cc]
      obtain out sc where sr: "session_request e ''get'' (github_request e owner repo) sa = (out, sc)"
        by (cases "session_request e ''get'' (github_request e owner repo) sa")
      note sf = session_request_fields[OF sr]
      have "is_success r"
        using bt Inr parse none cc c sr p cf sf
        by (cases out)
          (auto simp: branches_try_def Let_def is_success_def split: sum.splits if_splits)
      then show False
        using fail r success_not_failure by auto
    qed
  qed
qed

lemma request_json_requests: "requests s \<le> requests (snd (request_json e rq s))"
  by (auto simp: request_json_def session_request_def split: option.splits prod.splits)

lemma attempts_requests_mono: "requests s \<le> requests (snd (attempts e rq n xs s))"
proof (induction xs arbitrary: s)
  case Nil
  show ?case by simp
next
  case (Cons a xs)
  obtain res s1 where rj: "request_json e rq s = (res, s1)"
    by (cases "request_json e rq s")
  have le: "requests s \<le> requests s1"
    using request_json_requests[of s e rq] rj by simp
  have "requests s1 \<le> requests (snd (attempts e rq n xs (s1\<lparr>sleeps := sleeps s1 @ [2 ^ a]\<rparr>)))"
    using Cons.IH[of "s1\<lparr>sleeps := sleeps s1 @ [2 ^ a]\<rparr>"] by simp
  then have more: "requests s
      \<le> requests (snd (attempts e rq n xs (s1\<lparr>sleeps := sleeps s1 @ [2 ^ a]\<rparr>)))"
    using le by simp
  have "snd (attempts e rq n (a # xs) s) = s1
        \<or> snd (attempts e rq n (a # xs) s)
            = snd (attempts e rq n xs (s1\<lparr>sleeps := sleeps s1 @ [2 ^ a]\<rparr>))"
    by (cases res) (auto simp: rj)
  then show ?case
    using le more by auto
qed

lemma attempts_sends:
  assumes "session_live s"
  shows "requests s < requests (snd (attempts e rq n (a # xs) s))"
proof -
  let ?s1 = "s\<lparr>requests := Suc (requests s)\<rparr>"
  have rj: "request_json e rq s = (decoded (transport e (requests s) rq), ?s1)"
    using assms by (rule request_json_live)
  have "Suc (requests s)
      \<le> requests (snd (attempts e rq n xs (?s1\<lparr>sleeps := sleeps ?s1 @ [2 ^ a]\<rparr>)))"
    using attempts_requests_mono[of "?s1\<lparr>sleeps := sleeps ?s1 @ [2 ^ a]\<rparr>" e rq n xs] by simp
  then have more: "requests s
      < requests (snd (attempts e rq n xs (?s1\<lparr>sleeps := sleeps ?s1 @ [2 ^ a]\<rparr>)))"
    by simp
  have "snd (attempts e rq n (a # xs) s) = ?s1
        \<or> snd (attempts e rq n (a # xs) s)
            = snd (attempts e rq n xs (?s1\<lparr>sleeps := sleeps ?s1 @ [2 ^ a]\<rparr>))"
    by (cases "decoded (transport e (requests s) rq)") (auto simp: rj)
  then show ?thesis
    using more by auto
qed

text \<open>A call of \<^verbatim>\<open>_make_api_request\<close> whose session can be used and whose configuration
  allows an attempt sends a request.\<close>

lemma make_api_request_sends:
  assumes "not_closed s" and "0 < max_retries (config s)"
  shows "requests s < requests (snd (make_api_request e meth endpoint data s))"
proof -
  let ?s0 = "ensure_session (s\<lparr>api_calls := Suc (api_calls s)\<rparr>)"
  have live: "session_live ?s0"
    using assms(1) by (intro ensure_session_live) simp
  have upt: "[0 ..< nat (max_retries (config s))] = 0 # [1 ..< nat (max_retries (config s))]"
    using assms(2) by (simp add: upt_conv_Cons)
  show ?thesis
    using attempts_sends[OF live, of e "api_request s meth endpoint data"
        "max_retries (config s)" 0 "[1 ..< nat (max_retries (config s))]"]
    by (simp add: make_api_request_attempts upt)
qed

lemma models_try_requests:
  "requests (snd (models_try e s))
     = requests (snd (make_api_request e ''GET'' [JStr ''/v0/models''] JNone s))"
  by (auto simp: models_try_def split: prod.splits sum.splits)

lemma repositories_try_requests:
  "requests (snd (repositories_try e s))
     = requests (snd (make_api_request e ''GET'' [JStr ''/v0/repositories''] JNone s))"
  by (auto simp: repositories_try_def split: prod.splits sum.splits)

lemma list_models_sends:
  assumes "truthy_cache (models_cache s) = None"
    and "not_closed s" and "0 < max_retries (config s)"
  shows "requests s < requests (snd (list_available_models e f s))"
proof -
  obtain c sa where cc: "cache_check e f (models_cache_timestamp s) None s = (c, sa)"
    by (cases "cache_check e f (models_cache_timestamp s) None s")
  have c: "c = None" using cc by (rule cache_check_nothing_cached)
  note cf = cache_check_fields[OF cc]
  have nc: "not_closed sa"
    using assms(2) cf(11) by (simp add: not_closed_def)
  have "requests sa < requests (snd (make_api_request e ''GET'' [JStr ''/v0/models''] JNone sa))"
    using nc assms(3) cf(2) by (intro make_api_request_sends) simp_all
  then have "requests s < requests (snd (models_try e sa))"
    using cf(9) by (simp add: models_try_requests)
  moreover have "snd (list_available_models e f s) = snd (models_try e sa)"
    using assms(1) cc c
    by (auto simp: list_available_models_def split: prod.splits sum.splits option.splits)
  ultimately show ?thesis by simp
qed

lemma list_repositories_sends:
  assumes "truthy_cache (repositories_cache s) = None"
    and "not_closed s" and "0 < max_retries (config s)"
  shows "requests s < requests (snd (list_repositories e f s))"
proof -
  obtain c sa where cc: "cache_check e f (repositories_cache_timestamp s) None s = (c, sa)"
    by (cases "cache_check e f (repositories_cache_timestamp s) None s")
  have c: "c = None" using cc by (rule cache_check_nothing_cached)
  note cf = cache_check_fields[OF cc]
  have nc: "not_closed sa"
    using assms(2) cf(11) by (simp add: not_closed_def)
  have "requests sa
      < requests (snd (make_api_request e ''GET'' [JStr ''/v0/repositories''] JNone sa))"
    using nc assms(3) cf(2) by (intro make_api_request_sends) simp_all
  then have "requests s < requests (snd (repositories_try e sa))"
    using cf(9) by (simp add: repositories_try_requests)
  moreover have "snd (list_repositories e f s) = snd (repositories_try e sa)"
    using assms(1) cc c
    by (auto simp: list_repositories_def split: prod.splits sum.splits option.splits)
  ultimately show ?thesis by simp
qed

text \<open>
  Claim C10. Every dictionary held in a cache slot is a success envelope: this holds
  in the initial state, every operation of the server keeps it, and so it holds after
  every sequence of operations. A call of list-models, list-repositories or
  list-branches that finds no entry in its slot and returns a failure envelope leaves
  the slot empty, and the next call for that slot, under any world and whether or not
  \<^verbatim>\<open>force_refresh\<close> is set, goes to the network again: list-models and list-repositories
  call \<^verbatim>\<open>_make_api_request\<close>, and with a session that can be used and a configuration
  that allows an attempt at least one more request is sent; list-branches, whose session
  is open, sends its request.
\<close>

theorem only_successful_fetches_are_cached:
  "cache_inv (run e ops (init cfg))
   \<and> (cache_inv s \<longrightarrow> cache_inv (step e s op))
   \<and> (models_cache s = None \<and> is_failure (fst (list_available_models e f s))
      \<longrightarrow> models_cache (snd (list_available_models e f s)) = None \<and>
          api_calls (snd (list_available_models e' f' (snd (list_available_models e f s))))
            = Suc (api_calls (snd (list_available_models e f s))) \<and>
          (not_closed (snd (list_available_models e f s)) \<and>
           0 < max_retries (config (snd (list_available_models e f s)))
           \<longrightarrow> requests (snd (list_available_models e f s))
                 < requests (snd (list_available_models e' f'
                                    (snd (list_available_models e f s))))))
   \<and> (repositories_cache s = None \<and> is_failure (fst (list_repositories e f s))
      \<longrightarrow> repositories_cache (snd (list_repositories e f s)) = None \<and>
          api_calls (snd (list_repositories e' f' (snd (list_repositories e f s))))
            = Suc (api_calls (snd (list_repositories e f s))) \<and>
          (not_closed (snd (list_repositories e f s)) \<and>
           0 < max_retries (config (snd (list_repositories e f s)))
           \<longrightarrow> requests (snd (list_repositories e f s))
                 < requests (snd (list_repositories e' f' (snd (list_repositories e f s))))))
   \<and> (extract_repo_info u = Inr (owner, repo) \<and>
       branches_cache s (owner @ ''/'' @ repo) = None \<and>
       is_failure (fst (list_repository_branches e u f s)) \<and>
       session_live (snd (list_repository_branches e u f s))
      \<longrightarrow> branches_cache (snd (list_repository_branches e u f s)) (owner @ ''/'' @ repo) = None \<and>
          requests (snd (list_repository_branches e' u f' (snd (list_repository_branches e u f s))))
            = Suc (requests (snd (list_repository_branches e u f s))))"
proof (intro conjI impI)
  show "cache_inv (run e ops (init cfg))"
    by (rule run_cache_inv) (rule cache_inv_init)
next
  assume "cache_inv s"
  then show "cache_inv (step e s op)" by (rule step_cache_inv)
next
  assume h: "models_cache s = None \<and> is_failure (fst (list_available_models e f s))"
  then show none: "models_cache (snd (list_available_models e f s)) = None"
    using list_models_failure_not_cached[of s e f] by blast
  show "api_calls (snd (list_available_models e' f' (snd (list_available_models e f s))))
            = Suc (api_calls (snd (list_available_models e f s)))"
    by (rule list_models_fetches) (simp add: none)
  assume "not_closed (snd (list_available_models e f s)) \<and>
           0 < max_retries (config (snd (list_available_models e f s)))"
  then show "requests (snd (list_available_models e f s))
                 < requests (snd (list_available_models e' f'
                                    (snd (list_available_models e f s))))"
    by (intro list_models_sends) (simp_all add: none)
next
  assume h: "repositories_cache s = None \<and> is_failure (fst (list_repositories e f s))"
  then show none: "repositories_cache (snd (list_repositories e f s)) = None"
    using list_repositories_failure_not_cached[of s e f] by blast
  show "api_calls (snd (list_repositories e' f' (snd (list_repositories e f s))))
            = Suc (api_calls (snd (list_repositories e f s)))"
    by (rule list_repositories_fetches) (simp add: none)
  assume "not_closed (snd (list_repositories e f s)) \<and>
           0 < max_retries (config (snd (list_repositories e f s)))"
  then show "requests (snd (list_repositories e f s))
                 < requests (snd (list_repositories e' f' (snd (list_repositories e f s))))"
    by (intro list_repositories_sends) (simp_all add: none)
next
  assume h: "extract_repo_info u = Inr (owner, repo) \<and>
       branches_cache s (owner @ ''/'' @ repo) = None \<and>
       is_failure (fst (list_repository_branches e u f s)) \<and>
       session_live (snd (list_repository_branches e u f s))"
  then have p: "extract_repo_info u = Inr (owner, repo)"
    and n: "branches_cache s (owner @ ''/'' @ repo) = None"
    and fl: "is_failure (fst (list_repository_branches e u f s))"
    and l: "session_live (snd (list_repository_branches e u f s))"
    by blast+
  show none: "branches_cache (snd (list_repository_branches e u f s)) (owner @ ''/'' @ repo) = None"
    using p n fl by (rule list_branches_failure_not_cached)
  show "requests (snd (list_repository_branches e' u f' (snd (list_repository_branches e u f s))))
            = Suc (requests (snd (list_repository_branches e u f s)))"
    using p none l by (rule list_branches_fetches)
qed

lemma demo_timeout_calls:
  "list_available_models (scripted [] (Raises (OtherError [JStr ''timeout''])) (\<lambda>i. 2000)) False
     demo_server
   = (models_fallback (OtherError [JStr ''timeout'']),
      demo_server\<lparr>api_calls := Suc 0, requests := Suc 0\<rparr>)"
  "list_repositories (scripted [] (Raises (OtherError [JStr ''timeout''])) (\<lambda>i. 2000)) False
     demo_server
   = (repositories_fallback (OtherError [JStr ''timeout'']),
      demo_server\<lparr>api_calls := Suc 0, requests := Suc 0\<rparr>)"
  "list_repository_branches (scripted [] (Raises (OtherError [JStr ''timeout''])) (\<lambda>i. 2000))
     ''https://github.com/acme/widgets'' False demo_server
   = (branches_fallback ''https://github.com/acme/widgets'' (OtherError [JStr ''timeout'']),
      demo_server\<lparr>requests := Suc 0\<rparr>)"
proof -
  let ?w = "scripted [] (Raises (OtherError [JStr ''timeout''])) (\<lambda>i. 2000)"
  let ?x = "OtherError [JStr ''timeout'']"
  show "list_available_models ?w False demo_server
   = (models_fallback ?x, demo_server\<lparr>api_calls := Suc 0, requests := Suc 0\<rparr>)"
    using list_models_refresh_failed[of ?w False demo_server demo_server ?x
        "demo_server\<lparr>api_calls := Suc 0, requests := Suc 0\<rparr>"]
    by (simp add: cache_check_no_timestamp demo_timeout_fresh_server)
  show "list_repositories ?w False demo_server
   = (repositories_fallback ?x, demo_server\<lparr>api_calls := Suc 0, requests := Suc 0\<rparr>)"
    using list_repositories_refresh_failed[of ?w False demo_server demo_server ?x
        "demo_server\<lparr>api_calls := Suc 0, requests := Suc 0\<rparr>"]
    by (simp add: cache_check_no_timestamp demo_timeout_fresh_server)
  have bt: "branches_try ?w ''https://github.com/acme/widgets'' False demo_server
     = (Inl ?x, demo_server\<lparr>requests := Suc 0\<rparr>)"
    by (simp add: branches_try_def demo_url cache_check_no_timestamp session_request_live Let_def)
  show "list_repository_branches ?w ''https://github.com/acme/widgets'' False demo_server
   = (branches_fallback ''https://github.com/acme/widgets'' ?x, demo_server\<lparr>requests := Suc 0\<rparr>)"
    using list_branches_refresh_raised[OF demo_url bt] by simp
qed

theorem only_successful_fetches_are_cached_witness:
  "cache_inv demo_server
   \<and> cache_inv (step demo_world demo_server (ListModels False))
   \<and> cache_inv (run demo_world
        [Initialize, ListModels False, ListRepositories False,
         ListBranches ''https://github.com/acme/widgets'' False, ListAgents [],
         AddFollowup [(''agent_id'', JStr ''a1''), (''instruction'', JStr ''Add tests'')],
         StopAgent [(''agent_id'', JStr ''a1'')], GetUsage, Cleanup]
        (init (default_config ''key'')))
   \<and> models_cache demo_server = None
   \<and> is_failure (fst (list_available_models
        (scripted [] (Raises (OtherError [JStr ''timeout''])) (\<lambda>i. 2000)) False demo_server))
   \<and> models_cache (snd (list_available_models
        (scripted [] (Raises (OtherError [JStr ''timeout''])) (\<lambda>i. 2000)) False demo_server)) = None
   \<and> api_calls (snd (list_available_models
        (scripted [] (Raises (OtherError [JStr ''timeout''])) (\<lambda>i. 2000)) False demo_server)) = 1
   \<and> api_calls (snd (list_available_models demo_world False
        (snd (list_available_models
           (scripted [] (Raises (OtherError [JStr ''timeout''])) (\<lambda>i. 2000)) False demo_server))))
      = 2
   \<and> not_closed (snd (list_available_models
        (scripted [] (Raises (OtherError [JStr ''timeout''])) (\<lambda>i. 2000)) False demo_server))
   \<and> 0 < max_retries (config (snd (list_available_models
        (scripted [] (Raises (OtherError [JStr ''timeout''])) (\<lambda>i. 2000)) False demo_server)))
   \<and> requests (snd (list_available_models
        (scripted [] (Raises (OtherError [JStr ''timeout''])) (\<lambda>i. 2000)) False demo_server)) = 1
   \<and> 1 < requests (snd (list_available_models demo_world False
        (snd (list_available_models
           (scripted [] (Raises (OtherError [JStr ''timeout''])) (\<lambda>i. 2000)) False demo_server))))
   \<and> repositories_cache demo_server = None
   \<and> is_failure (fst (list_repositories
        (scripted [] (Raises (OtherError [JStr ''timeout''])) (\<lambda>i. 2000)) False demo_server))
   \<and> api_calls (snd (list_repositories demo_world False
        (snd (list_repositories
           (scripted [] (Raises (OtherError [JStr ''timeout''])) (\<lambda>i. 2000)) False demo_server))))
      = 2
   \<and> 1 < requests (snd (list_repositories demo_world False
        (snd (list_repositories
           (scripted [] (Raises (OtherError [JStr ''timeout''])) (\<lambda>i. 2000)) False demo_server))))
   \<and> extract_repo_info ''https://github.com/acme/widgets'' = Inr (''acme'', ''widgets'')
   \<and> branches_cache demo_server ''acme/widgets'' = None
   \<and> is_failure (fst (list_repository_branches
        (scripted [] (Raises (OtherError [JStr ''timeout''])) (\<lambda>i. 2000))
        ''https://github.com/acme/widgets'' False demo_server))
   \<and> requests (snd (list_repository_branches demo_world ''https://github.com/acme/widgets'' False
        (snd (list_repository_branches
           (scripted [] (Raises (OtherError [JStr ''timeout''])) (\<lambda>i. 2000))
           ''https://github.com/acme/widgets'' False demo_server)))) = 2"
  using only_successful_fetches_are_cached
    [where e = "scripted [] (Raises (OtherError [JStr ''timeout''])) (\<lambda>i. 2000)" and f = False
       and s = demo_server and e' = demo_world and f' = False and op = "ListModels False"
       and u = "''https://github.com/acme/widgets''" and owner = "''acme''" and repo = "''widgets''"]
    only_successful_fetches_are_cached
    [where e = demo_world and s = demo_server and op = "ListModels False"
       and cfg = "default_config ''key''"
       and ops = "[Initialize, ListModels False, ListRepositories False,
         ListBranches ''https://github.com/acme/widgets'' False, ListAgents [],
         AddFollowup [(''agent_id'', JStr ''a1''), (''instruction'', JStr ''Add tests'')],
         StopAgent [(''agent_id'', JStr ''a1'')], GetUsage, Cleanup]"]
  by (simp add: demo_timeout_calls demo_url demo_cache_inv models_fallback_failure
      repositories_fallback_failure branches_fallback_failure)

section \<open>The agent registry\<close>

lemma create_try_Inr:
  assumes t: "create_try e args s = (Inr r, s1)"
  shows "\<exists>a. map_of args ''prompt'' = Some (prompt a) \<and>
             map_of args ''repository_url'' = Some (repository_url a) \<and>
             map_of r ''agent_id'' = Some (Val (agent_id a)) \<and>
             agents s1 = AList.update (key_of (agent_id a)) a (agents s)"
proof (cases "map_of args ''prompt''")
  case None
  then show ?thesis using t by (simp add: create_try_def dict_item_def)
next
  case p: (Some prompt_text)
  show ?thesis
  proof (cases "map_of args ''repository_url''")
    case None
    then show ?thesis using t p by (simp add: create_try_def dict_item_def)
  next
    case u: (Some repo_url)
    let ?payload = "JDict
            [(''prompt'', JDict [(''text'', prompt_text)]),
             (''source'', JDict [(''repository'', repo_url),
                                 (''ref'', dict_get args ''branch'' (JStr ''main''))]),
             (''model'', dict_get args ''model'' (JStr ''claude-3-5-sonnet'')),
             (''target'', JDict [(''autoCreatePr'', JBool True)])]"
    obtain rs sb where m: "make_api_request e ''POST'' [JStr ''/v0/agents''] ?payload s = (rs, sb)"
      by (cases "make_api_request e ''POST'' [JStr ''/v0/agents''] ?payload s")
    note f = make_api_request_fields[OF m]
    have step: "create_try e args s =
       (case rs of Inl ex \<Rightarrow> (Inl ex, sb)
        | Inr response \<Rightarrow>
     (case response of
        JDict d \<Rightarrow>
          (case utcnow_ts e sb of (t1, s2) \<Rightarrow>
           case utcnow_isoformat e s2 of (t2, s3) \<Rightarrow>
           let agent =
                 \<lparr>agent_id = dict_get d ''id'' (JStr (''agent-'' @ t1)),
                  status = dict_get d ''status'' (JStr ''CREATING''),
                  repository_url = repo_url,
                  prompt = prompt_text,
                  branch = dict_get args ''branch'' (JStr ''main''),
                  model = dict_get args ''model'' (JStr ''claude-3-5-sonnet''),
                  created_at = dict_get d ''createdAt'' (JStr t2),
                  updated_at = JNone,
                  progress = JNone\<rparr>
           in if hashable (agent_id agent) then
                (Inr [(''success'', Val (JBool True)),
                      (''agent_id'', Val (agent_id agent)),
                      (''status'', Val (status agent)),
                      (''repository_url'', Val (repository_url agent)),
                      (''branch'', Val (branch agent)),
                      (''model'', Val (model agent)),
                      (''created_at'', Val (created_at agent)),
                      (''message'', Txt
                         [JStr ''Background agent created successfully. Agent will work autonomously on '',
                          JStr [CHR 0x27], prompt_text, JStr [CHR 0x27]])],
                 s3\<lparr>agents := AList.update (key_of (agent_id agent)) agent (agents s3)\<rparr>)
              else (Inl (unhashable (agent_id agent)), s3))
      | _ \<Rightarrow> (Inl (no_attribute (type_name response) ''get''), sb)))"
      using p u m by (simp add: create_try_def dict_item_def)
    show ?thesis
    proof (cases rs)
      case (Inl ex)
      then show ?thesis using t step by simp
    next
      case (Inr response)
      show ?thesis
      proof (cases response)
        case (JDict d)
        let ?a = "\<lparr>agent_id = dict_get d ''id'' (JStr (''agent-'' @ utcnow_timestamp e (clock_reads sb))),
                  status = dict_get d ''status'' (JStr ''CREATING''),
                  repository_url = repo_url,
                  prompt = prompt_text,
                  branch = dict_get args ''branch'' (JStr ''main''),
                  model = dict_get args ''model'' (JStr ''claude-3-5-sonnet''),
                  created_at = dict_get d ''createdAt'' (JStr (utcnow_iso e (Suc (clock_reads sb)))),
                  updated_at = JNone,
                  progress = JNone\<rparr>"
        have h: "hashable (agent_id ?a)"
          using t step Inr JDict
          by (auto simp: utcnow_ts_def utcnow_isoformat_def Let_def split: if_splits)
        have r: "map_of r ''agent_id'' = Some (Val (agent_id ?a))"
          and s1: "agents s1 = AList.update (key_of (agent_id ?a)) ?a (agents sb)"
          using t step Inr JDict h
          by (auto simp: utcnow_ts_def utcnow_isoformat_def Let_def)
        have "map_of args ''prompt'' = Some (prompt ?a) \<and>
             map_of args ''repository_url'' = Some (repository_url ?a) \<and>
             map_of r ''agent_id'' = Some (Val (agent_id ?a)) \<and>
             agents s1 = AList.update (key_of (agent_id ?a)) ?a (agents s)"
          using p u f(1) r s1 by simp
        then show ?thesis by (rule exI)
      qed (use t step Inr in simp_all)
    qed
  qed
qed

lemma get_status_try_Inr:
  assumes t: "get_status_try e args s = (Inr r, s2)"
    and aid: "map_of args ''agent_id'' = Some aid"
  obtains d tm where "map_of r ''status'' = Some (Val (dict_get d ''status'' (JStr ''unknown'')))"
    and "agents s2 =
             (case map_of (agents s) (key_of aid) of
                None \<Rightarrow> agents s
              | Some a \<Rightarrow>
                  AList.update (key_of aid)
                    (a\<lparr>status := dict_get d ''status'' (status a),
                       progress := dict_get d ''progress'' (progress a),
                       updated_at := JStr tm\<rparr>)
                    (agents s))"
proof -
  obtain rs sb where m: "make_api_request e ''GET'' [JStr ''/v0/agents/'', aid] JNone s = (rs, sb)"
    by (cases "make_api_request e ''GET'' [JStr ''/v0/agents/'', aid] JNone s")
  note f = make_api_request_fields[OF m]
  have step: "get_status_try e args s =
     (case rs of Inl ex \<Rightarrow> (Inl ex, sb)
      | Inr response \<Rightarrow>
          if \<not> hashable aid then (Inl (unhashable aid), sb)
          else
     (case response of
        JDict d \<Rightarrow>
          (let s3 =
                 (case map_of (agents sb) (key_of aid) of
                    None \<Rightarrow> sb
                  | Some agent \<Rightarrow>
                      (case utcnow_isoformat e sb of (t, s2) \<Rightarrow>
                         s2\<lparr>agents := AList.update (key_of aid)
                              (agent\<lparr>status := dict_get d ''status'' (status agent),
                                     progress := dict_get d ''progress'' (progress agent),
                                     updated_at := JStr t\<rparr>)
                              (agents s2)\<rparr>))
           in (Inr [(''success'', Val (JBool True)),
                    (''agent_id'', Val aid),
                    (''status'', Val (dict_get d ''status'' (JStr ''unknown''))),
                    (''progress'', Val (dict_get d ''progress'' (JDict []))),
                    (''repository_url'', Val (dict_get d ''repository_url'' JNone)),
                    (''branch'', Val (dict_get d ''branch'' JNone)),
                    (''created_at'', Val (dict_get d ''created_at'' JNone)),
                    (''updated_at'', Val (dict_get d ''updated_at'' JNone)),
                    (''logs'', Val (dict_get d ''logs'' (JList [])))],
               s3))
      | _ \<Rightarrow> (Inl (no_attribute (type_name response) ''get''), sb)))"
    using aid m by (simp add: get_status_try_def dict_item_def)
  show ?thesis
  proof (cases rs)
    case (Inl ex)
    then show ?thesis using t step by simp
  next
    case (Inr response)
    have h: "hashable aid"
      using t step Inr by (auto split: if_splits)
    show ?thesis
    proof (cases response)
      case (JDict d)
      have r: "map_of r ''status'' = Some (Val (dict_get d ''status'' (JStr ''unknown'')))"
        using t step Inr JDict h by (auto simp: Let_def)
      have s2: "agents s2 =
             (case map_of (agents s) (key_of aid) of
                None \<Rightarrow> agents s
              | Some a \<Rightarrow>
                  AList.update (key_of aid)
                    (a\<lparr>status := dict_get d ''status'' (status a),
                       progress := dict_get d ''progress'' (progress a),
                       updated_at := JStr (utcnow_iso e (clock_reads sb))\<rparr>)
                    (agents s))"
        using t step Inr JDict h f(1)
        by (auto simp: Let_def utcnow_isoformat_def split: option.splits)
      show ?thesis
        by (rule that[OF r s2])
    qed (use t step Inr h in simp_all)
  qed
qed

lemma failure_envelope_not_success:
  "\<not> is_success ((''success'', Val (JBool False)) # rest)"
  by (simp add: is_success_def)

lemma create_success:
  assumes c: "create_background_agent e args s0 = (r, s1)" and ok: "is_success r"
  shows "create_try e args s0 = (Inr r, s1)"
  using c ok
  by (auto simp: create_background_agent_def failure_envelope_not_success
      split: prod.splits sum.splits)

lemma get_status_success:
  assumes c: "get_agent_status e args s1 = (r, s2)" and ok: "is_success r"
  shows "get_status_try e args s1 = (Inr r, s2)"
  using c ok
  by (auto simp: get_agent_status_def failure_envelope_not_success
      split: prod.splits sum.splits)

text \<open>
  Claim C8. Let create have returned a success envelope with the agent identifier \<open>i\<close>
  (a string, such as \<^verbatim>\<open>a1\<close>), and let get-status for \<open>i\<close>, called in the state that create
  left, have returned a success envelope with status \<^verbatim>\<open>running\<close>. Then the registry held,
  after create, a record for \<open>i\<close> whose repository URL and prompt are those of the
  arguments of create, and it holds, after get-status, that same record with its status
  set to \<^verbatim>\<open>running\<close> and with its progress and its update time set: no other field of
  the record has changed, and no other record has changed.
\<close>

theorem get_status_updates_only_status_fields:
  "create_background_agent e args s0 = (rc, s1) \<and> is_success rc \<and>
   map_of rc ''agent_id'' = Some (Val (JStr i)) \<and>
   map_of args' ''agent_id'' = Some (JStr i) \<and>
   get_agent_status e' args' s1 = (rg, s2) \<and> is_success rg \<and>
   map_of rg ''status'' = Some (Val (JStr ''running''))
   \<longrightarrow> (\<exists>a p t.
          map_of (agents s1) (JStr i) = Some a \<and>
          map_of args ''repository_url'' = Some (repository_url a) \<and>
          map_of args ''prompt'' = Some (prompt a) \<and>
          map_of (agents s2) (JStr i)
            = Some (a\<lparr>status := JStr ''running'', progress := p, updated_at := JStr t\<rparr>) \<and>
          (\<forall>k. k \<noteq> JStr i \<longrightarrow> map_of (agents s2) k = map_of (agents s1) k))"
proof
  assume h: "create_background_agent e args s0 = (rc, s1) \<and> is_success rc \<and>
   map_of rc ''agent_id'' = Some (Val (JStr i)) \<and>
   map_of args' ''agent_id'' = Some (JStr i) \<and>
   get_agent_status e' args' s1 = (rg, s2) \<and> is_success rg \<and>
   map_of rg ''status'' = Some (Val (JStr ''running''))"
  then have ct: "create_try e args s0 = (Inr rc, s1)"
    using create_success by blast
  from h have gt: "get_status_try e' args' s1 = (Inr rg, s2)"
    using get_status_success by blast
  from h have id: "map_of rc ''agent_id'' = Some (Val (JStr i))"
    and aid: "map_of args' ''agent_id'' = Some (JStr i)"
    and run: "map_of rg ''status'' = Some (Val (JStr ''running''))"
    by blast+
  obtain a where pa: "map_of args ''prompt'' = Some (prompt a)"
    and ua: "map_of args ''repository_url'' = Some (repository_url a)"
    and ia: "map_of rc ''agent_id'' = Some (Val (agent_id a))"
    and ag1: "agents s1 = AList.update (key_of (agent_id a)) a (agents s0)"
    using create_try_Inr[OF ct] by blast
  have ida: "agent_id a = JStr i"
    using id ia by simp
  have in1: "map_of (agents s1) (JStr i) = Some a"
    using ag1 ida by (simp add: update_conv')
  obtain d tm where st: "map_of rg ''status'' = Some (Val (dict_get d ''status'' (JStr ''unknown'')))"
    and ag2: "agents s2 =
             (case map_of (agents s1) (key_of (JStr i)) of
                None \<Rightarrow> agents s1
              | Some a \<Rightarrow>
                  AList.update (key_of (JStr i))
                    (a\<lparr>status := dict_get d ''status'' (status a),
                       progress := dict_get d ''progress'' (progress a),
                       updated_at := JStr tm\<rparr>)
                    (agents s1))"
    by (rule get_status_try_Inr[OF gt aid])
  have dst: "dict_get d ''status'' (JStr ''unknown'') = JStr ''running''"
    using st run by simp
  then have dsa: "dict_get d ''status'' (status a) = JStr ''running''"
    by (auto simp: dict_get_def split: option.splits)
  have ag2': "agents s2 = AList.update (JStr i)
                    (a\<lparr>status := JStr ''running'',
                       progress := dict_get d ''progress'' (progress a),
                       updated_at := JStr tm\<rparr>)
                    (agents s1)"
    using ag2 in1 dsa by simp
  have in2: "map_of (agents s2) (JStr i)
            = Some (a\<lparr>status := JStr ''running'', progress := dict_get d ''progress'' (progress a),
                     updated_at := JStr tm\<rparr>)"
    unfolding ag2' by (simp add: update_conv')
  have others: "\<forall>k. k \<noteq> JStr i \<longrightarrow> map_of (agents s2) k = map_of (agents s1) k"
    unfolding ag2' by (simp add: update_conv')
  show "\<exists>a p t.
          map_of (agents s1) (JStr i) = Some a \<and>
          map_of args ''repository_url'' = Some (repository_url a) \<and>
          map_of args ''prompt'' = Some (prompt a) \<and>
          map_of (agents s2) (JStr i)
            = Some (a\<lparr>status := JStr ''running'', progress := p, updated_at := JStr t\<rparr>) \<and>
          (\<forall>k. k \<noteq> JStr i \<longrightarrow> map_of (agents s2) k = map_of (agents s1) k)"
    using in1 ua pa in2 others by blast
qed

lemma scripted_utcnow [simp]:
  "utcnow_iso (scripted rs final ck) i = ''2024-01-01T00:00:00''"
  "utcnow_timestamp (scripted rs final ck) i = ''1704067200.0''"
  by (simp_all add: scripted_def)

lemma demo_agent_world_fields [simp]:
  "utcnow_iso demo_agent_world i = ''2024-01-01T00:00:00''"
  "utcnow_timestamp demo_agent_world i = ''1704067200.0''"
  "transport demo_agent_world 0 rq
     = Response 200 (Inr (JDict [(''id'', JStr ''a1''), (''status'', JStr ''CREATING'')])) []"
  "transport demo_agent_world (Suc 0) rq
     = Response 200 (Inr (JDict [(''status'', JStr ''running''),
                                 (''progress'', JDict [(''step'', JInt 1)])])) []"
  by (simp_all add: demo_agent_world_def)

lemma demo_create:
  "create_background_agent demo_agent_world demo_create_args demo_server =
     ([(''success'', Val (JBool True)),
       (''agent_id'', Val (JStr ''a1'')),
       (''status'', Val (JStr ''CREATING'')),
       (''repository_url'', Val (JStr ''https://github.com/acme/widgets'')),
       (''branch'', Val (JStr ''main'')),
       (''model'', Val (JStr ''claude-3-5-sonnet'')),
       (''created_at'', Val (JStr ''2024-01-01T00:00:00'')),
       (''message'', Txt
          [JStr ''Background agent created successfully. Agent will work autonomously on '',
           JStr [CHR 0x27], JStr ''Fix the bug'', JStr [CHR 0x27]])],
      demo_server\<lparr>api_calls := Suc 0, requests := Suc 0, clock_reads := Suc (Suc 0),
        agents := [(JStr ''a1'', demo_agent)]\<rparr>)"
proof -
  let ?payload = "JDict
            [(''prompt'', JDict [(''text'', JStr ''Fix the bug'')]),
             (''source'', JDict [(''repository'', JStr ''https://github.com/acme/widgets''),
                                 (''ref'', JStr ''main'')]),
             (''model'', JStr ''claude-3-5-sonnet''),
             (''target'', JDict [(''autoCreatePr'', JBool True)])]"
  have m: "make_api_request demo_agent_world ''POST'' [JStr ''/v0/agents''] ?payload demo_server =
      (Inr (JDict [(''id'', JStr ''a1''), (''status'', JStr ''CREATING'')]),
       demo_server\<lparr>api_calls := Suc 0, requests := Suc 0\<rparr>)"
    using make_api_request_first[of demo_server demo_agent_world "''POST''" "[JStr ''/v0/agents'']"
        ?payload 200 "JDict [(''id'', JStr ''a1''), (''status'', JStr ''CREATING'')]" "[]"]
    by simp
  show ?thesis
    by (simp add: create_background_agent_def create_try_def demo_create_args_def dict_item_def
        dict_get_def m utcnow_ts_def utcnow_isoformat_def demo_agent_def Let_def)
qed

lemma demo_after_create_eq:
  "demo_after_create = demo_server\<lparr>api_calls := Suc 0, requests := Suc 0,
     clock_reads := Suc (Suc 0), agents := [(JStr ''a1'', demo_agent)]\<rparr>"
  by (simp add: demo_after_create_def demo_create)

lemma demo_get_status:
  "get_agent_status demo_agent_world [(''agent_id'', JStr ''a1'')] demo_after_create =
     ([(''success'', Val (JBool True)),
       (''agent_id'', Val (JStr ''a1'')),
       (''status'', Val (JStr ''running'')),
       (''progress'', Val (JDict [(''step'', JInt 1)])),
       (''repository_url'', Val JNone),
       (''branch'', Val JNone),
       (''created_at'', Val JNone),
       (''updated_at'', Val JNone),
       (''logs'', Val (JList []))],
      demo_server\<lparr>api_calls := Suc (Suc 0), requests := Suc (Suc 0),
        clock_reads := Suc (Suc (Suc 0)),
        agents := [(JStr ''a1'',
           demo_agent\<lparr>status := JStr ''running'', progress := JDict [(''step'', JInt 1)],
                        updated_at := JStr ''2024-01-01T00:00:00''\<rparr>)]\<rparr>)"
proof -
  let ?s = "demo_server\<lparr>api_calls := Suc 0, requests := Suc 0,
     clock_reads := Suc (Suc 0), agents := [(JStr ''a1'', demo_agent)]\<rparr>"
  have es: "ensure_session ?s = ?s"
    by (rule ensure_session_live_id) simp
  have m: "make_api_request demo_agent_world ''GET'' [JStr ''/v0/agents/'', JStr ''a1''] JNone ?s =
      (Inr (JDict [(''status'', JStr ''running''), (''progress'', JDict [(''step'', JInt 1)])]),
       ?s\<lparr>api_calls := Suc (Suc 0), requests := Suc (Suc 0)\<rparr>)"
    using make_api_request_first[of ?s demo_agent_world "''GET''"
        "[JStr ''/v0/agents/'', JStr ''a1'']" JNone 200
        "JDict [(''status'', JStr ''running''), (''progress'', JDict [(''step'', JInt 1)])]" "[]"]
    by (simp add: es)
  show ?thesis
    unfolding demo_after_create_eq
    by (simp add: get_agent_status_def get_status_try_def dict_item_def dict_get_def m
        utcnow_isoformat_def Let_def)
qed

theorem get_status_updates_only_status_fields_witness:
  "create_background_agent demo_agent_world demo_create_args demo_server
     = (fst (create_background_agent demo_agent_world demo_create_args demo_server),
        demo_after_create)
   \<and> is_success (fst (create_background_agent demo_agent_world demo_create_args demo_server))
   \<and> map_of (fst (create_background_agent demo_agent_world demo_create_args demo_server))
        ''agent_id'' = Some (Val (JStr ''a1''))
   \<and> is_success (fst (get_agent_status demo_agent_world [(''agent_id'', JStr ''a1'')]
        demo_after_create))
   \<and> map_of (fst (get_agent_status demo_agent_world [(''agent_id'', JStr ''a1'')]
        demo_after_create)) ''status'' = Some (Val (JStr ''running''))
   \<and> map_of (agents demo_after_create) (JStr ''a1'') = Some demo_agent
   \<and> map_of demo_create_args ''repository_url'' = Some (repository_url demo_agent)
   \<and> map_of demo_create_args ''prompt'' = Some (prompt demo_agent)
   \<and> (\<exists>p t. map_of (agents (snd (get_agent_status demo_agent_world [(''agent_id'', JStr ''a1'')]
                   demo_after_create))) (JStr ''a1'')
          = Some (demo_agent\<lparr>status := JStr ''running'', progress := p, updated_at := JStr t\<rparr>))"
proof -
  let ?rc = "fst (create_background_agent demo_agent_world demo_create_args demo_server)"
  let ?g = "get_agent_status demo_agent_world [(''agent_id'', JStr ''a1'')] demo_after_create"
  note t = get_status_updates_only_status_fields
    [where e = demo_agent_world and args = demo_create_args and ?s0.0 = demo_server
       and rc = ?rc and ?s1.0 = demo_after_create and i = "''a1''"
       and args' = "[(''agent_id'', JStr ''a1'')]" and e' = demo_agent_world
       and rg = "fst ?g" and ?s2.0 = "snd ?g"]
  have c: "create_background_agent demo_agent_world demo_create_args demo_server
             = (?rc, demo_after_create)"
    by (simp add: demo_after_create_def)
  have okc: "is_success ?rc" and idc: "map_of ?rc ''agent_id'' = Some (Val (JStr ''a1''))"
    by (simp_all add: demo_create is_success_def)
  have okg: "is_success (fst ?g)"
    and stg: "map_of (fst ?g) ''status'' = Some (Val (JStr ''running''))"
    by (simp_all add: demo_get_status is_success_def)
  have a1: "map_of (agents demo_after_create) (JStr ''a1'') = Some demo_agent"
    by (simp add: demo_after_create_eq)
  have ar: "map_of demo_create_args ''repository_url'' = Some (repository_url demo_agent)"
    "map_of demo_create_args ''prompt'' = Some (prompt demo_agent)"
    by (simp_all add: demo_create_args_def demo_agent_def)
  have "\<exists>a p t.
          map_of (agents demo_after_create) (JStr ''a1'') = Some a \<and>
          map_of demo_create_args ''repository_url'' = Some (repository_url a) \<and>
          map_of demo_create_args ''prompt'' = Some (prompt a) \<and>
          map_of (agents (snd ?g)) (JStr ''a1'')
            = Some (a\<lparr>status := JStr ''running'', progress := p, updated_at := JStr t\<rparr>) \<and>
          (\<forall>k. k \<noteq> JStr ''a1'' \<longrightarrow> map_of (agents (snd ?g)) k = map_of (agents demo_after_create) k)"
    using t c okc idc okg stg by simp
  then have ex: "\<exists>p t. map_of (agents (snd ?g)) (JStr ''a1'')
          = Some (demo_agent\<lparr>status := JStr ''running'', progress := p, updated_at := JStr t\<rparr>)"
    using a1 by auto
  show ?thesis
    using c okc idc okg stg a1 ar ex by blast
qed

end
